(* ===== verification/Prelude.thy ===== *)
theory Prelude
  imports Complex_Main "HOL-Library.AList" "HOL-Library.Sublist" "HOL-Library.Char_ord"
    "HOL-Library.Product_Lexorder" "HOL-Library.Multiset"
begin

text \<open>
  The library the component theories share: insertion-ordered dictionaries (Python's
  \<open>dict\<close>) as association lists over \<open>HOL-Library.AList\<close>, first-occurrence
  de-duplication (\<open>dict.fromkeys\<close>), stable sorting and first-minimum selection, the
  string methods the program calls (ASCII, which is what its identifiers, statuses and
  numerals use), reading and printing of integers, and the collections of facts the
  component proofs add to the simplifier.
\<close>

named_theorems dict_simps \<open>lookup after an update of an insertion-ordered dictionary\<close>
named_theorems guard_defs \<open>definitions of guards that a proof opens by name\<close>
named_theorems frame_simps \<open>fields that an operation leaves alone\<close>

subsection \<open>Dictionaries in insertion order\<close>

type_synonym ('k, 'v) dict = "('k \<times> 'v) list"

definition dict_get :: "('k, 'v) dict \<Rightarrow> 'k \<Rightarrow> 'v option" where
  "dict_get d k = map_of d k"

definition dict_set :: "'k \<Rightarrow> 'v \<Rightarrow> ('k, 'v) dict \<Rightarrow> ('k, 'v) dict" where
  "dict_set k v d = AList.update k v d"

definition dict_pop :: "'k \<Rightarrow> ('k, 'v) dict \<Rightarrow> ('k, 'v) dict" where
  "dict_pop k d = AList.delete k d"

definition dict_setdefault :: "'k \<Rightarrow> 'v \<Rightarrow> ('k, 'v) dict \<Rightarrow> ('k, 'v) dict" where
  "dict_setdefault k v d = (case map_of d k of None \<Rightarrow> d @ [(k, v)] | Some _ \<Rightarrow> d)"

abbreviation dict_keys :: "('k, 'v) dict \<Rightarrow> 'k set" where
  "dict_keys d \<equiv> fst ` set d"

lemma dict_get_empty [simp, dict_simps]: "dict_get [] k = None"
  by (simp add: dict_get_def)

lemma dict_get_set [simp, dict_simps]:
  "dict_get (dict_set k v d) k' = (if k' = k then Some v else dict_get d k')"
  by (simp add: dict_get_def dict_set_def update_conv')

lemma dict_get_pop [simp, dict_simps]:
  "dict_get (dict_pop k d) k' = (if k' = k then None else dict_get d k')"
  by (simp add: dict_get_def dict_pop_def delete_conv')

lemma dict_get_setdefault [simp, dict_simps]:
  "dict_get (dict_setdefault k v d) k' =
     (if k' = k then Some (case dict_get d k of None \<Rightarrow> v | Some w \<Rightarrow> w) else dict_get d k')"
  by (auto simp: dict_get_def dict_setdefault_def map_add_def split: option.splits)

lemma dict_get_None_iff: "dict_get d k = None \<longleftrightarrow> k \<notin> dict_keys d"
  by (simp add: dict_get_def map_of_eq_None_iff)

lemma dict_get_SomeD: "dict_get d k = Some v \<Longrightarrow> (k, v) \<in> set d"
  by (simp add: dict_get_def map_of_SomeD)

lemma dict_get_Some_key: "dict_get d k = Some v \<Longrightarrow> k \<in> dict_keys d"
  by (metis dict_get_None_iff option.distinct(1))

lemma dict_get_in: "distinct (map fst d) \<Longrightarrow> (k, v) \<in> set d \<Longrightarrow> dict_get d k = Some v"
  by (simp add: dict_get_def)

lemma dict_keys_set [simp]: "dict_keys (dict_set k v d) = insert k (dict_keys d)"
  by (simp add: dict_set_def dom_update)

lemma dict_keys_pop [simp]: "dict_keys (dict_pop k d) = dict_keys d - {k}"
  by (metis delete_keys dict_pop_def list.set_map set_removeAll)

lemma dict_keys_setdefault [simp]: "dict_keys (dict_setdefault k v d) = insert k (dict_keys d)"
proof (cases "map_of d k")
  case None
  then show ?thesis by (auto simp: dict_setdefault_def)
next
  case (Some w)
  then have "k \<in> dict_keys d" by (metis map_of_eq_None_iff option.distinct(1))
  with Some show ?thesis by (auto simp: dict_setdefault_def)
qed

lemma distinct_dict_set [simp]: "distinct (map fst d) \<Longrightarrow> distinct (map fst (dict_set k v d))"
  by (simp add: dict_set_def distinct_update)

lemma distinct_dict_pop [simp]: "distinct (map fst d) \<Longrightarrow> distinct (map fst (dict_pop k d))"
  by (simp add: dict_pop_def distinct_delete)

lemma distinct_dict_setdefault [simp]:
  "distinct (map fst d) \<Longrightarrow> distinct (map fst (dict_setdefault k v d))"
  by (auto simp: dict_setdefault_def map_of_eq_None_iff split: option.splits)

subsection \<open>Lists\<close>

text \<open>\<open>dict.fromkeys(xs)\<close>: the distinct elements in the order of their first occurrence.\<close>

definition uniq :: "'a list \<Rightarrow> 'a list" where
  "uniq xs = rev (remdups (rev xs))"

lemma set_uniq [simp]: "set (uniq xs) = set xs"
  by (simp add: uniq_def)

lemma distinct_uniq [simp]: "distinct (uniq xs)"
  by (simp add: uniq_def)

lemma uniq_Nil_iff [simp]: "uniq xs = [] \<longleftrightarrow> xs = []"
  by (simp add: uniq_def)

lemma uniq_Nil [simp]: "uniq [] = []"
  by (simp add: uniq_def)

lemma uniq_snoc: "uniq (xs @ [x]) = (if x \<in> set xs then uniq xs else uniq xs @ [x])"
  by (simp add: uniq_def)

lemma uniq_distinct_id: "distinct xs \<Longrightarrow> uniq xs = xs"
  by (simp add: uniq_def distinct_remdups_id)

text \<open>The elements between separators, as \<open>sep.join\<close> puts them.\<close>

fun join :: "'a list \<Rightarrow> 'a list list \<Rightarrow> 'a list" where
  "join sep [] = []"
| "join sep [x] = x"
| "join sep (x # y # ys) = x @ sep @ join sep (y # ys)"

lemma distinct_map_filter: "distinct (map f xs) \<Longrightarrow> distinct (map f (filter P xs))"
  by (induction xs) auto

lemma distinct_map_inj:
  "distinct (map f xs) \<Longrightarrow> x \<in> set xs \<Longrightarrow> y \<in> set xs \<Longrightarrow> f x = f y \<Longrightarrow> x = y"
  by (simp add: distinct_map inj_on_def)

lemma map_cong_key:
  "(\<And>x. x \<in> set xs \<Longrightarrow> key (g x) = key x) \<Longrightarrow> map key (map g xs) = map key xs"
  by simp

lemma list_all_upt_Suc: "list_all P [0..<Suc k] \<longleftrightarrow> P 0 \<and> list_all (\<lambda>i. P (Suc i)) [0..<k]"
proof -
  have "[0..<Suc k] = 0 # map Suc [0..<k]" by (simp add: upt_conv_Cons map_Suc_upt del: upt_Suc)
  then show ?thesis by (simp add: list.pred_map comp_def del: upt_Suc)
qed

lemma find_Some_in: "find P xs = Some x \<Longrightarrow> x \<in> set xs \<and> P x"
  by (auto simp: find_Some_iff)

lemma find_distinct_key:
  assumes "distinct (map key xs)" "x \<in> set xs" "key x = k"
  shows "find (\<lambda>y. key y = k) xs = Some x"
  using assms by (induction xs) auto

lemma find_append:
  "find P (xs @ ys) = (case find P xs of None \<Rightarrow> find P ys | Some x \<Rightarrow> Some x)"
  by (induction xs) auto

lemma find_filter_other:
  "(\<And>x. P x \<Longrightarrow> Q x) \<Longrightarrow> find P (filter Q xs) = find P xs"
  by (induction xs) auto

lemma find_map_key:
  "(\<And>x. key (g x) = key x) \<Longrightarrow> find (\<lambda>y. key y = k) (map g xs) = map_option g (find (\<lambda>y. key y = k) xs)"
  by (induction xs) auto

subsection \<open>Strings\<close>

definition lower_char :: "char \<Rightarrow> char" where
  "lower_char c =
     (let n = (of_char c :: int) in if 65 \<le> n \<and> n \<le> 90 then char_of (n + 32) else c)"

definition upper_char :: "char \<Rightarrow> char" where
  "upper_char c =
     (let n = (of_char c :: int) in if 97 \<le> n \<and> n \<le> 122 then char_of (n - 32) else c)"

definition lower :: "string \<Rightarrow> string" where
  "lower s = map lower_char s"

definition upper :: "string \<Rightarrow> string" where
  "upper s = map upper_char s"

definition is_space :: "char \<Rightarrow> bool" where
  "is_space c = (let n = (of_char c :: int) in n = 32 \<or> (9 \<le> n \<and> n \<le> 13) \<or> (28 \<le> n \<and> n \<le> 31))"

definition strip :: "string \<Rightarrow> string" where
  "strip s = rev (dropWhile is_space (rev (dropWhile is_space s)))"

definition startswith :: "string \<Rightarrow> string \<Rightarrow> bool" where
  "startswith s p = (take (length p) s = p)"

definition removeprefix :: "string \<Rightarrow> string \<Rightarrow> string" where
  "removeprefix s p = (if startswith s p then drop (length p) s else s)"

text \<open>The substring test \<open>p in s\<close>.\<close>

fun contains :: "string \<Rightarrow> string \<Rightarrow> bool" where
  "contains p [] = (p = [])"
| "contains p (c # s) = (startswith (c # s) p \<or> contains p s)"

text \<open>\<open>s.rsplit(c, 1)[1]\<close> and \<open>s.split(c, 1)\<close> for a one-character separator.\<close>

definition after_last :: "char \<Rightarrow> string \<Rightarrow> string option" where
  "after_last c s = (if c \<in> set s then Some (rev (takeWhile (\<lambda>x. x \<noteq> c) (rev s))) else None)"

definition split_first :: "char \<Rightarrow> string \<Rightarrow> (string \<times> string) option" where
  "split_first c s =
     (if c \<in> set s then Some (takeWhile (\<lambda>x. x \<noteq> c) s, tl (dropWhile (\<lambda>x. x \<noteq> c) s)) else None)"

lemma startswith_append [simp]: "startswith (p @ s) p"
  by (simp add: startswith_def)

lemma startswith_prefix: "startswith s p \<longleftrightarrow> prefix p s"
  by (metis append_eq_conv_conj prefix_def startswith_def)

lemma removeprefix_append [simp]: "removeprefix (p @ s) p = s"
  by (simp add: removeprefix_def)

lemma contains_sublist: "contains p s \<longleftrightarrow> sublist p s"
  by (induction s) (auto simp: startswith_prefix sublist_Cons_right)

lemma after_last_append: "c \<notin> set t \<Longrightarrow> after_last c (s @ c # t) = Some t"
proof -
  assume c: "c \<notin> set t"
  have "takeWhile (\<lambda>x. x \<noteq> c) (rev t @ c # rev s) = rev t"
    by (rule trans [OF takeWhile_append2]) (use c in auto)
  then show ?thesis by (simp add: after_last_def)
qed

lemma split_first_append: "c \<notin> set s \<Longrightarrow> split_first c (s @ c # t) = Some (s, t)"
proof -
  assume c: "c \<notin> set s"
  have "takeWhile (\<lambda>x. x \<noteq> c) (s @ c # t) = s"
    by (rule trans [OF takeWhile_append2]) (use c in auto)
  moreover have "dropWhile (\<lambda>x. x \<noteq> c) (s @ c # t) = c # t"
    by (rule trans [OF dropWhile_append2]) (use c in auto)
  ultimately show ?thesis by (simp add: split_first_def)
qed

subsection \<open>Integers as text\<close>

definition hex_value :: "char \<Rightarrow> int option" where
  "hex_value c =
     (let n = (of_char c :: int) in
      if 48 \<le> n \<and> n \<le> 57 then Some (n - 48)
      else if 97 \<le> n \<and> n \<le> 102 then Some (n - 87)
      else if 65 \<le> n \<and> n \<le> 70 then Some (n - 55) else None)"

definition is_digit :: "char \<Rightarrow> bool" where
  "is_digit c = (let n = (of_char c :: int) in 48 \<le> n \<and> n \<le> 57)"

definition digit_value :: "char \<Rightarrow> int" where
  "digit_value c = of_char c - 48"

definition digit_char :: "int \<Rightarrow> char" where
  "digit_char d = char_of (d + 48)"

lemma of_char_digit_char [simp]: "0 \<le> d \<Longrightarrow> d < 10 \<Longrightarrow> (of_char (digit_char d) :: int) = d + 48"
  by (simp add: digit_char_def)

lemma is_digit_digit_char [simp]: "0 \<le> d \<Longrightarrow> d < 10 \<Longrightarrow> is_digit (digit_char d)"
  by (simp add: is_digit_def Let_def)

lemma digit_value_digit_char [simp]: "0 \<le> d \<Longrightarrow> d < 10 \<Longrightarrow> digit_value (digit_char d) = d"
  by (simp add: digit_value_def)

lemma is_digit_not [simp]:
  "\<not> is_digit CHR ''_''" "\<not> is_digit CHR ''-''" "\<not> is_digit CHR ''+''" "\<not> is_digit CHR ''.''"
  by (simp_all add: is_digit_def Let_def)

lemma is_digit_not_space: "is_digit c \<Longrightarrow> \<not> is_space c"
  by (auto simp: is_digit_def is_space_def Let_def)

function show_pos :: "int \<Rightarrow> string" where
  "show_pos n = (if n < 10 then [digit_char n] else show_pos (n div 10) @ [digit_char (n mod 10)])"
  by pat_completeness auto
termination
  by (relation "measure nat") auto

declare show_pos.simps [simp del]

definition show_int :: "int \<Rightarrow> string" where
  "show_int i = (if i < 0 then CHR ''-'' # show_pos (- i) else show_pos i)"

text \<open>
  \<open>int(text)\<close>: surrounding white space, a sign, decimal digits with single underscores
  between them. \<open>None\<close> is the ValueError.
\<close>

fun parse_digits :: "int \<Rightarrow> string \<Rightarrow> int option" where
  "parse_digits acc [] = Some acc"
| "parse_digits acc (c # cs) =
     (if is_digit c then parse_digits (10 * acc + digit_value c) cs
      else if c = CHR ''_'' then
        (case cs of
           [] \<Rightarrow> None
         | d # ds \<Rightarrow> if is_digit d then parse_digits (10 * acc + digit_value d) ds else None)
      else None)"

definition parse_pos :: "string \<Rightarrow> int option" where
  "parse_pos s = (case s of [] \<Rightarrow> None | c # cs \<Rightarrow> if is_digit c then parse_digits 0 s else None)"

definition py_int :: "string \<Rightarrow> int option" where
  "py_int s =
     (case strip s of
        [] \<Rightarrow> None
      | c # cs \<Rightarrow>
          if c = CHR ''-'' then map_option uminus (parse_pos cs)
          else if c = CHR ''+'' then parse_pos cs
          else parse_pos (c # cs))"

lemma show_pos_digits: "0 \<le> n \<Longrightarrow> c \<in> set (show_pos n) \<Longrightarrow> is_digit c"
proof (induction n rule: show_pos.induct)
  case (1 n)
  then show ?case by (cases "n < 10") (auto simp: show_pos.simps [of n])
qed

lemma show_pos_nonempty [simp]: "show_pos n \<noteq> []"
  by (simp add: show_pos.simps [of n])

lemma parse_digits_snoc:
  assumes "\<forall>c \<in> set s. is_digit c" "is_digit d"
  shows "parse_digits acc (s @ [d]) = map_option (\<lambda>n. 10 * n + digit_value d) (parse_digits acc s)"
  using assms by (induction s arbitrary: acc) auto

lemma parse_digits_show_pos: "0 \<le> n \<Longrightarrow> parse_digits 0 (show_pos n) = Some n"
proof (induction n rule: show_pos.induct)
  case (1 n)
  show ?case
  proof (cases "n < 10")
    case True
    then show ?thesis using "1.prems" by (simp add: show_pos.simps [of n])
  next
    case False
    then have "0 \<le> n div 10" by simp
    then have "\<forall>c \<in> set (show_pos (n div 10)). is_digit c" by (blast intro: show_pos_digits)
    then have "parse_digits 0 (show_pos n) =
        map_option (\<lambda>m. 10 * m + n mod 10) (parse_digits 0 (show_pos (n div 10)))"
      using False by (simp add: show_pos.simps [of n] parse_digits_snoc)
    then show ?thesis using "1" False by simp
  qed
qed

lemma parse_pos_show_pos [simp]: "0 \<le> n \<Longrightarrow> parse_pos (show_pos n) = Some n"
proof -
  assume n: "0 \<le> n"
  obtain c cs where s: "show_pos n = c # cs" by (cases "show_pos n") auto
  then have "is_digit c" using show_pos_digits [OF n, of c] by simp
  with s show ?thesis using parse_digits_show_pos [OF n] by (simp add: parse_pos_def)
qed

lemma strip_id:
  assumes "s \<noteq> []" "\<not> is_space (hd s)" "\<not> is_space (last s)"
  shows "strip s = s"
proof -
  have "dropWhile is_space s = s" using assms by (cases s) auto
  moreover have "dropWhile is_space (rev s) = rev s"
    using assms by (cases s rule: rev_cases) auto
  ultimately show ?thesis by (simp add: strip_def)
qed

lemma show_pos_hd_digit: "0 \<le> n \<Longrightarrow> is_digit (hd (show_pos n))"
  by (rule show_pos_digits, assumption) (rule hd_in_set, simp)

lemma show_pos_last_digit: "0 \<le> n \<Longrightarrow> is_digit (last (show_pos n))"
  by (rule show_pos_digits, assumption) (rule last_in_set, simp)

lemma strip_show_pos: "0 \<le> n \<Longrightarrow> strip (show_pos n) = show_pos n"
  by (rule strip_id) (auto intro!: is_digit_not_space show_pos_hd_digit show_pos_last_digit)

lemma py_int_show_pos [simp]: "0 \<le> n \<Longrightarrow> py_int (show_pos n) = Some n"
proof -
  assume n: "0 \<le> n"
  obtain c cs where s: "show_pos n = c # cs" by (cases "show_pos n") auto
  then have "is_digit c" using show_pos_hd_digit [OF n] by simp
  then have "c \<noteq> CHR ''-''" "c \<noteq> CHR ''+''" by auto
  then show ?thesis
    using s strip_show_pos [OF n] parse_pos_show_pos [OF n] by (simp add: py_int_def)
qed

lemma py_int_show_int [simp]: "py_int (show_int i) = Some i"
proof (cases "i < 0")
  case True
  have "\<not> is_space CHR ''-''" by (simp add: is_space_def Let_def)
  then have "strip (CHR ''-'' # show_pos (- i)) = CHR ''-'' # show_pos (- i)"
    using True by (intro strip_id) (auto intro!: is_digit_not_space show_pos_last_digit)
  then show ?thesis using True by (simp add: py_int_def show_int_def)
next
  case False
  then show ?thesis by (simp add: show_int_def)
qed

lemma show_int_inject: "show_int i = show_int j \<Longrightarrow> i = j"
  by (metis option.inject py_int_show_int)

lemma dash_notin_show_int: "0 \<le> i \<Longrightarrow> CHR ''-'' \<notin> set (show_int i)"
  using show_pos_digits [of i "CHR ''-''"] by (auto simp: show_int_def)

end
