(* ===== verification/Decimals.thy ===== *)
theory Decimals
  imports Prelude
begin

text \<open>
  Arithmetic of Python's \<open>decimal\<close> in its default context: a \<open>Decimal\<close> is the rational
  it denotes, \<open>Decimal(text)\<close> is exact, comparisons are exact, and every arithmetic result
  is rounded to 28 significant digits, half to even. \<open>round_sig\<close> rounds to a number of
  significant digits of any base, so the same definition gives the double a \<open>float(x)\<close> or
  SQLite's \<open>CAST(x AS REAL)\<close> yields (base 2, 53 digits). The exponent limits of both
  formats (999999, and 1023) are left out: no quantity of the program comes near them.

  The lemmas are what the components use: rounding is monotone, odd, keeps signs, is the
  identity on representable numbers and on a fixed-point grid.
\<close>

subsection \<open>The position of the leading digit\<close>

function nlog :: "nat \<Rightarrow> int \<Rightarrow> nat" where
  "nlog b n = (if 2 \<le> b \<and> int b \<le> n then Suc (nlog b (n div int b)) else 0)"
  by pat_completeness auto
termination
proof (relation "measure (\<lambda>(b, n). nat n)", goal_cases)
  case (2 b n)
  then have "0 < n" by linarith
  with 2 have "n div int b < n" by (intro int_div_less_self) auto
  with \<open>0 < n\<close> show ?case by simp
qed simp

declare nlog.simps [simp del]

definition ilog :: "nat \<Rightarrow> rat \<Rightarrow> int" where
  "ilog b x = (if 1 \<le> x then int (nlog b \<lfloor>x\<rfloor>) else - int (nlog b (\<lceil>1 / x\<rceil> - 1)) - 1)"

lemma nlog_bounds:
  assumes "2 \<le> b" "1 \<le> n"
  shows "int b ^ nlog b n \<le> n \<and> n < int b ^ Suc (nlog b n)"
  using assms
proof (induction b n rule: nlog.induct)
  case (1 b n)
  show ?case
  proof (cases "int b \<le> n")
    case True
    have b: "0 < int b" using "1.prems" by simp
    then have d: "1 \<le> n div int b"
      using True zdiv_mono1 [of "int b" n "int b"] by simp
    with True "1" have IH: "int b ^ nlog b (n div int b) \<le> n div int b"
        "n div int b < int b ^ Suc (nlog b (n div int b))"
      by simp_all
    have "int b * int b ^ nlog b (n div int b) \<le> int b * (n div int b)" using IH(1) b by simp
    also have "\<dots> \<le> n"
      using mult_div_mod_eq [of "int b" n] pos_mod_sign [OF b, of n] by linarith
    finally have lo: "int b ^ Suc (nlog b (n div int b)) \<le> n" by simp
    have "int b * (n div int b + 1) \<le> int b * int b ^ Suc (nlog b (n div int b))"
      using IH(2) b by (intro mult_left_mono) simp_all
    then have "n < int b * int b ^ Suc (nlog b (n div int b))"
      using mult_div_mod_eq [of "int b" n] pos_mod_bound [OF b, of n] by (simp only: distrib_left)
    with lo True "1.prems" show ?thesis by (simp add: nlog.simps [of b n])
  next
    case False
    with "1.prems" show ?thesis by (simp add: nlog.simps [of b n])
  qed
qed

lemma ilog_bounds:
  assumes b: "2 \<le> b" and x: "0 < x"
  shows "of_nat b powi ilog b x \<le> x \<and> x < of_nat b powi (ilog b x + 1)"
proof (cases "1 \<le> x")
  case True
  let ?n = "\<lfloor>x\<rfloor>"
  from True have n: "1 \<le> ?n" by simp
  have "(of_int (int b ^ nlog b ?n) :: rat) \<le> of_int ?n"
    using nlog_bounds [OF b n] by (simp only: of_int_le_iff)
  also have "of_int ?n \<le> x" by simp
  finally have lo: "of_nat b ^ nlog b ?n \<le> x" by simp
  have "?n + 1 \<le> int b ^ Suc (nlog b ?n)" using nlog_bounds [OF b n] by simp
  then have "(of_int (?n + 1) :: rat) \<le> of_int (int b ^ Suc (nlog b ?n))" by (simp only: of_int_le_iff)
  moreover have "x < of_int (?n + 1)" by (simp, linarith)
  ultimately have hi: "x < of_nat b ^ Suc (nlog b ?n)" by simp
  from lo hi True show ?thesis
    by (simp add: ilog_def power_int_def nat_add_distrib)
next
  case False
  let ?k = "\<lceil>1 / x\<rceil> - 1"
  have inv: "1 < 1 / x" using False x by (simp add: field_simps)
  then have k: "1 \<le> ?k" by linarith
  have bp: "0 < (of_nat b :: rat)" using b by simp
  have kx: "of_int ?k < 1 / x" by linarith
  have xk: "1 / x \<le> of_int (?k + 1)" by simp
  have "(of_int (int b ^ nlog b ?k) :: rat) \<le> of_int ?k"
    using nlog_bounds [OF b k] by (simp only: of_int_le_iff)
  then have "of_int (int b ^ nlog b ?k) < 1 / x" using kx by linarith
  then have lo: "of_nat b ^ nlog b ?k < 1 / x" by simp
  have "?k + 1 \<le> int b ^ Suc (nlog b ?k)" using nlog_bounds [OF b k] by simp
  then have "(of_int (?k + 1) :: rat) \<le> of_int (int b ^ Suc (nlog b ?k))" by (simp only: of_int_le_iff)
  then have "1 / x \<le> of_int (int b ^ Suc (nlog b ?k))" using xk by linarith
  then have hi: "1 / x \<le> of_nat b ^ Suc (nlog b ?k)" by simp
  have e: "ilog b x = - int (Suc (nlog b ?k))" using False by (simp add: ilog_def)
  have "(of_nat b :: rat) powi ilog b x = 1 / of_nat b ^ Suc (nlog b ?k)"
    by (simp only: e power_int_minus power_int_of_nat inverse_eq_divide)
  moreover have "\<dots> \<le> x" using hi x bp by (simp add: field_simps)
  moreover have "ilog b x + 1 = - int (nlog b ?k)" by (simp add: e)
  moreover have "x < 1 / of_nat b ^ nlog b ?k" using lo x bp by (simp add: field_simps)
  ultimately show ?thesis by (simp add: power_int_minus power_int_of_nat divide_inverse)
qed

lemma powi_le_iff:
  assumes "2 \<le> b" shows "(of_nat b :: rat) powi i \<le> of_nat b powi j \<longleftrightarrow> i \<le> j"
proof -
  have "1 < (of_nat b :: rat)" using assms by simp
  then show ?thesis
    by (metis linorder_not_le power_int_increasing power_int_strict_increasing order.strict_implies_order)
qed

lemma powi_less_iff:
  assumes "2 \<le> b" shows "(of_nat b :: rat) powi i < of_nat b powi j \<longleftrightarrow> i < j"
  using powi_le_iff [OF assms, of j i] by (simp add: linorder_not_le [symmetric])

lemma ilog_unique:
  assumes b: "2 \<le> b" and "0 < x" "x < of_nat b powi j"
  shows "ilog b x < j"
proof -
  have "of_nat b powi ilog b x < (of_nat b :: rat) powi j"
    using ilog_bounds [OF assms(1,2)] assms(3) by linarith
  then show ?thesis using powi_less_iff [OF b] by blast
qed

lemma ilog_mono: "2 \<le> b \<Longrightarrow> 0 < x \<Longrightarrow> x \<le> y \<Longrightarrow> ilog b x \<le> ilog b y"
  using ilog_unique [of b x "ilog b y + 1"] ilog_bounds [of b y] by force

subsection \<open>Rounding to an integer, half to even\<close>

definition rhe :: "rat \<Rightarrow> int" where
  "rhe x =
     (let f = \<lfloor>x\<rfloor>; d = x - of_int f in
      if d < 1 / 2 then f else if 1 / 2 < d then f + 1 else if even f then f else f + 1)"

lemma rhe_of_int [simp]: "rhe (of_int n) = n"
  by (simp add: rhe_def)

lemma rhe_floor: "\<lfloor>x\<rfloor> \<le> rhe x \<and> rhe x \<le> \<lfloor>x\<rfloor> + 1"
  by (simp add: rhe_def Let_def)

lemma rhe_mono: "x \<le> y \<Longrightarrow> rhe x \<le> rhe y"
proof -
  assume xy: "x \<le> y"
  then have f: "\<lfloor>x\<rfloor> \<le> \<lfloor>y\<rfloor>" by (rule floor_mono)
  show ?thesis
  proof (cases "\<lfloor>x\<rfloor> = \<lfloor>y\<rfloor>")
    case True
    with xy show ?thesis by (simp add: rhe_def Let_def)
  next
    case False
    with f rhe_floor [of x] rhe_floor [of y] show ?thesis by linarith
  qed
qed

lemma rhe_uminus: "rhe (- x) = - rhe x"
proof (cases "x = of_int \<lfloor>x\<rfloor>")
  case True
  then have "rhe (- x) = rhe (of_int (- \<lfloor>x\<rfloor>))" by simp
  also have "\<dots> = - rhe (of_int \<lfloor>x\<rfloor>)" by (simp only: rhe_of_int)
  finally show ?thesis using True by simp
next
  case False
  have lt: "of_int \<lfloor>x\<rfloor> < x" using False of_int_floor_le [of x] by linarith
  have "x < of_int \<lfloor>x\<rfloor> + 1" by linarith
  then have f: "\<lfloor>- x\<rfloor> = - \<lfloor>x\<rfloor> - 1" using lt by (simp add: floor_eq_iff)
  then have d: "- x - of_int \<lfloor>- x\<rfloor> = 1 - (x - of_int \<lfloor>x\<rfloor>)" by simp
  have e: "even \<lfloor>- x\<rfloor> \<longleftrightarrow> odd \<lfloor>x\<rfloor>" by (simp add: f)
  let ?d = "x - of_int \<lfloor>x\<rfloor>"
  consider "?d < 1 / 2" | "1 / 2 < ?d" | "?d = 1 / 2" by linarith
  then show ?thesis
  proof cases
    case 1
    then show ?thesis unfolding rhe_def Let_def d e f by simp
  next
    case 2
    then show ?thesis unfolding rhe_def Let_def d e f by simp
  next
    case 3
    then show ?thesis unfolding rhe_def Let_def d e f by (simp add: e)
  qed
qed

subsection \<open>Rounding to significant digits\<close>

definition round_sig :: "nat \<Rightarrow> nat \<Rightarrow> rat \<Rightarrow> rat" where
  "round_sig b p x =
     (if x = 0 then 0
      else let q = (of_nat b :: rat) powi (ilog b \<bar>x\<bar> - int p + 1)
           in of_int (rhe (x / q)) * q)"

definition sig_rep :: "nat \<Rightarrow> nat \<Rightarrow> rat \<Rightarrow> bool" where
  "sig_rep b p x \<longleftrightarrow> (\<exists>m j. \<bar>m\<bar> < int b ^ p \<and> x = of_int m * of_nat b powi j)"

lemma round_sig_0 [simp]: "round_sig b p 0 = 0"
  by (simp add: round_sig_def)

lemma round_sig_uminus: "round_sig b p (- x) = - round_sig b p x"
  by (simp add: round_sig_def Let_def rhe_uminus minus_divide_left [symmetric])

lemma powi_nat_int:
  "0 \<le> i \<Longrightarrow> (of_nat b :: rat) powi i = of_int (int b ^ nat i)"
  by (simp add: power_int_def)

lemma round_sig_id:
  assumes b: "2 \<le> b" and m: "\<bar>m\<bar> < int b ^ p" and x: "x = of_int m * of_nat b powi j"
  shows "round_sig b p x = x"
proof (cases "m = 0")
  case True
  then show ?thesis by (simp add: x)
next
  case False
  have b0: "(of_nat b :: rat) \<noteq> 0" using b by simp
  have bpos: "0 < (of_nat b :: rat)" using b by simp
  have xpos: "0 < \<bar>x\<bar>" using False b0 x by simp
  have "\<bar>x\<bar> = of_int \<bar>m\<bar> * of_nat b powi j"
    using bpos by (simp add: x abs_mult zero_le_power_int)
  also have "\<dots> < of_nat b ^ p * of_nat b powi j"
  proof -
    have "(of_int \<bar>m\<bar> :: rat) < of_int (int b ^ p)" using m by (simp only: of_int_less_iff)
    then show ?thesis using bpos by (simp add: zero_less_power_int)
  qed
  also have "\<dots> = of_nat b powi (int p + j)"
    using b0 by (simp add: power_int_add power_int_of_nat)
  finally have "ilog b \<bar>x\<bar> < int p + j" by (rule ilog_unique [OF b xpos])
  then have j: "0 \<le> j - (ilog b \<bar>x\<bar> - int p + 1)" by simp
  let ?e = "ilog b \<bar>x\<bar> - int p + 1"
  have "x / of_nat b powi ?e = of_int m * of_nat b powi (j - ?e)"
    using b0 by (simp add: x power_int_diff)
  also have "\<dots> = of_int (m * int b ^ nat (j - ?e))" by (simp add: powi_nat_int [OF j])
  finally have i: "x / of_nat b powi ?e = of_int (m * int b ^ nat (j - ?e))" .
  have "of_int (rhe (x / of_nat b powi ?e)) * of_nat b powi ?e = x"
    unfolding i rhe_of_int unfolding i [symmetric] using b0 by simp
  then show ?thesis using xpos by (simp add: round_sig_def Let_def)
qed

lemma round_sig_rep_id: "2 \<le> b \<Longrightarrow> sig_rep b p x \<Longrightarrow> round_sig b p x = x"
  by (auto simp: sig_rep_def intro: round_sig_id)

lemma scaled_bounds:
  assumes b: "2 \<le> b" and p: "1 \<le> p" and x: "0 < x"
  defines "q \<equiv> of_nat b powi (ilog b x - int p + 1)"
  shows "of_nat b ^ (p - 1) \<le> x / q" "x / q < of_nat b ^ p" "0 < q"
proof -
  have b0: "(of_nat b :: rat) \<noteq> 0" using b by simp
  show q: "0 < q" using b by (simp add: q_def zero_less_power_int)
  have lo: "of_nat b powi ilog b x = of_nat b ^ (p - 1) * q"
  proof -
    have "ilog b x = int (p - 1) + (ilog b x - int p + 1)" using p by simp
    then show ?thesis using b0 unfolding q_def
      by (metis power_int_add power_int_of_nat)
  qed
  have hi: "of_nat b powi (ilog b x + 1) = of_nat b ^ p * q"
  proof -
    have "ilog b x + 1 = int p + (ilog b x - int p + 1)" by simp
    then show ?thesis using b0 unfolding q_def
      by (metis power_int_add power_int_of_nat)
  qed
  show "of_nat b ^ (p - 1) \<le> x / q" "x / q < of_nat b ^ p"
    using ilog_bounds [OF b x] q by (simp_all add: lo hi pos_le_divide_eq pos_divide_less_eq)
qed

lemma round_sig_pos_bounds:
  assumes b: "2 \<le> b" and p: "1 \<le> p" and x: "0 < x"
  shows "of_nat b powi ilog b x \<le> round_sig b p x"
    and "round_sig b p x \<le> of_nat b powi (ilog b x + 1)"
proof -
  let ?q = "(of_nat b :: rat) powi (ilog b x - int p + 1)"
  note sb = scaled_bounds [OF assms]
  have b0: "(of_nat b :: rat) \<noteq> 0" using b by simp
  have r: "round_sig b p x = of_int (rhe (x / ?q)) * ?q" using x by (simp add: round_sig_def Let_def)
  have "rhe (of_int (int b ^ (p - 1))) \<le> rhe (x / ?q)" using sb(1) by (intro rhe_mono) simp
  then have "int b ^ (p - 1) \<le> rhe (x / ?q)" by (simp only: rhe_of_int)
  then have "(of_int (int b ^ (p - 1)) :: rat) \<le> of_int (rhe (x / ?q))" by (simp only: of_int_le_iff)
  then have "of_nat b ^ (p - 1) * ?q \<le> round_sig b p x"
    unfolding r using sb(3) by simp
  moreover have "of_nat b ^ (p - 1) * ?q = of_nat b powi ilog b x"
  proof -
    have "ilog b x = int (p - 1) + (ilog b x - int p + 1)" using p by simp
    then show ?thesis using b0 by (metis power_int_add power_int_of_nat)
  qed
  ultimately show "of_nat b powi ilog b x \<le> round_sig b p x" by simp
  have "rhe (x / ?q) \<le> rhe (of_int (int b ^ p))" using sb(2) by (intro rhe_mono) simp
  then have "rhe (x / ?q) \<le> int b ^ p" by (simp only: rhe_of_int)
  then have "(of_int (rhe (x / ?q)) :: rat) \<le> of_int (int b ^ p)" by (simp only: of_int_le_iff)
  then have "round_sig b p x \<le> of_nat b ^ p * ?q" unfolding r using sb(3) by simp
  moreover have "of_nat b ^ p * ?q = of_nat b powi (ilog b x + 1)"
  proof -
    have "ilog b x + 1 = int p + (ilog b x - int p + 1)" by simp
    then show ?thesis using b0 by (metis power_int_add power_int_of_nat)
  qed
  ultimately show "round_sig b p x \<le> of_nat b powi (ilog b x + 1)" by simp
qed

lemma round_sig_pos: "2 \<le> b \<Longrightarrow> 1 \<le> p \<Longrightarrow> 0 < x \<Longrightarrow> 0 < round_sig b p x"
  using round_sig_pos_bounds(1) [of b p x] zero_less_power_int [of "of_nat b :: rat" "ilog b x"]
  by (smt (verit) of_nat_0_less_iff zero_less_numeral order_less_le_trans)

lemma round_sig_mono_pos:
  assumes b: "2 \<le> b" and p: "1 \<le> p" and x: "0 < x" and xy: "x \<le> y"
  shows "round_sig b p x \<le> round_sig b p y"
proof (cases "ilog b x = ilog b y")
  case True
  let ?q = "(of_nat b :: rat) powi (ilog b x - int p + 1)"
  have y: "0 < y" using x xy by linarith
  have q: "0 < ?q" by (rule scaled_bounds(3) [OF b p x])
  have "rhe (x / ?q) \<le> rhe (y / ?q)" using xy q by (intro rhe_mono) (simp add: divide_right_mono)
  then have "(of_int (rhe (x / ?q)) :: rat) * ?q \<le> of_int (rhe (y / ?q)) * ?q"
    using q by (intro mult_right_mono) simp_all
  then show ?thesis using x y True by (simp add: round_sig_def Let_def)
next
  case False
  then have "ilog b x + 1 \<le> ilog b y" using ilog_mono [OF b x xy] by simp
  then have "(of_nat b :: rat) powi (ilog b x + 1) \<le> of_nat b powi ilog b y"
    by (simp add: powi_le_iff [OF b])
  moreover have "0 < y" using x xy by linarith
  ultimately show ?thesis
    using round_sig_pos_bounds(2) [OF b p x] round_sig_pos_bounds(1) [OF b p, of y] by linarith
qed

lemma round_sig_neg: "2 \<le> b \<Longrightarrow> 1 \<le> p \<Longrightarrow> x < 0 \<Longrightarrow> round_sig b p x < 0"
  using round_sig_pos [of b p "- x"] by (simp add: round_sig_uminus)

lemma round_sig_mono:
  assumes b: "2 \<le> b" and p: "1 \<le> p" and xy: "x \<le> y"
  shows "round_sig b p x \<le> round_sig b p y"
proof -
  consider "0 < x" | "x = 0" | "x < 0" "0 \<le> y" | "y < 0" using xy by linarith
  then show ?thesis
  proof cases
    case 1
    then show ?thesis using assms by (intro round_sig_mono_pos)
  next
    case 2
    then show ?thesis using xy round_sig_pos [OF b p, of y] by (cases "y = 0") auto
  next
    case 3
    then show ?thesis using round_sig_neg [OF b p, of x] round_sig_pos [OF b p, of y]
      by (cases "y = 0") auto
  next
    case 4
    then have "round_sig b p (- y) \<le> round_sig b p (- x)"
      using xy by (intro round_sig_mono_pos [OF b p]) auto
    then show ?thesis by (simp add: round_sig_uminus)
  qed
qed


lemma round_sig_rep:
  assumes b: "2 \<le> b" and p: "1 \<le> p"
  shows "sig_rep b p (round_sig b p x)"
proof -
  have pos: "sig_rep b p (round_sig b p y)" if y: "0 < y" for y
  proof -
    let ?e = "ilog b y - int p + 1"
    have b0: "(of_nat b :: rat) \<noteq> 0" using b by simp
    have r: "round_sig b p y = of_int (rhe (y / of_nat b powi ?e)) * of_nat b powi ?e"
      using y by (simp add: round_sig_def Let_def)
    have "rhe (y / of_nat b powi ?e) \<le> rhe (of_int (int b ^ p))"
      using scaled_bounds(2) [OF b p y] by (intro rhe_mono) simp
    then have hi: "rhe (y / of_nat b powi ?e) \<le> int b ^ p" by (simp only: rhe_of_int)
    have "rhe (of_int 0) \<le> rhe (y / of_nat b powi ?e)"
      using y scaled_bounds(3) [OF b p y] by (intro rhe_mono) simp
    then have lo: "0 \<le> rhe (y / of_nat b powi ?e)" by (simp only: rhe_of_int)
    show ?thesis
    proof (cases "rhe (y / of_nat b powi ?e) = int b ^ p")
      case True
      have "round_sig b p y = of_int (int b ^ p) * of_nat b powi ?e" by (simp only: r True)
      also have "\<dots> = of_int 1 * of_nat b powi (int p + ?e)"
        using power_int_add [of "of_nat b :: rat" "int p" ?e] b0 by (simp add: power_int_of_nat)
      finally have "round_sig b p y = of_int 1 * of_nat b powi (int p + ?e)" .
      moreover have "\<bar>1\<bar> < int b ^ p" using b p by (simp add: one_less_power)
      ultimately show ?thesis unfolding sig_rep_def by blast
    next
      case False
      with hi lo have "\<bar>rhe (y / of_nat b powi ?e)\<bar> < int b ^ p" by simp
      with r show ?thesis unfolding sig_rep_def by blast
    qed
  qed
  have neg: "sig_rep b p (- y)" if "sig_rep b p y" for y
  proof -
    from that obtain m j where "\<bar>m\<bar> < int b ^ p" "y = of_int m * of_nat b powi j"
      unfolding sig_rep_def by blast
    then have "\<bar>- m\<bar> < int b ^ p" "- y = of_int (- m) * of_nat b powi j" by simp_all
    then show ?thesis unfolding sig_rep_def by blast
  qed
  consider "0 < x" | "x = 0" | "0 < - x" by linarith
  then show ?thesis
  proof cases
    case 1
    then show ?thesis by (rule pos)
  next
    case 2
    then show ?thesis using b by (auto simp: sig_rep_def intro: exI [of _ 0])
  next
    case 3
    then show ?thesis using neg [OF pos [of "- x"]] by (simp add: round_sig_uminus)
  qed
qed

subsection \<open>Decimal arithmetic in the default context\<close>

definition dround :: "rat \<Rightarrow> rat" where
  "dround = round_sig 10 28"

definition drep :: "rat \<Rightarrow> bool" where
  "drep = sig_rep 10 28"

definition dadd :: "rat \<Rightarrow> rat \<Rightarrow> rat" where "dadd a b = dround (a + b)"
definition dsub :: "rat \<Rightarrow> rat \<Rightarrow> rat" where "dsub a b = dround (a - b)"
definition dmul :: "rat \<Rightarrow> rat \<Rightarrow> rat" where "dmul a b = dround (a * b)"
definition ddiv :: "rat \<Rightarrow> rat \<Rightarrow> rat" where "ddiv a b = dround (a / b)"

text \<open>\<open>sum(values, Decimal("0"))\<close> adds from the left.\<close>

definition dsum :: "rat list \<Rightarrow> rat" where
  "dsum xs = foldl dadd 0 xs"

text \<open>
  \<open>a % b\<close>: the remainder of the division that truncates towards zero. A zero divisor and a
  quotient of more than 28 digits are InvalidOperation, here \<open>None\<close>.
\<close>

definition dtrunc :: "rat \<Rightarrow> int" where
  "dtrunc x = (if 0 \<le> x then \<lfloor>x\<rfloor> else - \<lfloor>- x\<rfloor>)"

definition dmod :: "rat \<Rightarrow> rat \<Rightarrow> rat option" where
  "dmod a b =
     (if b = 0 \<or> 10 ^ 28 \<le> \<bar>dtrunc (a / b)\<bar> then None
      else Some (dround (a - of_int (dtrunc (a / b)) * b)))"

text \<open>\<open>float(x)\<close> and SQLite's REAL.\<close>

definition to_double :: "rat \<Rightarrow> rat" where
  "to_double = round_sig 2 53"

lemma dround_0 [simp]: "dround 0 = 0"
  by (simp add: dround_def)

lemma dround_mono: "x \<le> y \<Longrightarrow> dround x \<le> dround y"
  by (simp add: dround_def round_sig_mono)

lemma dround_pos [simp]: "0 < dround x \<longleftrightarrow> 0 < x"
proof -
  have "0 < x \<Longrightarrow> 0 < dround x" by (simp add: dround_def round_sig_pos)
  moreover have "x \<le> 0 \<Longrightarrow> dround x \<le> 0" using dround_mono [of x 0] by simp
  ultimately show ?thesis by force
qed

lemma dround_uminus: "dround (- x) = - dround x"
  by (simp add: dround_def round_sig_uminus)

lemma dround_neg [simp]: "dround x < 0 \<longleftrightarrow> x < 0"
  using dround_pos [of "- x"] by (simp add: dround_uminus)

lemma dround_nonneg [simp]: "0 \<le> dround x \<longleftrightarrow> 0 \<le> x"
  using dround_neg [of x] by linarith

lemma dround_nonpos [simp]: "dround x \<le> 0 \<longleftrightarrow> x \<le> 0"
  using dround_pos [of x] by linarith

lemma dround_eq_0 [simp]: "dround x = 0 \<longleftrightarrow> x = 0"
  using dround_pos [of x] dround_neg [of x] by (cases "x = 0") linarith+

lemma dround_drep [simp]: "drep (dround x)"
  by (simp add: drep_def dround_def round_sig_rep)

lemma dround_id: "drep x \<Longrightarrow> dround x = x"
  by (simp add: drep_def dround_def round_sig_rep_id)

lemma dround_idem [simp]: "dround (dround x) = dround x"
  by (simp add: dround_id)

lemma drep_0 [simp]: "drep 0"
  using dround_drep [of 0] by simp

lemma drep_uminus: "drep x \<Longrightarrow> drep (- x)"
  by (metis dround_drep dround_id dround_uminus)

lemma dround_le: "x \<le> y \<Longrightarrow> drep y \<Longrightarrow> dround x \<le> y"
  using dround_mono [of x y] by (simp add: dround_id)

lemma dround_ge: "y \<le> x \<Longrightarrow> drep y \<Longrightarrow> y \<le> dround x"
  using dround_mono [of y x] by (simp add: dround_id)

lemma drep_arith [simp]: "drep (dadd a b)" "drep (dsub a b)" "drep (dmul a b)" "drep (ddiv a b)"
  by (simp_all add: dadd_def dsub_def dmul_def ddiv_def)

lemma dsub_sign [simp]:
  "0 \<le> dsub a b \<longleftrightarrow> b \<le> a" "0 < dsub a b \<longleftrightarrow> b < a" "dsub a b < 0 \<longleftrightarrow> a < b" "dsub a b \<le> 0 \<longleftrightarrow> a \<le> b"
  by (simp_all add: dsub_def)

lemma dsub_0 [simp]: "drep a \<Longrightarrow> dsub a 0 = a"
  by (simp add: dsub_def dround_id)

lemma dadd_0 [simp]: "drep a \<Longrightarrow> dadd 0 a = a" "drep a \<Longrightarrow> dadd a 0 = a"
  by (simp_all add: dadd_def dround_id)

lemma dadd_mono: "a \<le> a' \<Longrightarrow> b \<le> b' \<Longrightarrow> dadd a b \<le> dadd a' b'"
  by (simp add: dadd_def dround_mono add_mono)

lemma dadd_nonneg: "0 \<le> a \<Longrightarrow> 0 \<le> b \<Longrightarrow> 0 \<le> dadd a b"
  by (simp add: dadd_def)

lemma dadd_ge: "drep a \<Longrightarrow> 0 \<le> b \<Longrightarrow> a \<le> dadd a b"
  by (simp add: dadd_def dround_ge)

lemma dsub_mono: "a \<le> a' \<Longrightarrow> b' \<le> b \<Longrightarrow> dsub a b \<le> dsub a' b'"
  by (simp add: dsub_def dround_mono diff_mono)

lemma dsub_le: "drep a \<Longrightarrow> 0 \<le> b \<Longrightarrow> dsub a b \<le> a"
  by (simp add: dsub_def dround_le)

lemma dmul_nonneg: "0 \<le> a \<Longrightarrow> 0 \<le> b \<Longrightarrow> 0 \<le> dmul a b"
  by (simp add: dmul_def)

lemma dmul_mono: "0 \<le> a \<Longrightarrow> b \<le> b' \<Longrightarrow> dmul a b \<le> dmul a b'"
  by (simp add: dmul_def dround_mono mult_left_mono)

subsection \<open>Numbers with a fixed number of decimal places\<close>

definition on_grid :: "nat \<Rightarrow> rat \<Rightarrow> bool" where
  "on_grid k x \<longleftrightarrow> x * 10 ^ k \<in> \<int>"

lemma on_grid_0 [simp]: "on_grid k 0"
  by (simp add: on_grid_def)

lemma on_grid_add: "on_grid k x \<Longrightarrow> on_grid k y \<Longrightarrow> on_grid k (x + y)"
  by (simp add: on_grid_def distrib_right)

lemma on_grid_diff: "on_grid k x \<Longrightarrow> on_grid k y \<Longrightarrow> on_grid k (x - y)"
  by (simp add: on_grid_def left_diff_distrib)

lemma on_grid_uminus: "on_grid k x \<Longrightarrow> on_grid k (- x)"
  by (simp add: on_grid_def)

lemma on_grid_min: "on_grid k x \<Longrightarrow> on_grid k y \<Longrightarrow> on_grid k (min x y)"
  by (simp add: min_def)

lemma on_grid_max: "on_grid k x \<Longrightarrow> on_grid k y \<Longrightarrow> on_grid k (max x y)"
  by (simp add: max_def)

lemma on_grid_of_int [simp]: "on_grid k (of_int n)"
  by (simp add: on_grid_def)

lemma on_grid_sum_list: "(\<And>x. x \<in> set xs \<Longrightarrow> on_grid k x) \<Longrightarrow> on_grid k (sum_list xs)"
  by (induction xs) (auto intro: on_grid_add)

lemma on_grid_drep:
  assumes g: "on_grid k x" and k: "k \<le> 28" and x: "\<bar>x\<bar> < 10 ^ (28 - k)"
  shows "drep x"
proof -
  from g obtain m where m: "x * 10 ^ k = of_int m" by (auto simp: on_grid_def Ints_def)
  have "of_int \<bar>m\<bar> = \<bar>x\<bar> * 10 ^ k" by (simp add: m [symmetric] abs_mult)
  also have "\<dots> < 10 ^ (28 - k) * 10 ^ k" using x by simp
  also have "\<dots> = of_int (10 ^ 28)" using k by (simp add: power_add [symmetric])
  finally have "\<bar>m\<bar> < int 10 ^ 28" by (simp only: of_int_less_iff) simp
  moreover have "x = of_int m * of_nat 10 powi (- int k)"
    using m by (simp add: power_int_minus power_int_of_nat field_simps)
  ultimately show ?thesis unfolding drep_def sig_rep_def by blast
qed

lemma dround_grid:
  "on_grid k x \<Longrightarrow> k \<le> 28 \<Longrightarrow> \<bar>x\<bar> < 10 ^ (28 - k) \<Longrightarrow> dround x = x"
  by (simp add: dround_id on_grid_drep)

text \<open>
  On a grid, a sum of non-negative numbers is exact as long as it stays below the grid's
  range, and a sum whose rounded value is in range was exact all along.
\<close>

lemma dsum_snoc: "dsum (xs @ [x]) = dadd (dsum xs) x"
  by (simp add: dsum_def)

lemma dsum_Nil [simp]: "dsum [] = 0"
  by (simp add: dsum_def)

lemma dsum_drep [simp]: "drep (dsum xs)"
  by (induction xs rule: rev_induct) (simp_all add: dsum_snoc)

lemma dsum_nonneg: "(\<And>x. x \<in> set xs \<Longrightarrow> 0 \<le> x) \<Longrightarrow> 0 \<le> dsum xs"
  by (induction xs rule: rev_induct) (auto simp: dsum_snoc intro: dadd_nonneg)

lemma dsum_grid:
  assumes g: "\<And>x. x \<in> set xs \<Longrightarrow> on_grid k x" and nn: "\<And>x. x \<in> set xs \<Longrightarrow> 0 \<le> x"
    and k: "k \<le> 28" and s: "sum_list xs < 10 ^ (28 - k)"
  shows "dsum xs = sum_list xs"
  using assms
proof (induction xs rule: rev_induct)
  case (snoc x xs)
  have x: "0 \<le> x" "0 \<le> sum_list xs" using snoc.prems(2) by (auto intro: sum_list_nonneg)
  have "sum_list xs \<le> sum_list (xs @ [x])" using x by simp
  also have "\<dots> < 10 ^ (28 - k)" by (rule snoc.prems(4))
  finally have "sum_list xs < 10 ^ (28 - k)" .
  with snoc have IH: "dsum xs = sum_list xs" by simp
  have "on_grid k (sum_list xs + x)"
    using snoc.prems(1) by (auto intro!: on_grid_add on_grid_sum_list)
  then show ?case
    using x snoc.prems(4) k by (simp add: dsum_snoc IH dadd_def dround_grid)
qed simp

lemma dsum_grid_le:
  assumes g: "\<And>x. x \<in> set xs \<Longrightarrow> on_grid k x" and nn: "\<And>x. x \<in> set xs \<Longrightarrow> 0 \<le> x"
    and k: "k \<le> 27" and s: "dsum xs < 10 ^ (27 - k)"
  shows "dsum xs = sum_list xs"
  using assms
proof (induction xs rule: rev_induct)
  case (snoc x xs)
  have x: "0 \<le> x" using snoc.prems(2) by simp
  have "dsum xs \<le> dsum (xs @ [x])" using x by (simp add: dsum_snoc dadd_ge)
  with snoc.prems(4) have "dsum xs < 10 ^ (27 - k)" by linarith
  with snoc have IH: "dsum xs = sum_list xs" by simp
  have gr: "on_grid k (sum_list xs + x)"
    using snoc.prems(1) by (auto intro!: on_grid_add on_grid_sum_list)
  have nn: "0 \<le> sum_list xs + x" using snoc.prems(2) x by (auto intro!: add_nonneg_nonneg sum_list_nonneg)
  have pow: "(10 :: rat) ^ (27 - k) \<le> 10 ^ (28 - k)" by (rule power_increasing) auto
  have t: "on_grid k ((10 :: rat) ^ (27 - k))" by (simp add: on_grid_def)
  have d: "drep ((10 :: rat) ^ (27 - k))"
  proof (rule on_grid_drep [OF t])
    show "k \<le> 28" using k by simp
    have "(10 :: rat) ^ (27 - k) < 10 ^ Suc (27 - k)" by (rule power_strict_increasing) auto
    then show "\<bar>(10 :: rat) ^ (27 - k)\<bar> < 10 ^ (28 - k)" using k by (simp add: Suc_diff_le [symmetric])
  qed
  have "sum_list xs + x < 10 ^ (27 - k)"
  proof (rule ccontr)
    assume "\<not> ?thesis"
    then have "10 ^ (27 - k) \<le> dround (sum_list xs + x)" using d by (intro dround_ge) auto
    then show False using snoc.prems(4) by (simp add: dsum_snoc IH dadd_def)
  qed
  with pow have "sum_list xs + x < 10 ^ (28 - k)" by linarith
  with gr nn k have "dround (sum_list xs + x) = sum_list xs + x"
    by (intro dround_grid) auto
  then show ?case by (simp add: dsum_snoc IH dadd_def)
qed simp

lemma dmod_0_iff:
  assumes "0 \<le> a" "0 < b" "a / b < 10 ^ 28"
  shows "dmod a b = Some 0 \<longleftrightarrow> (\<exists>n::int. a = of_int n * b)"
proof -
  have t: "dtrunc (a / b) = \<lfloor>a / b\<rfloor>" using assms by (simp add: dtrunc_def)
  have f0: "0 \<le> \<lfloor>a / b\<rfloor>" using assms by simp
  have "of_int \<lfloor>a / b\<rfloor> < (of_int (10 ^ 28) :: rat)" using assms(3) of_int_floor_le [of "a / b"] by simp
  then have f1: "\<lfloor>a / b\<rfloor> < 10 ^ 28" by (simp only: of_int_less_iff)
  have "dmod a b = Some 0 \<longleftrightarrow> a = of_int \<lfloor>a / b\<rfloor> * b"
    using assms f0 f1 by (auto simp: dmod_def t)
  also have "\<dots> \<longleftrightarrow> (\<exists>n::int. a = of_int n * b)" using assms by auto
  finally show ?thesis .
qed


subsection \<open>Evaluating decimal arithmetic on numerals\<close>

text \<open>
  Numerals with at most 14 decimal places and below \<open>10 ^ 14\<close> are representable: with
  \<open>dec_eval\<close> the simplifier computes with them without running the rounding.
\<close>

named_theorems dec_eval \<open>decimal arithmetic on numerals\<close>

lemma dround_frac:
  assumes "b dvd 10 ^ 14" "0 < b" "\<bar>a\<bar> < b * 10 ^ 14"
  shows "dround (of_int a / of_int b) = of_int a / of_int b"
proof (rule dround_grid)
  from assms(1) obtain c where c: "10 ^ 14 = b * c" by (rule dvdE)
  have "(of_int a / of_int b :: rat) * of_int (10 ^ 14) = of_int (a * c)"
    using assms(2) by (simp only: c of_int_mult) simp
  then show "on_grid 14 (of_int a / of_int b)" by (simp add: on_grid_def)
  have "(of_int \<bar>a\<bar> :: rat) < of_int (b * 10 ^ 14)" using assms(3) by (simp only: of_int_less_iff)
  then show "\<bar>of_int a / of_int b :: rat\<bar> < 10 ^ (28 - 14)"
    using assms(2) by (simp add: abs_divide pos_divide_less_eq mult.commute)
qed simp

lemma dround_numeral_frac [dec_eval]:
  assumes "(numeral b :: int) dvd 10 ^ 14" "(numeral a :: int) < numeral b * 10 ^ 14"
  shows "dround (numeral a / numeral b) = numeral a / numeral b"
  by (rule dround_frac [of "numeral b" "numeral a", unfolded of_int_numeral abs_numeral,
        OF assms(1) zero_less_numeral assms(2)])

lemma dround_one_frac [dec_eval]:
  assumes "(numeral b :: int) dvd 10 ^ 14"
  shows "dround (1 / numeral b) = 1 / numeral b"
proof -
  have "(1 :: int) * 10 ^ 14 \<le> numeral b * 10 ^ 14"
    by (rule mult_right_mono [OF one_le_numeral]) simp
  moreover have "(1 :: int) < 1 * 10 ^ 14" by simp
  ultimately have "(1 :: int) < numeral b * 10 ^ 14" by (rule less_le_trans [rotated])
  then show ?thesis
    by (rule dround_frac [of "numeral b" 1, unfolded of_int_numeral of_int_1 abs_one,
          OF assms zero_less_numeral])
qed

lemma dround_numeral [dec_eval]: "(numeral a :: int) < 10 ^ 14 \<Longrightarrow> dround (numeral a) = numeral a"
  by (rule dround_frac [of 1 "numeral a", unfolded of_int_numeral of_int_1 abs_numeral div_by_1
        mult_1, OF one_dvd zero_less_one])

lemma dround_1 [dec_eval]: "dround 1 = 1"
  using dround_frac [of 1 1] by simp

lemmas dround_minus [dec_eval] = dround_uminus
lemmas dec_ops [dec_eval] = dadd_def dsub_def dmul_def ddiv_def

lemma dsum_Cons_eval [dec_eval]: "dsum (x # xs) = foldl dadd (dadd 0 x) xs"
  by (simp add: dsum_def)

end
