(* ===== verification/Py_Values.thy ===== *)
theory Py_Values
  imports Prelude Decimals
begin

text \<open>
  The dynamic values the program receives and the exceptions it raises.
  \<open>json\<close> is what \<open>json.loads\<close> and the venue's client return: a float is carried as the
  text \<open>str\<close> gives for it, because the program only ever reads a float through
  \<open>Decimal(str(value))\<close>. \<open>exn\<close> has one constructor per exception class the program
  raises or tells apart; a computation that may raise has type \<open>exn + 'a\<close>.
  Texts that \<open>Decimal\<close> reads as NaN or an infinity are treated like texts it cannot read.
\<close>

subsection \<open>Decimal literals\<close>

definition digits_value :: "string \<Rightarrow> int" where
  "digits_value s = foldl (\<lambda>a c. 10 * a + digit_value c) 0 s"

definition parse_exponent :: "string \<Rightarrow> int option" where
  "parse_exponent s =
     (case s of
        [] \<Rightarrow> Some 0
      | c # cs \<Rightarrow>
          if c \<noteq> CHR ''e'' \<and> c \<noteq> CHR ''E'' then None
          else let neg = (cs \<noteq> [] \<and> hd cs = CHR ''-'');
                   ds = (if cs \<noteq> [] \<and> (hd cs = CHR ''-'' \<or> hd cs = CHR ''+'') then tl cs else cs)
               in if ds = [] \<or> \<not> list_all is_digit ds then None
                  else Some (if neg then - digits_value ds else digits_value ds))"

definition py_decimal :: "string \<Rightarrow> rat option" where
  "py_decimal text =
     (let s = filter (\<lambda>c. c \<noteq> CHR ''_'') (strip text);
          neg = (s \<noteq> [] \<and> hd s = CHR ''-'');
          body = (if s \<noteq> [] \<and> (hd s = CHR ''-'' \<or> hd s = CHR ''+'') then tl s else s);
          ip = takeWhile is_digit body;
          r = dropWhile is_digit body;
          dot = (r \<noteq> [] \<and> hd r = CHR ''.'');
          fp = (if dot then takeWhile is_digit (tl r) else []);
          r' = (if dot then dropWhile is_digit (tl r) else r)
      in if ip = [] \<and> fp = [] then None
         else case parse_exponent r' of
                None \<Rightarrow> None
              | Some e \<Rightarrow>
                  let v = of_int (digits_value (ip @ fp)) * 10 powi (e - int (length fp))
                  in Some (if neg then - v else v))"

subsection \<open>JSON values\<close>

datatype json =
    JNull
  | JBool bool
  | JInt int
  | JReal string
  | JStr string
  | JArr "json list"
  | JObj "(string \<times> json) list"

type_synonym payload = "(string \<times> json) list"

fun is_dict :: "json \<Rightarrow> bool" where
  "is_dict (JObj _) = True"
| "is_dict _ = False"

fun as_dict :: "json \<Rightarrow> payload" where
  "as_dict (JObj kv) = kv"
| "as_dict _ = []"

text \<open>\<open>d.get(key)\<close>: \<open>None\<close> where the key is missing.\<close>

definition pget :: "string \<Rightarrow> payload \<Rightarrow> json" where
  "pget k d = (case map_of d k of None \<Rightarrow> JNull | Some v \<Rightarrow> v)"

fun truthy :: "json \<Rightarrow> bool" where
  "truthy JNull = False"
| "truthy (JBool b) = b"
| "truthy (JInt i) = (i \<noteq> 0)"
| "truthy (JReal t) = (py_decimal t \<noteq> Some 0)"
| "truthy (JStr s) = (s \<noteq> [])"
| "truthy (JArr xs) = (xs \<noteq> [])"
| "truthy (JObj kv) = (kv \<noteq> [])"

text \<open>\<open>a or b\<close>.\<close>

definition por :: "json \<Rightarrow> json \<Rightarrow> json" where
  "por a b = (if truthy a then a else b)"

definition hex_digit :: "int \<Rightarrow> char" where
  "hex_digit d = (if d < 10 then char_of (d + 48) else char_of (d + 87))"

definition repr_char :: "char \<Rightarrow> char \<Rightarrow> string" where
  "repr_char q c =
     (let n = (of_char c :: int) in
      if c = q \<or> n = 92 then [char_of (92::int), c]
      else if n = 10 then [char_of (92::int), CHR ''n'']
      else if n = 13 then [char_of (92::int), CHR ''r'']
      else if n = 9 then [char_of (92::int), CHR ''t'']
      else if n < 32 \<or> n = 127 then [char_of (92::int), CHR ''x'', hex_digit (n div 16), hex_digit (n mod 16)]
      else [c])"

definition quote_char :: "string \<Rightarrow> char" where
  "quote_char s =
     (if char_of (39::int) \<in> set s \<and> char_of (34::int) \<notin> set s then char_of (34::int)
      else char_of (39::int))"

definition repr_str :: "string \<Rightarrow> string" where
  "repr_str s = (let q = quote_char s in [q] @ concat (map (repr_char q) s) @ [q])"

fun py_repr :: "json \<Rightarrow> string" where
  "py_repr JNull = ''None''"
| "py_repr (JBool b) = (if b then ''True'' else ''False'')"
| "py_repr (JInt i) = show_int i"
| "py_repr (JReal t) = t"
| "py_repr (JStr s) = repr_str s"
| "py_repr (JArr xs) = ''['' @ join '', '' (map py_repr xs) @ '']''"
| "py_repr (JObj kv) =
     ''{'' @ join '', '' (map (\<lambda>(k, v). repr_str k @ '': '' @ py_repr v) kv) @ ''}''"

definition py_str :: "json \<Rightarrow> string" where
  "py_str v = (case v of JStr s \<Rightarrow> s | _ \<Rightarrow> py_repr v)"

lemma py_str_JStr [simp]: "py_str (JStr s) = s"
  by (simp add: py_str_def)

lemma pget_Nil [simp]: "pget k [] = JNull"
  by (simp add: pget_def)

lemma pget_Cons: "pget k ((k', v) # d) = (if k = k' then v else pget k d)"
  by (simp add: pget_def)

lemma por_truthy [simp]: "truthy a \<Longrightarrow> por a b = a"
  by (simp add: por_def)

lemma por_falsy [simp]: "\<not> truthy a \<Longrightarrow> por a b = b"
  by (simp add: por_def)

lemma truthy_por: "truthy (por a b) \<longleftrightarrow> truthy a \<or> truthy b"
  by (simp add: por_def)

subsection \<open>Exceptions\<close>

datatype exn =
    ValueError string
  | TypeError string
  | KeyError string
  | IndexError string
  | RuntimeError string
  | InvalidOperation
  | IntegrityError string
  | AmbiguousPlacement string bool int
  | PolyApi "int option" json
  | SigningNotReady string
  | KnockerError string
  | ResolutionPending string
  | ArgumentTypeError string
  | SystemExit string
  | Raised string string

abbreviation Raise :: "exn \<Rightarrow> exn + 'a" where "Raise \<equiv> Inl"
abbreviation Return :: "'a \<Rightarrow> exn + 'a" where "Return \<equiv> Inr"

definition status_text :: "int option \<Rightarrow> string" where
  "status_text st = (case st of None \<Rightarrow> ''None'' | Some i \<Rightarrow> show_int i)"

text \<open>The client's \<open>PolyApiException\<close> prints its status and its message.\<close>

definition exception_text :: "int option \<Rightarrow> json \<Rightarrow> string" where
  "exception_text st msg =
     ''PolyApiException[status_code='' @ status_text st @ '', error_message='' @ py_str msg @ '']''"

fun exn_class :: "exn \<Rightarrow> string" where
  "exn_class (ValueError _) = ''ValueError''"
| "exn_class (TypeError _) = ''TypeError''"
| "exn_class (KeyError _) = ''KeyError''"
| "exn_class (IndexError _) = ''IndexError''"
| "exn_class (RuntimeError _) = ''RuntimeError''"
| "exn_class InvalidOperation = ''InvalidOperation''"
| "exn_class (IntegrityError _) = ''IntegrityError''"
| "exn_class (AmbiguousPlacement _ _ _) = ''AmbiguousPlacementError''"
| "exn_class (PolyApi _ _) = ''PolyApiException''"
| "exn_class (SigningNotReady _) = ''_SigningNotReady''"
| "exn_class (KnockerError _) = ''KnockerError''"
| "exn_class (ResolutionPending _) = ''ResolutionPending''"
| "exn_class (ArgumentTypeError _) = ''ArgumentTypeError''"
| "exn_class (SystemExit _) = ''SystemExit''"
| "exn_class (Raised c _) = c"

fun exn_str :: "exn \<Rightarrow> string" where
  "exn_str (ValueError m) = m"
| "exn_str (TypeError m) = m"
| "exn_str (KeyError m) = m"
| "exn_str (IndexError m) = m"
| "exn_str (RuntimeError m) = m"
| "exn_str InvalidOperation = ''[<class 'decimal.ConversionSyntax'>]''"
| "exn_str (IntegrityError m) = m"
| "exn_str (AmbiguousPlacement m _ _) = m"
| "exn_str (PolyApi st msg) = exception_text st msg"
| "exn_str (SigningNotReady m) = m"
| "exn_str (KnockerError m) = m"
| "exn_str (ResolutionPending m) = m"
| "exn_str (ArgumentTypeError m) = m"
| "exn_str (SystemExit m) = m"
| "exn_str (Raised _ m) = m"

text \<open>\<open>f"{type(exc).__name__}: {exc}"\<close>.\<close>

definition exn_text :: "exn \<Rightarrow> string" where
  "exn_text e = exn_class e @ '': '' @ exn_str e"

definition rbind :: "exn + 'a \<Rightarrow> ('a \<Rightarrow> exn + 'b) \<Rightarrow> exn + 'b" where
  "rbind r f = (case r of Inl e \<Rightarrow> Inl e | Inr x \<Rightarrow> f x)"

lemma rbind_simps [simp]: "rbind (Inl e) f = Inl e" "rbind (Inr x) f = f x"
  by (simp_all add: rbind_def)

lemma rbind_Inr_iff: "rbind r f = Inr y \<longleftrightarrow> (\<exists>x. r = Inr x \<and> f x = Inr y)"
  by (cases r) auto

lemma rbind_Inl_iff: "rbind r f = Inl e \<longleftrightarrow> r = Inl e \<or> (\<exists>x. r = Inr x \<and> f x = Inl e)"
  by (cases r) auto

text \<open>The results of a loop that evaluates each element and stops at the first exception.\<close>

fun rtraverse :: "('a \<Rightarrow> exn + 'b) \<Rightarrow> 'a list \<Rightarrow> exn + 'b list" where
  "rtraverse f [] = Inr []"
| "rtraverse f (x # xs) = rbind (f x) (\<lambda>y. rbind (rtraverse f xs) (\<lambda>ys. Inr (y # ys)))"

lemma rtraverse_Inr_iff: "rtraverse f xs = Inr ys \<longleftrightarrow> list_all2 (\<lambda>x y. f x = Inr y) xs ys"
  by (induction xs arbitrary: ys) (auto simp: rbind_Inr_iff list_all2_Cons1)

lemma rtraverse_length: "rtraverse f xs = Inr ys \<Longrightarrow> length ys = length xs"
  by (simp add: rtraverse_Inr_iff list_all2_lengthD)

text \<open>\<open>Decimal(str(value))\<close>.\<close>

definition dec_of :: "json \<Rightarrow> exn + rat" where
  "dec_of v = (case py_decimal (py_str v) of None \<Rightarrow> Raise InvalidOperation | Some d \<Rightarrow> Return d)"

text \<open>The elements a \<open>for\<close> over a value yields; \<open>d.get(key, [])\<close> with a default list.\<close>

definition py_iter :: "json \<Rightarrow> exn + json list" where
  "py_iter v =
     (case v of
        JArr xs \<Rightarrow> Return xs
      | JObj kv \<Rightarrow> Return (map (JStr \<circ> fst) kv)
      | JStr s \<Rightarrow> Return (map (\<lambda>c. JStr [c]) s)
      | _ \<Rightarrow> Raise (TypeError ''object is not iterable''))"

definition pget_list :: "string \<Rightarrow> payload \<Rightarrow> json" where
  "pget_list k d = (case map_of d k of None \<Rightarrow> JArr [] | Some v \<Rightarrow> v)"

lemma digits_value_snoc: "digits_value (s @ [c]) = 10 * digits_value s + digit_value c"
  by (simp add: digits_value_def)

lemma digits_value_show_pos [simp]: "0 \<le> n \<Longrightarrow> digits_value (show_pos n) = n"
proof (induction n rule: show_pos.induct)
  case (1 n)
  show ?case
  proof (cases "n < 10")
    case True
    then show ?thesis using "1.prems" by (simp add: show_pos.simps [of n] digits_value_def)
  next
    case False
    with "1" show ?thesis by (simp add: show_pos.simps [of n] digits_value_snoc)
  qed
qed

end
