(* ===== verification/Json_Text.thy ===== *)
theory Json_Text
  imports Py_Values
begin

text \<open>
  \<open>json.loads\<close> as far as the program uses it: a recursive-descent reader of JSON text
  into \<open>json\<close>. \<open>None\<close> is the JSONDecodeError. A number with a fraction or an exponent
  keeps its text: for literals of at most 15 significant digits \<open>str(float(text))\<close> denotes
  the same decimal. Duplicate object keys keep the last value in the first key's place, as
  Python's dict does. A string is the bytes of its UTF-8 text; a lone surrogate, which Python keeps
  and no encoder writes, takes three bytes like any code point of its size. The reader spends one unit of fuel per call; \<open>jval_mono\<close> says that
  more fuel never changes a result, and \<open>loads\<close> gives two units per character, one for
  the value and one for the list or object it stands in.
\<close>

definition skip_ws :: "string \<Rightarrow> string" where
  "skip_ws s = dropWhile (\<lambda>c. (of_char c :: int) \<in> {9, 10, 13, 32}) s"

definition hex4 :: "string \<Rightarrow> int option" where
  "hex4 ds =
     (if length ds = 4 \<and> list_all (\<lambda>c. hex_value c \<noteq> None) ds
      then Some (foldl (\<lambda>a c. 16 * a + (case hex_value c of Some v \<Rightarrow> v | None \<Rightarrow> 0)) 0 ds) else None)"

definition utf8 :: "int \<Rightarrow> string" where
  "utf8 n =
     (if n < 128 then [char_of n]
      else if n < 2048 then [char_of (192 + n div 64), char_of (128 + n mod 64)]
      else if n < 65536 then
        [char_of (224 + n div 4096), char_of (128 + (n div 64) mod 64), char_of (128 + n mod 64)]
      else [char_of (240 + n div 262144), char_of (128 + (n div 4096) mod 64),
        char_of (128 + (n div 64) mod 64), char_of (128 + n mod 64)])"

definition simple_escape :: "char \<Rightarrow> char option" where
  "simple_escape c =
     (let n = (of_char c :: int) in
      if n = 34 \<or> n = 92 \<or> n = 47 then Some c
      else if n = 98 then Some (char_of (8::int))
      else if n = 102 then Some (char_of (12::int))
      else if n = 110 then Some (char_of (10::int))
      else if n = 114 then Some (char_of (13::int))
      else if n = 116 then Some (char_of (9::int)) else None)"

text \<open>
  The second half of a surrogate pair, where the text goes on with its escape. A half without its
  partner stays a code point of its own.
\<close>

definition low_half :: "string \<Rightarrow> int option" where
  "low_half s =
     (if startswith s [CHR 0x5C, CHR ''u''] then
        (case hex4 (take 4 (drop 2 s)) of
           None \<Rightarrow> None | Some v \<Rightarrow> if 56320 \<le> v \<and> v \<le> 57343 then Some v else None)
      else None)"

definition join_halves :: "int \<Rightarrow> int \<Rightarrow> int" where
  "join_halves high low = 65536 + (high - 55296) * 1024 + (low - 56320)"

fun jstr :: "string \<Rightarrow> (string \<times> string) option" where
  "jstr [] = None"
| "jstr (c # s) =
     (let n = (of_char c :: int) in
      if n = 34 then Some ([], s)
      else if n < 32 then None
      else if n = 92 then
        (case s of
           [] \<Rightarrow> None
         | e # s' \<Rightarrow>
             if (of_char e :: int) = 117 then
               (case hex4 (take 4 s') of
                  None \<Rightarrow> None
                | Some v \<Rightarrow>
                    (case if 55296 \<le> v \<and> v \<le> 56319 then low_half (drop 4 s') else None of
                       None \<Rightarrow> map_option (\<lambda>(t, u). (utf8 v @ t, u)) (jstr (drop 4 s'))
                     | Some v' \<Rightarrow>
                         map_option (\<lambda>(t, u). (utf8 (join_halves v v') @ t, u)) (jstr (drop 10 s'))))
             else (case simple_escape e of
                     None \<Rightarrow> None
                   | Some d \<Rightarrow> map_option (\<lambda>(t, u). (d # t, u)) (jstr s')))
      else map_option (\<lambda>(t, u). (c # t, u)) (jstr s))"

definition jnum :: "string \<Rightarrow> (json \<times> string) option" where
  "jnum s =
     (let neg = (s \<noteq> [] \<and> hd s = CHR ''-'');
          b = (if neg then tl s else s);
          ip = takeWhile is_digit b; r = dropWhile is_digit b;
          fp = (if r \<noteq> [] \<and> hd r = CHR ''.'' then takeWhile is_digit (tl r) else []);
          r1 = (if fp \<noteq> [] then dropWhile is_digit (tl r) else r);
          ex = (r1 \<noteq> [] \<and> (hd r1 = CHR ''e'' \<or> hd r1 = CHR ''E''));
          sg = (if ex \<and> tl r1 \<noteq> [] \<and> (hd (tl r1) = CHR ''-'' \<or> hd (tl r1) = CHR ''+'')
                then [hd (tl r1)] else []);
          ed = (if ex then takeWhile is_digit (drop (length sg) (tl r1)) else []);
          r2 = (if ed \<noteq> [] then dropWhile is_digit (drop (length sg) (tl r1)) else r1);
          sign = (if neg then ''-'' else [])
      in if ip = [] \<or> (length ip > 1 \<and> hd ip = CHR ''0'') then None
         else if fp = [] \<and> ed = [] then
           Some (JInt (if neg then - digits_value ip else digits_value ip), r2)
         else Some (JReal (sign @ ip @ (if fp = [] then [] else CHR ''.'' # fp)
                     @ (if ed = [] then [] else CHR ''e'' # sg @ ed)), r2))"

definition literal :: "string \<Rightarrow> json \<Rightarrow> string \<Rightarrow> (json \<times> string) option" where
  "literal w v s = (if startswith s w then Some (v, drop (length w) s) else None)"

definition dict_of_pairs :: "('k \<times> 'v) list \<Rightarrow> ('k, 'v) dict" where
  "dict_of_pairs kvs = foldl (\<lambda>d (k, v). dict_set k v d) [] kvs"

fun jval :: "nat \<Rightarrow> string \<Rightarrow> (json \<times> string) option"
  and jarr :: "nat \<Rightarrow> string \<Rightarrow> (json list \<times> string) option"
  and jobj :: "nat \<Rightarrow> string \<Rightarrow> ((string \<times> json) list \<times> string) option" where
  "jval 0 s = None"
| "jval (Suc n) s =
     (case skip_ws s of
        [] \<Rightarrow> None
      | c # r \<Rightarrow>
          if (of_char c :: int) = 34 then map_option (\<lambda>(t, u). (JStr t, u)) (jstr r)
          else if c = CHR ''['' then
            (if startswith (skip_ws r) '']'' then Some (JArr [], tl (skip_ws r))
             else map_option (\<lambda>(xs, u). (JArr xs, u)) (jarr n r))
          else if c = CHR ''{'' then
            (if startswith (skip_ws r) ''}'' then Some (JObj [], tl (skip_ws r))
             else map_option (\<lambda>(kvs, u). (JObj (dict_of_pairs kvs), u)) (jobj n r))
          else if c = CHR ''n'' then literal ''null'' JNull (c # r)
          else if c = CHR ''t'' then literal ''true'' (JBool True) (c # r)
          else if c = CHR ''f'' then literal ''false'' (JBool False) (c # r)
          else jnum (c # r))"
| "jarr 0 s = None"
| "jarr (Suc n) s =
     (case jval n s of
        None \<Rightarrow> None
      | Some (v, u) \<Rightarrow>
          (case skip_ws u of
             [] \<Rightarrow> None
           | c # r \<Rightarrow>
               if c = CHR '']'' then Some ([v], r)
               else if c = CHR '','' then map_option (\<lambda>(vs, w). (v # vs, w)) (jarr n r)
               else None))"
| "jobj 0 s = None"
| "jobj (Suc n) s =
     (case skip_ws s of
        [] \<Rightarrow> None
      | c # r \<Rightarrow>
          if (of_char c :: int) \<noteq> 34 then None
          else (case jstr r of
             None \<Rightarrow> None
           | Some (k, u) \<Rightarrow>
               (case skip_ws u of
                  [] \<Rightarrow> None
                | d # r' \<Rightarrow>
                    if d \<noteq> CHR '':'' then None
                    else (case jval n r' of
                       None \<Rightarrow> None
                     | Some (v, u') \<Rightarrow>
                         (case skip_ws u' of
                            [] \<Rightarrow> None
                          | e # r'' \<Rightarrow>
                              if e = CHR ''}'' then Some ([(k, v)], r'')
                              else if e = CHR '','' then
                                map_option (\<lambda>(kvs, w). ((k, v) # kvs, w)) (jobj n r'')
                              else None)))))"

definition loads :: "string \<Rightarrow> json option" where
  "loads s =
     (case jval (2 * length s + 2) s of
        None \<Rightarrow> None
      | Some (v, rest) \<Rightarrow> if skip_ws rest = [] then Some v else None)"

lemma jval_mono:
  "jval n s = Some a \<Longrightarrow> jval (Suc n) s = Some a"
  "jarr n s = Some b \<Longrightarrow> jarr (Suc n) s = Some b"
  "jobj n s = Some c \<Longrightarrow> jobj (Suc n) s = Some c"
proof (induction n arbitrary: s a b c)
  case 0
  { case 1 then show ?case by simp }
  { case 2 then show ?case by simp }
  { case 3 then show ?case by simp }
next
  case (Suc n)
  { case 1
    have A: "map_option f (jarr n r) = Some a \<Longrightarrow> map_option f (jarr (Suc n) r) = Some a" for f r
      using Suc.IH(2) by (cases "jarr n r") auto
    have B: "map_option f (jobj n r) = Some a \<Longrightarrow> map_option f (jobj (Suc n) r) = Some a" for f r
      using Suc.IH(3) by (cases "jobj n r") auto
    from 1 obtain c r where s: "skip_ws s = c # r" by (cases "skip_ws s") auto
    show ?case using 1
      unfolding jval.simps(2) [of n s] jval.simps(2) [of "Suc n" s] s list.case
      by (simp only: split: if_split_asm) (simp_all only: if_True if_False A B simp_thms) }
  { case 2
    have A: "map_option f (jarr n r) = Some b \<Longrightarrow> map_option f (jarr (Suc n) r) = Some b" for f r
      using Suc.IH(2) by (cases "jarr n r") auto
    from 2 obtain v u where v: "jval n s = Some (v, u)" by (auto split: option.splits)
    from 2 v obtain c r where u: "skip_ws u = c # r" by (cases "skip_ws u") auto
    show ?case using 2
      unfolding jarr.simps(2) [of n s] jarr.simps(2) [of "Suc n" s] v Suc.IH(1) [OF v] u
        list.case option.case prod.case
      by (simp only: split: if_split_asm) (simp_all only: if_True if_False A simp_thms) }
  { case 3
    have A: "map_option f (jobj n r) = Some c \<Longrightarrow> map_option f (jobj (Suc n) r) = Some c" for f r
      using Suc.IH(3) by (cases "jobj n r") auto
    from 3 obtain q r where s: "skip_ws s = q # r" by (cases "skip_ws s") auto
    from 3 s obtain k u where k: "jstr r = Some (k, u)" by (auto split: option.splits if_splits)
    from 3 s k obtain d r' where u: "skip_ws u = d # r'" by (cases "skip_ws u") (auto split: if_splits)
    from 3 s k u obtain v u' where v: "jval n r' = Some (v, u')"
      by (auto split: option.splits if_splits)
    from 3 s k u v obtain e r'' where u': "skip_ws u' = e # r''"
      by (cases "skip_ws u'") (auto split: if_splits)
    show ?case using 3
      unfolding jobj.simps(2) [of n s] jobj.simps(2) [of "Suc n" s] s k u v Suc.IH(1) [OF v] u'
        list.case option.case prod.case
      by (simp only: split: if_split_asm) (simp_all only: if_True if_False A simp_thms) }
qed

end
