(* ===== verification/Models.thy ===== *)
theory Models
  imports Py_Values
begin

text \<open>
  The value types of \<open>polymarket_bot/models.py\<close>: the trade plan with its validation, the
  market, a placed order and the result of a placement. A \<open>ValueError\<close> of
  \<open>validate\<close> is the left side of its result; \<open>order_size\<close> divides as Decimal does, and
  is only read after the price has been checked to be positive.
\<close>

subsection \<open>The trade plan\<close>

record exit_target =
  et_price :: rat
  et_fraction :: rat

record trade_plan =
  buy_price :: rat
  exit_targets :: "exit_target list"
  usd_per_side :: rat

definition buy_only :: "trade_plan \<Rightarrow> bool" where
  "buy_only p \<longleftrightarrow> exit_targets p = []"

definition hold_fraction :: "trade_plan \<Rightarrow> rat" where
  "hold_fraction p = dsub 1 (dsum (map et_fraction (exit_targets p)))"

definition order_size :: "trade_plan \<Rightarrow> rat" where
  "order_size p = ddiv (usd_per_side p) (buy_price p)"

definition market_reserve :: "trade_plan \<Rightarrow> rat" where
  "market_reserve p = dmul (usd_per_side p) 2"

definition validate_target :: "trade_plan \<Rightarrow> exit_target \<Rightarrow> exn + unit" where
  "validate_target p t =
     (if \<not> (buy_price p < et_price t \<and> et_price t < 1) then
        Raise (ValueError ''--take-profit prices must be above --buy-price and below 1'')
      else if \<not> (0 < et_fraction t \<and> et_fraction t \<le> 1) then
        Raise (ValueError ''--take-profit fractions must be above 0 and at most 1'')
      else if dmul (order_size p) (et_fraction t) < 5 then
        Raise (ValueError ''each --take-profit rung must contain at least 5 shares'')
      else Return ())"

definition validate_plan :: "trade_plan \<Rightarrow> exn + unit" where
  "validate_plan p =
     (if \<not> (0 < buy_price p \<and> buy_price p < 1) then
        Raise (ValueError ''--buy-price must be between 0 and 1'')
      else if usd_per_side p \<le> 0 then Raise (ValueError ''--usd-per-side must be positive'')
      else if order_size p < 5 then
        Raise (ValueError ''configured entry must be at least 5 shares'')
      else let prices = map et_price (exit_targets p) in
        if prices \<noteq> sort prices \<or> length prices \<noteq> card (set prices) then
          Raise (ValueError ''--take-profit prices must be unique and ascending'')
        else rbind (rtraverse (validate_target p) (exit_targets p)) (\<lambda>_.
          if hold_fraction p < 0 then
            Raise (ValueError ''--take-profit fractions cannot total more than 1'')
          else Return ()))"

subsection \<open>Markets, orders, placements\<close>

record market =
  m_slug :: string
  m_condition_id :: string
  m_start_ts :: int
  m_end_ts :: int
  m_up_token_id :: string
  m_down_token_id :: string
  m_min_size :: rat
  m_tick_size :: rat

record placed_order =
  po_order_id :: string
  po_outcome :: string
  po_token_id :: string
  po_price :: rat
  po_size :: rat
  po_status :: string
  po_raw :: json
  po_side :: string
  po_role :: string
  po_account :: string

record placement_result =
  pr_orders :: "placed_order list"
  pr_error :: "string option"
  pr_retryable :: bool
  pr_attempts :: int
  pr_expected :: nat
  pr_registered_ts_ms :: "int option"
  pr_held_back :: int
  pr_gave_up :: bool

definition example_mkt :: market where
  "example_mkt =
     \<lparr>m_slug = ''btc-updown-5m-1700000100'', m_condition_id = ''0xabc'', m_start_ts = 1700000100,
      m_end_ts = 1700000400, m_up_token_id = ''111'', m_down_token_id = ''222'',
      m_min_size = 5, m_tick_size = 1/100\<rparr>"

definition example_order :: "string \<Rightarrow> string \<Rightarrow> placed_order" where
  "example_order oid outcome =
     \<lparr>po_order_id = oid, po_outcome = outcome,
      po_token_id = (if outcome = ''up'' then ''111'' else ''222''), po_price = 1/2, po_size = 10,
      po_status = ''live'', po_raw = JNull, po_side = ''buy'', po_role = ''entry'', po_account = []\<rparr>"

lemma example_order_simps [simp]:
  "po_order_id (example_order oid out) = oid" "po_price (example_order oid out) = 1/2"
  "po_size (example_order oid out) = 10" "po_status (example_order oid out) = ''live''"
  "po_side (example_order oid out) = ''buy''" "po_role (example_order oid out) = ''entry''"
  "po_outcome (example_order oid out) = out" "po_account (example_order oid out) = []"
  by (simp_all add: example_order_def)

text \<open>\<open>PlacementResult(orders, error)\<close> with the defaults of the other fields.\<close>

definition placement :: "placed_order list \<Rightarrow> string option \<Rightarrow> placement_result" where
  "placement orders error =
     \<lparr>pr_orders = orders, pr_error = error, pr_retryable = False, pr_attempts = 1,
      pr_expected = 2, pr_registered_ts_ms = None, pr_held_back = 0, pr_gave_up = False\<rparr>"

definition complete :: "placement_result \<Rightarrow> bool" where
  "complete r \<longleftrightarrow> pr_error r = None \<and> length (pr_orders r) = pr_expected r"

lemma placement_simps [simp]:
  "pr_orders (placement os e) = os" "pr_error (placement os e) = e"
  "pr_retryable (placement os e) = False" "pr_attempts (placement os e) = 1"
  "pr_expected (placement os e) = 2" "pr_registered_ts_ms (placement os e) = None"
  "pr_held_back (placement os e) = 0" "pr_gave_up (placement os e) = False"
  by (simp_all add: placement_def)

subsection \<open>What a validated plan is\<close>

lemma sort_id_iff: "xs = sort xs \<longleftrightarrow> sorted (xs :: 'a::linorder list)"
  by (metis sorted_sort sorted_sort_id)

lemma strict_sorted_distinct:
  "sorted_wrt (<) (xs :: 'a::linorder list) \<longleftrightarrow> sorted xs \<and> distinct xs"
  by (simp add: strict_sorted_iff)

lemma length_card_set: "length xs = card (set xs) \<longleftrightarrow> distinct xs"
  by (metis card_distinct distinct_card)

definition target_ok :: "trade_plan \<Rightarrow> exit_target \<Rightarrow> bool" where
  "target_ok p t \<longleftrightarrow>
     buy_price p < et_price t \<and> et_price t < 1 \<and> 0 < et_fraction t \<and> et_fraction t \<le> 1 \<and>
     5 \<le> dmul (order_size p) (et_fraction t)"

lemma validate_target_ok [simp]: "validate_target p t = Return u \<longleftrightarrow> target_ok p t"
  by (auto simp: validate_target_def target_ok_def)

lemma rtraverse_validate:
  "(\<exists>us. rtraverse (validate_target p) ts = Return us) \<longleftrightarrow> list_all (target_ok p) ts"
  by (induction ts) (auto simp: rbind_Inr_iff)

text \<open>
  C25. \<open>TradePlan.validate\<close> accepts exactly the plans whose price lies strictly between 0
  and 1, whose stake is positive and buys at least five shares, whose take-profit prices are
  strictly ascending, whose every rung is above the buy price, below 1, holds a fraction in
  (0, 1] and at least five shares, and whose fractions leave a non-negative remainder.
\<close>

theorem validate_plan_iff:
  "validate_plan p = Return () \<longleftrightarrow>
     0 < buy_price p \<and> buy_price p < 1 \<and> 0 < usd_per_side p \<and> 5 \<le> order_size p \<and>
     sorted_wrt (<) (map et_price (exit_targets p)) \<and> list_all (target_ok p) (exit_targets p) \<and>
     0 \<le> hold_fraction p"
proof -
  have "(rbind (rtraverse (validate_target p) (exit_targets p)) (\<lambda>_.
          if hold_fraction p < 0 then Raise e else Return ()) = Return ()) \<longleftrightarrow>
        list_all (target_ok p) (exit_targets p) \<and> 0 \<le> hold_fraction p" for e
    by (auto simp: rbind_Inr_iff simp flip: rtraverse_validate)
  then show ?thesis
    by (auto simp: validate_plan_def Let_def sort_id_iff length_card_set strict_sorted_distinct)
qed

lemma hold_fraction_nonneg: "0 \<le> hold_fraction p \<longleftrightarrow> dsum (map et_fraction (exit_targets p)) \<le> 1"
  by (simp add: hold_fraction_def)

lemma sum_list_scaled: "(\<Sum>t\<leftarrow>ts. m * f t) = m * (\<Sum>t\<leftarrow>ts. f t :: rat)"
  by (simp add: sum_list_const_mult)

text \<open>
  The exit ladder of an accepted plan never asks for more than was bought: when the
  configured fractions have at most 26 decimal places, the exact shares of all rungs
  together are at most the matched entry size, although the plan only checks a sum of
  rounded decimals.
\<close>

theorem validated_ladder_within_matched:
  assumes "validate_plan p = Return ()"
    and "\<forall>t \<in> set (exit_targets p). on_grid 26 (et_fraction t)"
    and "0 \<le> matched"
  shows "(\<Sum>t\<leftarrow>exit_targets p. matched * et_fraction t) \<le> matched"
proof -
  let ?fs = "map et_fraction (exit_targets p)"
  have ok: "list_all (target_ok p) (exit_targets p)" "dsum ?fs \<le> 1"
    using assms(1) by (simp_all add: validate_plan_iff hold_fraction_nonneg)
  have "dsum ?fs = sum_list ?fs"
  proof (rule dsum_grid_le [where k = 26])
    show "on_grid 26 x" if "x \<in> set ?fs" for x using that assms(2) by auto
    show "0 \<le> x" if "x \<in> set ?fs" for x using that ok(1) by (auto simp: list_all_iff target_ok_def)
    show "dsum ?fs < 10 ^ (27 - 26)" using ok(2) by simp
  qed simp
  then have "sum_list ?fs \<le> 1" using ok(2) by simp
  then have "matched * sum_list ?fs \<le> matched * 1" using assms(3) by (rule mult_left_mono)
  then show ?thesis by (simp add: sum_list_scaled)
qed

definition example_plan :: trade_plan where
  "example_plan =
     \<lparr>buy_price = 1/100,
      exit_targets = [\<lparr>et_price = 1/50, et_fraction = 1/2\<rparr>, \<lparr>et_price = 1/10, et_fraction = 1/10\<rparr>,
                      \<lparr>et_price = 3/10, et_fraction = 1/10\<rparr>],
      usd_per_side = 1\<rparr>"

lemma example_plan_valid: "validate_plan example_plan = Return ()"
  by (simp add: validate_plan_iff example_plan_def order_size_def hold_fraction_def target_ok_def
      dec_eval)

theorem validated_ladder_within_matched_witness:
  "validate_plan example_plan = Return () \<and>
   (\<Sum>t\<leftarrow>exit_targets example_plan. 37 * et_fraction t) \<le> 37"
proof -
  have "\<forall>t \<in> set (exit_targets example_plan). on_grid 26 (et_fraction t)"
  proof -
    have "on_grid 26 (1/2)" "on_grid 26 (1/10)"
      using Ints_of_int [of "5 * 10 ^ 25"] Ints_of_int [of "10 ^ 25"] by (simp_all add: on_grid_def)
    then show ?thesis by (simp add: example_plan_def)
  qed
  then show ?thesis
    using validated_ladder_within_matched [OF example_plan_valid, of 37] example_plan_valid by simp
qed

end
