(* ===== verification/Discovery.thy ===== *)
theory Discovery
  imports Models Json_Text
begin

text \<open>
  \<open>polymarket_bot/discovery.py\<close>: reading a Gamma market record into a market, the paged
  query of the event list, the lookup of one market by its slug, and the eligibility test.
  Gamma itself is a parameter: a function from the request to the reply (HTTP status and
  decoded body) or the exception \<open>requests\<close> raises.
\<close>

definition slug_prefix :: string where
  "slug_prefix = ''btc-updown-5m-''"

definition slot_slug :: "int \<Rightarrow> string" where
  "slot_slug ts = slug_prefix @ show_int ts"

subsection \<open>Reading a market record\<close>

text \<open>
  \<open>json.loads(market[key])\<close> for a key that must hold a text with a JSON list: a missing
  key, a value that is not a text and a text that is not JSON are the KeyError, TypeError
  and JSONDecodeError that the caller turns into \<open>None\<close>.
\<close>

definition json_list :: "string \<Rightarrow> payload \<Rightarrow> json list option" where
  "json_list key m =
     (case map_of m key of
        Some (JStr text) \<Rightarrow> (case loads text of Some (JArr xs) \<Rightarrow> Some xs | _ \<Rightarrow> None)
      | _ \<Rightarrow> None)"

text \<open>\<open>dict(zip(outcomes, token_ids, strict=True))[outcome]\<close>: the last pair wins.\<close>

definition zip_lookup :: "json list \<Rightarrow> json list \<Rightarrow> string \<Rightarrow> json option" where
  "zip_lookup ks vs k = (if length ks = length vs then map_of (rev (zip ks vs)) (JStr k) else None)"

definition parse_fields :: "payload \<Rightarrow> string \<Rightarrow> (int \<times> string \<times> string \<times> string) option" where
  "parse_fields m slug =
     (case Option.bind (after_last CHR ''-'' slug) py_int of None \<Rightarrow> None
      | Some start \<Rightarrow>
     (case json_list ''clobTokenIds'' m of None \<Rightarrow> None
      | Some token_ids \<Rightarrow>
     (case json_list ''outcomes'' m of None \<Rightarrow> None
      | Some outcomes \<Rightarrow>
     (if length outcomes \<noteq> length token_ids then None else
     (case map_of m ''conditionId'' of None \<Rightarrow> None
      | Some cond \<Rightarrow>
     (case zip_lookup outcomes token_ids ''Up'' of None \<Rightarrow> None
      | Some up \<Rightarrow>
     (case zip_lookup outcomes token_ids ''Down'' of None \<Rightarrow> None
      | Some down \<Rightarrow> Some (start, py_str cond, py_str up, py_str down))))))))"

text \<open>
  \<open>_parse_market\<close>. The except clause lists KeyError, TypeError and ValueError, so the
  \<open>InvalidOperation\<close> of the two \<open>Decimal\<close> calls is not turned into \<open>None\<close>.
\<close>

definition parse_market :: "json \<Rightarrow> string \<Rightarrow> exn + market option" where
  "parse_market j slug =
     (if \<not> startswith slug slug_prefix then Return None
      else if \<not> is_dict j then Raise (Raised ''AttributeError'' ''get'')
      else let m = as_dict j in
        if \<not> truthy (pget ''enableOrderBook'' m) then Return None
        else case parse_fields m slug of
          None \<Rightarrow> Return None
        | Some (start, cond, up, down) \<Rightarrow>
            rbind (dec_of (por (pget ''orderMinSize'' m) (JInt 5))) (\<lambda>min_size.
            rbind (dec_of (por (pget ''orderPriceMinTickSize'' m) (JStr ''0.01''))) (\<lambda>tick_size.
            Return (Some
              \<lparr>m_slug = slug, m_condition_id = cond, m_start_ts = start, m_end_ts = start + 300,
               m_up_token_id = up, m_down_token_id = down,
               m_min_size = min_size, m_tick_size = tick_size\<rparr>))))"

definition parse_event :: "json \<Rightarrow> exn + market option" where
  "parse_event j =
     (if \<not> is_dict j then Raise (Raised ''AttributeError'' ''get'')
      else case por (pget ''markets'' (as_dict j)) (JArr []) of
        JArr [m] \<Rightarrow> parse_market m (py_str (por (pget ''slug'' (as_dict j)) (JStr [])))
      | _ \<Rightarrow> Return None)"

subsection \<open>The paged query\<close>

record page_request =
  rq_farthest_first :: bool
  rq_end_date_min :: int
  rq_end_date_max :: "int option"
  rq_limit :: nat
  rq_offset :: nat
  rq_fresh :: bool

type_synonym reply = "int \<times> json"

text \<open>\<open>response.raise_for_status()\<close> raises for the client and server error codes.\<close>

definition raise_for_status :: "int \<Rightarrow> exn + unit" where
  "raise_for_status status =
     (if 400 \<le> status \<and> status < 600 then Raise (Raised ''HTTPError'' (show_int status)) else Return ())"

definition page_of :: "reply \<Rightarrow> exn + json list" where
  "page_of r =
     rbind (raise_for_status (fst r)) (\<lambda>_.
       case snd r of JArr xs \<Rightarrow> Return xs
       | _ \<Rightarrow> Raise (Raised ''TypeError'' ''object is not iterable''))"

definition GAMMA_PAGE_SIZE :: nat where "GAMMA_PAGE_SIZE = 100"

definition requested_events :: "int \<Rightarrow> bool \<Rightarrow> nat" where
  "requested_events window_minutes farthest_first =
     (if farthest_first then nat (- ((- window_minutes) div 5)) else 100)"

function fetch_events ::
  "(nat \<Rightarrow> nat \<Rightarrow> exn + json list) \<Rightarrow> nat \<Rightarrow> json list \<Rightarrow> exn + json list" where
  "fetch_events page requested events =
     (if length events < requested then
        let page_size = min GAMMA_PAGE_SIZE (requested - length events) in
        (case page page_size (length events) of
           Inl e \<Rightarrow> Raise e
         | Inr got \<Rightarrow>
             if length got < page_size then Return (events @ got)
             else fetch_events page requested (events @ got))
      else Return events)"
  by pat_completeness auto
termination
  by (relation "measure (\<lambda>(page, requested, events). requested - length events)")
    (auto simp: GAMMA_PAGE_SIZE_def)

declare fetch_events.simps [simp del]

definition discover ::
  "(page_request \<Rightarrow> exn + reply) \<Rightarrow> int \<Rightarrow> bool \<Rightarrow> bool \<Rightarrow> int \<Rightarrow> exn + market list" where
  "discover gamma window_minutes farthest_first fresh now =
     (let req = (\<lambda>limit offset.
            \<lparr>rq_farthest_first = farthest_first, rq_end_date_min = now - 300,
             rq_end_date_max = (if farthest_first then None else Some (now + 60 * window_minutes)),
             rq_limit = limit, rq_offset = offset, rq_fresh = fresh\<rparr>)
      in rbind (fetch_events (\<lambda>limit offset. rbind (gamma (req limit offset)) page_of)
                 (requested_events window_minutes farthest_first) []) (\<lambda>events.
         rbind (rtraverse parse_event events) (\<lambda>parsed.
         Return (sort_key (\<lambda>m. if farthest_first then - m_start_ts m else m_start_ts m)
                   (List.map_filter id parsed)))))"

definition find_by_slug :: "(string \<Rightarrow> exn + reply) \<Rightarrow> string \<Rightarrow> exn + market option" where
  "find_by_slug get slug =
     rbind (get slug) (\<lambda>(status, body).
       if status = 404 then Return None
       else rbind (raise_for_status status) (\<lambda>_. parse_market body slug))"

definition is_eligible :: "market \<Rightarrow> int \<Rightarrow> int \<Rightarrow> bool" where
  "is_eligible m run_started_ts now_ts \<longleftrightarrow> run_started_ts \<le> m_start_ts m \<and> now_ts < m_end_ts m"

subsection \<open>Facts about the reader\<close>

definition five_minute :: "market \<Rightarrow> bool" where
  "five_minute m \<longleftrightarrow>
     startswith (m_slug m) slug_prefix \<and> m_end_ts m = m_start_ts m + 300 \<and>
     Option.bind (after_last CHR ''-'' (m_slug m)) py_int = Some (m_start_ts m)"

lemma parse_fields_start:
  "parse_fields m slug = Some (start, rest) \<Longrightarrow>
     Option.bind (after_last CHR ''-'' slug) py_int = Some start"
  by (auto simp: parse_fields_def split: option.splits if_splits)

lemma parse_market_five_minute:
  "parse_market j slug = Return (Some m) \<Longrightarrow> five_minute m \<and> m_slug m = slug"
  by (auto simp: parse_market_def five_minute_def Let_def rbind_Inr_iff parse_fields_start
      split: if_splits option.splits prod.splits)

lemma slot_slug_start: "Option.bind (after_last CHR ''-'' (slot_slug ts)) py_int = Some ts"
  if "0 \<le> ts"
proof -
  have "slot_slug ts = ''btc-updown-5m'' @ CHR ''-'' # show_int ts"
    by (simp add: slot_slug_def slug_prefix_def)
  then have "after_last CHR ''-'' (slot_slug ts) = Some (show_int ts)"
    by (simp only: after_last_append [OF dash_notin_show_int [OF that]])
  then show ?thesis by simp
qed

lemma slot_slug_inject: "slot_slug a = slot_slug b \<longleftrightarrow> a = b"
  by (auto simp: slot_slug_def show_int_inject)

lemma parse_event_five_minute: "parse_event j = Return (Some m) \<Longrightarrow> five_minute m"
  by (auto simp: parse_event_def dest: parse_market_five_minute
      split: if_splits json.splits list.splits)

text \<open>
  Looking a slot up by its predicted slug round-trips: whatever market Gamma's reply to
  \<open>btc-updown-5m-<ts>\<close> is read into starts at \<open>ts\<close> and ends 300 seconds later, under the
  slug that was asked for.
\<close>

theorem find_by_slug_roundtrip:
  assumes "0 \<le> ts" and "find_by_slug get (slot_slug ts) = Return (Some m)"
  shows "m_slug m = slot_slug ts \<and> m_start_ts m = ts \<and> m_end_ts m = ts + 300"
proof -
  from assms(2) obtain body where "parse_market body (slot_slug ts) = Return (Some m)"
    by (auto simp: find_by_slug_def rbind_Inr_iff split: prod.splits if_splits)
  then have "five_minute m" "m_slug m = slot_slug ts"
    by (simp_all add: parse_market_five_minute)
  then show ?thesis using slot_slug_start [OF assms(1)] by (auto simp: five_minute_def)
qed

subsection \<open>A concrete listing\<close>

definition quoted :: "string \<Rightarrow> string" where
  "quoted s = CHR 0x22 # s @ [CHR 0x22]"

definition example_listing :: json where
  "example_listing = JObj
     [(''enableOrderBook'', JBool True),
      (''conditionId'', JStr ''0xabc''),
      (''clobTokenIds'', JStr (''['' @ quoted ''111'' @ '', '' @ quoted ''222'' @ '']'')),
      (''outcomes'', JStr (''['' @ quoted ''Up'' @ '', '' @ quoted ''Down'' @ '']'')),
      (''orderMinSize'', JInt 5), (''orderPriceMinTickSize'', JReal ''0.01'')]"

definition example_market :: "int \<Rightarrow> market" where
  "example_market ts =
     \<lparr>m_slug = slot_slug ts, m_condition_id = ''0xabc'', m_start_ts = ts, m_end_ts = ts + 300,
      m_up_token_id = ''111'', m_down_token_id = ''222'', m_min_size = 5, m_tick_size = 1/100\<rparr>"

lemma example_listing_parses:
  "find_by_slug (\<lambda>_. Return (200, example_listing)) (slot_slug 1700000100) =
     Return (Some (example_market 1700000100))"
  by code_simp

theorem find_by_slug_roundtrip_witness:
  "m_slug (example_market 1700000100) = slot_slug 1700000100 \<and>
   m_start_ts (example_market 1700000100) = 1700000100 \<and>
   m_end_ts (example_market 1700000100) = 1700000100 + 300"
  by (rule find_by_slug_roundtrip [OF _ example_listing_parses]) simp

text \<open>
  C34. A listing whose \<open>orderMinSize\<close> is a text that is no number is not skipped as
  malformed: reading it raises InvalidOperation, which the except clause does not name, so
  one such listing fails the whole discovery round.
\<close>

theorem parse_market_bad_min_size_raises:
  assumes "startswith slug slug_prefix" and "truthy (pget ''enableOrderBook'' m)"
    and "parse_fields m slug = Some found"
    and "map_of m ''orderMinSize'' = Some (JStr text)" and "text \<noteq> []" and "py_decimal text = None"
  shows "parse_market (JObj m) slug = Raise InvalidOperation \<and>
    rtraverse parse_event (before @ [JObj [(''slug'', JStr slug), (''markets'', JArr [JObj m])]] @ after)
      \<noteq> Return parsed"
proof -
  have p: "parse_market (JObj m) slug = Raise InvalidOperation"
    using assms by (cases found) (simp add: parse_market_def dec_of_def pget_def por_def)
  have "slug \<noteq> []" using assms(1) by (auto simp: startswith_def slug_prefix_def)
  then have "parse_event (JObj [(''slug'', JStr slug), (''markets'', JArr [JObj m])]) = Raise InvalidOperation"
    by (simp add: parse_event_def pget_def por_def p)
  then show ?thesis using p
    by (auto simp: rtraverse_Inr_iff list_all2_append1 list_all2_Cons1)
qed

definition bad_listing :: payload where
  "bad_listing =
     [(''enableOrderBook'', JBool True),
      (''conditionId'', JStr ''0xabc''),
      (''clobTokenIds'', JStr (''['' @ quoted ''111'' @ '', '' @ quoted ''222'' @ '']'')),
      (''outcomes'', JStr (''['' @ quoted ''Up'' @ '', '' @ quoted ''Down'' @ '']'')),
      (''orderMinSize'', JStr ''five'')]"

theorem parse_market_bad_min_size_raises_witness:
  "parse_market (JObj bad_listing) (slot_slug 1700000100) = Raise InvalidOperation"
proof -
  have "startswith (slot_slug 1700000100) slug_prefix" by (simp add: slot_slug_def)
  moreover have "truthy (pget ''enableOrderBook'' bad_listing)" by code_simp
  moreover have "parse_fields bad_listing (slot_slug 1700000100) =
      Some (1700000100, ''0xabc'', ''111'', ''222'')" by code_simp
  moreover have "map_of bad_listing ''orderMinSize'' = Some (JStr ''five'')" by code_simp
  moreover have "py_decimal ''five'' = None" by code_simp
  ultimately show ?thesis
    using parse_market_bad_min_size_raises [of "slot_slug 1700000100" bad_listing
        "(1700000100, ''0xabc'', ''111'', ''222'')" "''five''"] by blast
qed

subsection \<open>Facts about the paged query\<close>

lemma fetch_events_step:
  assumes "length events < requested"
    and "page (min GAMMA_PAGE_SIZE (requested - length events)) (length events) = Return got"
  shows "fetch_events page requested events =
    (if length got < min GAMMA_PAGE_SIZE (requested - length events) then Return (events @ got)
     else fetch_events page requested (events @ got))"
  using assms by (simp add: fetch_events.simps [of page requested events] Let_def)

lemma fetch_events_done: "requested \<le> length events \<Longrightarrow> fetch_events page requested events = Return events"
  by (simp add: fetch_events.simps [of page requested events])

lemma take_add_drop: "take n xs @ take k (drop n xs) = take (n + k) xs"
  by (simp add: take_add)

lemma fetch_events_slices:
  assumes "\<And>limit offset. limit \<le> GAMMA_PAGE_SIZE \<Longrightarrow>
      page limit offset = Return (take limit (drop offset source))"
    and "events = take (length events) source" and "length events \<le> requested"
  shows "fetch_events page requested events = Return (take requested source)"
  using assms
proof (induction page requested events rule: fetch_events.induct)
  case (1 page requested events)
  let ?n = "length events"
  let ?ps = "min GAMMA_PAGE_SIZE (requested - ?n)"
  let ?got = "take ?ps (drop ?n source)"
  show ?case
  proof (cases "?n < requested")
    case True
    have got: "page ?ps ?n = Return ?got" by (simp add: "1.prems"(1))
    note step = fetch_events_step [of events requested page ?got, OF True got]
    have app: "events @ ?got = take (?n + ?ps) source"
      using "1.prems"(2) take_add_drop [of ?n source ?ps] by simp
    show ?thesis
    proof (cases "length ?got < ?ps")
      case True
      then have "min (length source - ?n) ?ps < ?ps" by (simp only: length_take length_drop)
      then have "length source < ?n + ?ps" by linarith
      moreover have "?n + ?ps \<le> requested" using \<open>?n < requested\<close> by simp
      ultimately have "take (?n + ?ps) source = take requested source" by simp
      then show ?thesis using step True app by simp
    next
      case False
      then have "length ?got = ?ps" by (simp only: length_take not_less min_absorb2)
      then have len: "length (events @ ?got) = ?n + ?ps" by (simp only: length_append)
      have "fetch_events page requested (events @ ?got) = Return (take requested source)"
        using "1.IH" [OF \<open>?n < requested\<close> refl got False] "1.prems"(1) app len
          \<open>?n < requested\<close> by (metis add_le_mono1 le_add_diff_inverse min.cobounded2 nat_less_le add_left_mono)
      then show ?thesis by (simp only: step False if_False)
    qed
  next
    case False
    with "1.prems" have "?n = requested" by simp
    with "1.prems"(2) show ?thesis by (simp add: fetch_events_done)
  qed
qed

text \<open>
  The paging loop returns and is exact: when Gamma answers a request of at most 100
  events from an offset with that slice of its list, the events collected over however many
  pages are the first \<open>requested\<close> of the list; the loop never asks for a larger page.
\<close>

theorem fetch_events_exact:
  assumes "\<And>limit offset. limit \<le> GAMMA_PAGE_SIZE \<Longrightarrow>
     page limit offset = Return (take limit (drop offset source))"
  shows "fetch_events page requested [] = Return (take requested source)"
  by (rule fetch_events_slices) (simp_all add: assms)

definition example_source :: "json list" where
  "example_source = map (\<lambda>n. JInt (int n)) [0..<250]"

theorem fetch_events_exact_witness:
  "fetch_events (\<lambda>limit offset. if limit \<le> 100 then Return (take limit (drop offset example_source))
      else Raise (ValueError ''limit'')) 144 [] = Return (map (\<lambda>n. JInt (int n)) [0..<144])"
proof -
  have "fetch_events (\<lambda>limit offset. if limit \<le> 100 then Return (take limit (drop offset example_source))
      else Raise (ValueError ''limit'')) 144 [] = Return (take 144 example_source)"
    by (rule fetch_events_exact) (simp add: GAMMA_PAGE_SIZE_def)
  then show ?thesis by (simp add: example_source_def take_map)
qed

lemma discover_shape:
  assumes "discover gamma w ff fresh now = Return ms"
  obtains events parsed where "rtraverse parse_event events = Return parsed"
    and "ms = sort_key (\<lambda>m. if ff then - m_start_ts m else m_start_ts m) (List.map_filter id parsed)"
  using assms by (auto simp: discover_def Let_def rbind_Inr_iff)

lemma parsed_five_minute:
  assumes "rtraverse parse_event events = Return parsed" "m \<in> set (List.map_filter id parsed)"
  shows "five_minute m"
proof -
  from assms(2) have "Some m \<in> set parsed" by (auto simp: map_filter_def)
  with assms(1) obtain e where "parse_event e = Return (Some m)"
    by (auto simp: rtraverse_Inr_iff list_all2_conv_all_nth in_set_conv_nth)
  then show ?thesis by (rule parse_event_five_minute)
qed

text \<open>
  A discovery that returns hands the service only five-minute BTC markets, in the order
  asked for: by descending start time for farthest-first, ascending otherwise.
\<close>

theorem discover_sound:
  assumes "discover gamma window_minutes farthest_first fresh now = Return ms"
  shows "list_all five_minute ms \<and>
     (if farthest_first then sorted_wrt (\<ge>) (map m_start_ts ms) else sorted (map m_start_ts ms))"
proof -
  obtain events parsed where p: "rtraverse parse_event events = Return parsed"
    and ms: "ms = sort_key (\<lambda>m. if farthest_first then - m_start_ts m else m_start_ts m)
                  (List.map_filter id parsed)"
    using assms by (rule discover_shape)
  have five: "list_all five_minute ms" using parsed_five_minute [OF p] by (simp add: ms list_all_iff)
  show ?thesis
  proof (cases farthest_first)
    case True
    have "sorted (map (\<lambda>m. - m_start_ts m) ms)" using True by (simp add: ms)
    then have "sorted_wrt (\<ge>) (map m_start_ts ms)" by (simp add: sorted_wrt_map)
    with five True show ?thesis by simp
  next
    case False
    then show ?thesis using five by (simp add: ms)
  qed
qed

definition example_gamma :: "page_request \<Rightarrow> exn + reply" where
  "example_gamma rq = Return (200, JArr (take (rq_limit rq) (drop (rq_offset rq)
     [JObj [(''slug'', JStr (slot_slug 1700000100)), (''markets'', JArr [example_listing])],
      JObj [(''slug'', JStr (slot_slug 1700000400)), (''markets'', JArr [example_listing])],
      JObj [(''slug'', JStr ''eth-updown''), (''markets'', JArr [example_listing])]])))"

lemma example_discovery:
  "discover example_gamma 40 True True 0 =
     Return [example_market 1700000400, example_market 1700000100]"
  by code_simp

theorem discover_sound_witness:
  "list_all five_minute [example_market 1700000400, example_market 1700000100] \<and>
   sorted_wrt (\<ge>) (map m_start_ts [example_market 1700000400, example_market 1700000100])"
  using discover_sound [OF example_discovery] by simp

end
