(* ===== verification/Health.thy ===== *)
theory Health
  imports Py_Values
begin

text \<open>
  The contract the three background workers share: each keeps a health flag and whether it
  has reported before, and puts an update into its queue exactly when the first report comes
  in or the flag changes; the update says the new health and whether it is a recovery.
  \<open>health_edges\<close> states that contract once and derives what the service relies on when it
  replays the updates: they alternate, the last one is the worker's present health, and
  \<open>recovered\<close> marks exactly the healthy ones after the first.
\<close>

fun run_steps :: "('i \<Rightarrow> 's \<Rightarrow> 's) \<Rightarrow> 's \<Rightarrow> 'i list \<Rightarrow> 's" where
  "run_steps step s [] = s"
| "run_steps step s (i # is) = run_steps step (step i s) is"

fun run_emits :: "('i \<Rightarrow> 's \<Rightarrow> 's) \<Rightarrow> ('i \<Rightarrow> 's \<Rightarrow> 'o list) \<Rightarrow> 's \<Rightarrow> 'i list \<Rightarrow> 'o list" where
  "run_emits step emit s [] = []"
| "run_emits step emit s (i # is) = emit i s @ run_emits step emit (step i s) is"

text \<open>
  The updates a consumer replays, as (health, recovered) pairs: alternating, the last one
  the present health, recoveries the healthy ones that follow a failure.
\<close>

definition replay_ok :: "bool \<Rightarrow> (bool \<times> bool) list \<Rightarrow> bool" where
  "replay_ok present ups \<longleftrightarrow>
     ups \<noteq> [] \<and> fst (last ups) = present \<and> successively (\<noteq>) (map fst ups) \<and>
     \<not> snd (hd ups) \<and> list_all (\<lambda>u. snd u = fst u) (tl ups)"

locale health_edges =
  fixes healthy :: "'s \<Rightarrow> bool"
    and attempted :: "'s \<Rightarrow> bool"
    and verdict :: "'i \<Rightarrow> 's \<Rightarrow> bool"
    and step :: "'i \<Rightarrow> 's \<Rightarrow> 's"
    and emit :: "'i \<Rightarrow> 's \<Rightarrow> (bool \<times> bool) list"
  assumes healthy_step: "healthy (step i s) = verdict i s"
    and attempted_step: "attempted (step i s)"
    and emit_step: "emit i s =
      (if \<not> attempted s \<or> healthy s \<noteq> verdict i s
       then [(verdict i s, verdict i s \<and> attempted s \<and> \<not> healthy s)] else [])"
begin

lemma emits_after_attempt:
  assumes "attempted s"
  shows "successively (\<noteq>) (healthy s # map fst (run_emits step emit s is)) \<and>
    list_all (\<lambda>u. snd u = fst u) (run_emits step emit s is) \<and>
    last (healthy s # map fst (run_emits step emit s is)) = healthy (run_steps step s is)"
  using assms
proof (induction "is" arbitrary: s)
  case Nil
  then show ?case by simp
next
  case (Cons i "is")
  have "attempted (step i s)" by (rule attempted_step)
  from Cons.IH [OF this] Cons.prems show ?case
    by (cases "verdict i s = healthy s") (auto simp: emit_step healthy_step)
qed

lemma replay:
  assumes "\<not> attempted s" "is \<noteq> []"
  shows "replay_ok (healthy (run_steps step s is)) (run_emits step emit s is)"
proof -
  obtain i js where "is": "is = i # js" using assms(2) by (cases "is") auto
  let ?t = "step i s"
  let ?ups = "run_emits step emit ?t js"
  have t: "attempted ?t" by (rule attempted_step)
  have e: "run_emits step emit s is = (healthy ?t, False) # ?ups"
    using assms(1) by (simp add: "is" emit_step healthy_step)
  show ?thesis
    using emits_after_attempt [OF t, of js] unfolding e
    by (auto simp: replay_ok_def "is" last_map split: if_splits)
qed

end

end
