(* ===== verification/Geoblock.thy ===== *)
theory Geoblock
  imports Health
begin

text \<open>
  \<open>polymarket_bot/geoblock.py\<close>: which replies of the geoblock endpoint forbid trading over
  the API, and the worker that asks periodically. The endpoint is a parameter: its decoded
  reply or the exception the request raised. A check is one step of the worker's state.
\<close>

subsection \<open>The policy\<close>

definition API_UNRESTRICTED_FRONTEND_ONLY_COUNTRIES :: "string list" where
  "API_UNRESTRICTED_FRONTEND_ONLY_COUNTRIES = [''IE'', ''JP'', ''MT'', ''NL'']"

definition is_api_trading_blocked :: "payload \<Rightarrow> bool" where
  "is_api_trading_blocked result =
     (if pget ''blocked'' result \<noteq> JBool True then False
      else upper (py_str (por (pget ''country'' result) (JStr [])))
             \<notin> set API_UNRESTRICTED_FRONTEND_ONLY_COUNTRIES)"

subsection \<open>The worker\<close>

record geoblock_update =
  gu_available :: bool
  gu_blocked :: bool
  gu_changed :: bool
  gu_recovered :: bool
  gu_result :: "payload option"
  gu_error :: "string option"

record geoblock_worker =
  gw_healthy :: bool
  gw_attempted :: bool
  gw_updates :: "geoblock_update list"

definition geoblock_init :: geoblock_worker where
  "geoblock_init = \<lparr>gw_healthy = False, gw_attempted = False, gw_updates = []\<rparr>"

definition geoblock_verdict :: "exn + payload \<Rightarrow> bool" where
  "geoblock_verdict answer =
     (case answer of Inl _ \<Rightarrow> False | Inr result \<Rightarrow> \<not> is_api_trading_blocked result)"

definition check_update :: "exn + payload \<Rightarrow> geoblock_worker \<Rightarrow> geoblock_update" where
  "check_update answer w =
     (let was_healthy = gw_healthy w; attempted_before = gw_attempted w in
      case answer of
        Inl exc \<Rightarrow>
          \<lparr>gu_available = False, gu_blocked = False,
           gu_changed = (\<not> attempted_before \<or> was_healthy), gu_recovered = False,
           gu_result = None, gu_error = Some (exn_text exc)\<rparr>
      | Inr result \<Rightarrow>
          let blocked = is_api_trading_blocked result in
          \<lparr>gu_available = True, gu_blocked = blocked,
           gu_changed = (\<not> attempted_before \<or> was_healthy = blocked),
           gu_recovered = (attempted_before \<and> \<not> was_healthy \<and> \<not> blocked),
           gu_result = Some result, gu_error = None\<rparr>)"

definition run_once :: "exn + payload \<Rightarrow> geoblock_worker \<Rightarrow> geoblock_worker" where
  "run_once answer w =
     (let update = check_update answer w;
          healthy = (case answer of Inl _ \<Rightarrow> False | Inr result \<Rightarrow> \<not> is_api_trading_blocked result)
      in w\<lparr>gw_healthy := healthy, gw_attempted := True,
           gw_updates := (if gu_changed update \<or> gu_blocked update
                          then gw_updates w @ [update] else gw_updates w)\<rparr>)"

definition geoblock_drain :: "geoblock_worker \<Rightarrow> geoblock_update list \<times> geoblock_worker" where
  "geoblock_drain w = (gw_updates w, w\<lparr>gw_updates := []\<rparr>)"

text \<open>The time to the next check: the long interval after an answer, the retry after a failure.\<close>

definition next_delay :: "rat \<Rightarrow> rat \<Rightarrow> geoblock_update \<Rightarrow> rat" where
  "next_delay interval_seconds retry_seconds update =
     (if gu_available update then interval_seconds else retry_seconds)"

subsection \<open>What the worker reports\<close>

text \<open>The health edge a check puts into the queue: nothing for a repeated verdict.\<close>

definition check_edges :: "exn + payload \<Rightarrow> geoblock_worker \<Rightarrow> (bool \<times> bool) list" where
  "check_edges answer w =
     (let update = check_update answer w in
      if gu_changed update
      then [(gu_available update \<and> \<not> gu_blocked update, gu_recovered update)] else [])"

lemma run_once_simps [simp]:
  "gw_healthy (run_once answer w) = geoblock_verdict answer"
  "gw_attempted (run_once answer w)"
  by (simp_all add: run_once_def geoblock_verdict_def Let_def)

interpretation geo: health_edges gw_healthy gw_attempted "\<lambda>answer w. geoblock_verdict answer"
  run_once check_edges
  by unfold_locales
    (auto simp: check_edges_def check_update_def geoblock_verdict_def Let_def split: sum.splits)

text \<open>
  Whatever sequence of replies and failures the geoblock endpoint gives, the health
  changes the worker announces alternate, end with its present health, and call a recovery
  exactly a healthy verdict that follows a failed or blocked one.
\<close>

theorem geoblock_replay:
  "replay_ok (gw_healthy (run_steps run_once geoblock_init (answer # answers)))
     (run_emits run_once check_edges geoblock_init (answer # answers))"
  by (rule geo.replay) (simp_all add: geoblock_init_def)

text \<open>
  Trading is allowed only on evidence: after a check the worker is healthy exactly if the
  endpoint answered and the answer does not block API trading, and an answer that does block
  is queued for the service every time, changed or not.
\<close>

theorem geoblock_gate:
  "(gw_healthy (run_once answer w) \<longleftrightarrow>
      (\<exists>result. answer = Return result \<and> \<not> is_api_trading_blocked result)) \<and>
   (is_api_trading_blocked result \<longleftrightarrow>
      (\<exists>update. gw_updates (run_once (Return result) w) = gw_updates w @ [update] \<and>
         gu_blocked update \<and> gu_result update = Some result))"
  by (auto simp: geoblock_verdict_def run_once_def check_update_def Let_def split: sum.splits)

end
