(* ===== verification/User_Stream.thy ===== *)
theory User_Stream
  imports Health
begin

text \<open>
  \<open>polymarket_bot/user_stream.py\<close>: the authenticated user socket. The websocket client and
  its typed events are not under src/: an order or trade event is a record of the fields the
  program reads, a datetime is its microseconds since the epoch, and the socket's open state
  and the monotonic clock come in as arguments of each pass of the loop. The clock is exact
  (its floating-point differences are not rounded); event times are rounded as
  \<open>int(timestamp() * 1000)\<close> rounds them. Updates carry the fields the service reads and the
  raw event.
\<close>

subsection \<open>Events and updates\<close>

record order_event =
  oe_id :: string
  oe_type :: string
  oe_status :: string
  oe_size_matched :: string
  oe_original_size :: string
  oe_timestamp_us :: "int option"
  oe_created_at_us :: "int option"
  oe_raw :: json

record trade_event =
  te_id :: string
  te_status :: string
  te_taker_order_id :: string
  te_maker_order_ids :: "string list"
  te_raw :: json

record user_order_update =
  uo_order_id :: string
  uo_status :: string
  uo_matched_size :: rat
  uo_raw :: json
  uo_event_type :: "string option"
  uo_exchange_event_ts_ms :: "int option"
  uo_exchange_created_ts_ms :: "int option"
  uo_received_ts_ms :: "int option"

record user_stream_state =
  ss_healthy :: bool
  ss_changed :: bool
  ss_recovered :: bool
  ss_error :: "string option"

record user_trade_update =
  ut_trade_id :: string
  ut_status :: string
  ut_order_ids :: "string list"
  ut_raw :: json

datatype user_update =
    OrderUpdate user_order_update
  | TradeUpdate user_trade_update
  | StateUpdate user_stream_state

subsection \<open>Reading events\<close>

text \<open>
  \<open>int(stamp.timestamp() * 1000)\<close>: \<open>timestamp()\<close> divides the microseconds by a million in
  double precision, the product is a double again, and \<open>int\<close> truncates.
\<close>

definition event_ts_ms :: "int \<Rightarrow> int" where
  "event_ts_ms us = dtrunc (to_double (to_double (of_int us / 1000000) * 1000))"

definition parse_dec :: "string \<Rightarrow> exn + rat" where
  "parse_dec s = (case py_decimal s of None \<Rightarrow> Raise InvalidOperation | Some d \<Rightarrow> Return d)"

definition normalize_user_order :: "order_event \<Rightarrow> int \<Rightarrow> exn + user_order_update" where
  "normalize_user_order e received_ts_ms =
     rbind (parse_dec (oe_size_matched e)) (\<lambda>matched_size.
     rbind (parse_dec (oe_original_size e)) (\<lambda>original_size.
     let status =
       (if oe_type e = ''CANCELLATION'' \<or> oe_status e = ''CANCELED'' then ''cancelled''
        else if original_size \<le> matched_size then ''filled''
        else if oe_status e \<in> {''DELAYED'', ''UNMATCHED''} then lower (oe_status e)
        else ''live'')
     in Return
       \<lparr>uo_order_id = oe_id e, uo_status = status, uo_matched_size = matched_size,
        uo_raw = oe_raw e, uo_event_type = Some (oe_type e),
        uo_exchange_event_ts_ms = map_option event_ts_ms (oe_timestamp_us e),
        uo_exchange_created_ts_ms = map_option event_ts_ms (oe_created_at_us e),
        uo_received_ts_ms = Some received_ts_ms\<rparr>))"

definition normalize_trade :: "trade_event \<Rightarrow> user_trade_update" where
  "normalize_trade e =
     \<lparr>ut_trade_id = te_id e, ut_status = te_status e,
      ut_order_ids = uniq (te_taker_order_id e # te_maker_order_ids e), ut_raw = te_raw e\<rparr>"

subsection \<open>The worker\<close>

record user_stream =
  us_healthy :: bool
  us_attempted :: bool
  us_updates :: "user_update list"
  us_registered_at :: "(string, int) dict"
  us_connected_since :: "rat option"
  us_stabilization_seconds :: rat

definition user_stream_init :: "rat \<Rightarrow> user_stream" where
  "user_stream_init stabilization_seconds =
     \<lparr>us_healthy = False, us_attempted = False, us_updates = [], us_registered_at = [],
      us_connected_since = None, us_stabilization_seconds = stabilization_seconds\<rparr>"

definition set_health :: "bool \<times> string option \<Rightarrow> user_stream \<Rightarrow> user_stream" where
  "set_health report w =
     (let (healthy, error) = report;
          was_healthy = us_healthy w; attempted_before = us_attempted w;
          changed = (\<not> attempted_before \<or> was_healthy \<noteq> healthy)
      in w\<lparr>us_attempted := True, us_healthy := healthy,
           us_updates := (if changed
             then us_updates w @
               [StateUpdate \<lparr>ss_healthy = healthy, ss_changed = True,
                  ss_recovered = (healthy \<and> attempted_before \<and> \<not> was_healthy), ss_error = error\<rparr>]
             else us_updates w)\<rparr>)"

definition accept_order :: "user_order_update \<Rightarrow> user_stream \<Rightarrow> user_stream" where
  "accept_order update w =
     (let w = (case uo_exchange_event_ts_ms update of
                 Some ts \<Rightarrow>
                   if uo_event_type update = Some ''PLACEMENT''
                   then w\<lparr>us_registered_at := dict_setdefault (uo_order_id update) ts (us_registered_at w)\<rparr>
                   else w
               | None \<Rightarrow> w)
      in w\<lparr>us_updates := us_updates w @ [OrderUpdate update]\<rparr>)"

definition accept_trade :: "trade_event \<Rightarrow> user_stream \<Rightarrow> user_stream" where
  "accept_trade e w = w\<lparr>us_updates := us_updates w @ [TradeUpdate (normalize_trade e)]\<rparr>"

definition registered_ts_ms :: "user_stream \<Rightarrow> string \<Rightarrow> int option" where
  "registered_ts_ms w order_id = dict_get (us_registered_at w) order_id"

definition user_drain :: "user_stream \<Rightarrow> user_update list \<times> user_stream" where
  "user_drain w = (us_updates w, w\<lparr>us_updates := []\<rparr>)"

text \<open>
  The head of one pass of the socket loop: \<open>now\<close> and \<open>later\<close> are its two readings of the
  monotonic clock.
\<close>

definition loop_head :: "bool \<times> rat \<times> rat \<Rightarrow> user_stream \<Rightarrow> user_stream" where
  "loop_head pass w =
     (let (is_open, now, later) = pass in
      if is_open then
        let since = (case us_connected_since w of None \<Rightarrow> now | Some t \<Rightarrow> t);
            w = w\<lparr>us_connected_since := Some since\<rparr>
        in if us_stabilization_seconds w \<le> later - since then set_health (True, None) w else w
      else set_health (False, Some ''user WebSocket disconnected'') (w\<lparr>us_connected_since := None\<rparr>))"

text \<open>Leaving the loop: a stop clears the flag silently, anything else is reported.\<close>

definition loop_exit :: "bool \<Rightarrow> user_stream \<Rightarrow> user_stream" where
  "loop_exit stop_set w =
     (if stop_set then w\<lparr>us_healthy := False\<rparr>
      else set_health (False, Some ''user WebSocket stopped unexpectedly'') w)"

text \<open>
  One pass of \<open>_run_async\<close>: the head, then the event the socket delivered within the wait,
  if any. \<open>StreamEnded\<close> is the StopAsyncIteration of the client's iterator; a failed wait or
  an unreadable order is the exception that leaves the loop. An empty list of passes is the
  stop event, and \<open>user_run\<close> is the thread's whole life.
\<close>

datatype user_event =
  OrderEvent order_event | TradeEvent trade_event | OtherEvent | StreamEnded | StreamFailed exn

record stream_pass =
  sp_head :: "bool \<times> rat \<times> rat"
  sp_event :: "user_event option"
  sp_received_ts_ms :: int

definition handle_event :: "user_event option \<Rightarrow> int \<Rightarrow> user_stream \<Rightarrow> exn + user_stream" where
  "handle_event event received_ts_ms w =
     (case event of
        None \<Rightarrow> Return w
      | Some (OrderEvent e) \<Rightarrow>
          rbind (normalize_user_order e received_ts_ms) (\<lambda>update. Return (accept_order update w))
      | Some (TradeEvent e) \<Rightarrow> Return (accept_trade e w)
      | Some OtherEvent \<Rightarrow> Return w
      | Some StreamEnded \<Rightarrow> Raise (RuntimeError ''user WebSocket subscription ended'')
      | Some (StreamFailed e) \<Rightarrow> Raise e)"

fun user_run :: "stream_pass list \<Rightarrow> user_stream \<Rightarrow> user_stream" where
  "user_run [] w = loop_exit True w"
| "user_run (p # ps) w =
     (let w = loop_head (sp_head p) w in
      case handle_event (sp_event p) (sp_received_ts_ms p) w of
        Inr w \<Rightarrow> user_run ps w
      | Inl e \<Rightarrow> set_health (False, Some (exn_text e)) (loop_exit False w))"

subsection \<open>Health reports\<close>

definition health_edge :: "bool \<times> string option \<Rightarrow> user_stream \<Rightarrow> (bool \<times> bool) list" where
  "health_edge report w =
     map (\<lambda>u. case u of StateUpdate s \<Rightarrow> (ss_healthy s, ss_recovered s) | _ \<Rightarrow> (False, False))
       (drop (length (us_updates w)) (us_updates (set_health report w)))"

lemma set_health_simps [simp]:
  "us_healthy (set_health report w) = fst report" "us_attempted (set_health report w)"
  "us_registered_at (set_health report w) = us_registered_at w"
  "us_connected_since (set_health report w) = us_connected_since w"
  "us_stabilization_seconds (set_health report w) = us_stabilization_seconds w"
  by (simp_all add: set_health_def Let_def split: prod.splits)

interpretation user: health_edges us_healthy us_attempted "\<lambda>report w. fst report" set_health health_edge
  by unfold_locales (auto simp: health_edge_def set_health_def Let_def split: prod.splits)

text \<open>
  The user stream announces its health like the other workers: alternating updates that
  end with its present health, a recovery exactly where a healthy report follows a failure.
\<close>

theorem user_stream_replay:
  "replay_ok (us_healthy (run_steps set_health (user_stream_init stab) (report # reports)))
     (run_emits set_health health_edge (user_stream_init stab) (report # reports))"
  by (rule user.replay) (simp_all add: user_stream_init_def)

subsection \<open>Stabilisation\<close>

text \<open>
  A healthy flag, or a running connection, is backed by the passes seen so far: a suffix of
  them is open throughout, starts at the time the worker holds as \<open>connected_since\<close>, and
  for a healthy flag reaches at least the stabilisation time past it.
\<close>

definition open_since :: "(bool \<times> rat \<times> rat) list \<Rightarrow> rat \<Rightarrow> rat \<Rightarrow> bool" where
  "open_since passes t stab \<longleftrightarrow>
     (\<exists>before now later after. passes = before @ (True, t, now) # after \<and>
        list_all fst after \<and>
        (\<exists>p \<in> set ((True, t, now) # after). snd (snd p) = later \<and> stab \<le> later - t))"

definition open_run :: "(bool \<times> rat \<times> rat) list \<Rightarrow> rat \<Rightarrow> bool" where
  "open_run passes t \<longleftrightarrow> (\<exists>before now after. passes = before @ (True, t, now) # after \<and> list_all fst after)"

lemma open_run_snoc: "open_run passes t \<Longrightarrow> open_run (passes @ [(True, n, l)]) t"
  by (fastforce simp: open_run_def)

lemma open_since_snoc: "open_since passes t stab \<Longrightarrow> open_since (passes @ [(True, n, l)]) t stab"
proof -
  assume "open_since passes t stab"
  then obtain before now later after where
    "passes = before @ (True, t, now) # after" "list_all fst after"
    "\<exists>p \<in> set ((True, t, now) # after). snd (snd p) = later \<and> stab \<le> later - t"
    unfolding open_since_def by blast
  then show ?thesis unfolding open_since_def
    by (intro exI [of _ before] exI [of _ now] exI [of _ later] exI [of _ "after @ [(True, n, l)]"]) auto
qed

lemma open_run_start: "open_run (passes @ [(True, t, l)]) t"
  by (fastforce simp: open_run_def)

lemma open_run_reached:
  "open_run passes t \<Longrightarrow> stab \<le> l - t \<Longrightarrow> open_since (passes @ [(True, n, l)]) t stab"
proof -
  assume "open_run passes t" and l: "stab \<le> l - t"
  then obtain before now after where
    "passes = before @ (True, t, now) # after" "list_all fst after"
    unfolding open_run_def by blast
  then show ?thesis using l unfolding open_since_def
    by (intro exI [of _ before] exI [of _ now] exI [of _ l] exI [of _ "after @ [(True, n, l)]"]) auto
qed

lemma open_since_start: "stab \<le> l - t \<Longrightarrow> open_since (passes @ [(True, t, l)]) t stab"
  unfolding open_since_def by force

lemma loop_head_simps:
  "us_stabilization_seconds (loop_head p w) = us_stabilization_seconds w"
  "us_connected_since (loop_head p w) =
     (if fst p then Some (case us_connected_since w of None \<Rightarrow> fst (snd p) | Some t \<Rightarrow> t) else None)"
  "us_healthy (loop_head p w) =
     (if fst p
      then us_healthy w \<or> us_stabilization_seconds w
             \<le> snd (snd p) - (case us_connected_since w of None \<Rightarrow> fst (snd p) | Some t \<Rightarrow> t)
      else False)"
  by (cases p; simp add: loop_head_def Let_def split: option.splits)+

definition stable_inv :: "(bool \<times> rat \<times> rat) list \<Rightarrow> user_stream \<Rightarrow> bool" where
  "stable_inv passes w \<longleftrightarrow>
     (\<forall>t. us_connected_since w = Some t \<longrightarrow> open_run passes t) \<and>
     (us_healthy w \<longrightarrow>
        (\<exists>t. us_connected_since w = Some t \<and> open_since passes t (us_stabilization_seconds w)))"

lemma stable_inv_step:
  assumes "stable_inv passes w"
  shows "stable_inv (passes @ [p]) (loop_head p w)"
proof (cases "fst p")
  case False
  then show ?thesis by (simp add: stable_inv_def loop_head_simps)
next
  case True
  then obtain n l where p: "p = (True, n, l)" by (cases p) auto
  show ?thesis
  proof (cases "us_connected_since w")
    case None
    then have "\<not> us_healthy w" using assms by (auto simp: stable_inv_def)
    then show ?thesis using None
      by (auto simp: stable_inv_def loop_head_simps p open_run_start open_since_start)
  next
    case (Some t)
    then show ?thesis using assms
      by (auto simp: stable_inv_def loop_head_simps p open_run_snoc open_since_snoc open_run_reached)
  qed
qed

lemma stable_inv_run: "stable_inv done w \<Longrightarrow> stable_inv (done @ passes) (run_steps loop_head w passes)"
proof (induction passes arbitrary: "done" w)
  case (Cons p passes)
  from Cons.IH [OF stable_inv_step [OF Cons.prems, of p]] show ?case by simp
qed simp

lemma run_loop_stab: "us_stabilization_seconds (run_steps loop_head w passes) = us_stabilization_seconds w"
  by (induction passes arbitrary: w) (simp_all add: loop_head_simps)

text \<open>
  C33. Placements are only enabled on a proven connection: if the worker is healthy after any
  sequence of passes of its loop, then the last passes of that sequence found the socket
  open without interruption, and they span at least the stabilisation time.
\<close>

theorem healthy_is_stabilised:
  assumes "us_healthy (run_steps loop_head (user_stream_init stab) passes)"
  shows "\<exists>t. open_since passes t stab"
proof -
  have "stable_inv [] (user_stream_init stab)" by (simp add: stable_inv_def user_stream_init_def)
  from stable_inv_run [OF this, of passes] assms show ?thesis
    by (auto simp: stable_inv_def run_loop_stab) (auto simp: user_stream_init_def)
qed

theorem healthy_is_stabilised_witness:
  "\<exists>t. open_since [(False, 0, 0), (True, 1, 1), (True, 2, 2), (True, 3, 3)] t 2"
proof -
  have "us_healthy (run_steps loop_head (user_stream_init 2)
      [(False, 0, 0), (True, 1, 1), (True, 2, 2), (True, 3, 3)])"
    by (simp add: loop_head_simps user_stream_init_def)
  then show ?thesis by (rule healthy_is_stabilised)
qed

lemma handle_event_frame:
  "handle_event event ms w = Return w' \<Longrightarrow>
     us_healthy w' = us_healthy w \<and> us_connected_since w' = us_connected_since w \<and>
     us_stabilization_seconds w' = us_stabilization_seconds w"
  by (auto simp: handle_event_def rbind_Inr_iff accept_order_def accept_trade_def Let_def
      split: option.splits user_event.splits if_splits)

lemma user_run_unhealthy: "\<not> us_healthy (user_run ps w)"
  by (induction ps arbitrary: w) (auto simp: loop_exit_def Let_def split: sum.splits)

subsection \<open>Registration times\<close>

definition placement_ts :: "string \<Rightarrow> user_order_update \<Rightarrow> int option" where
  "placement_ts order_id u =
     (if uo_order_id u = order_id \<and> uo_event_type u = Some ''PLACEMENT''
      then uo_exchange_event_ts_ms u else None)"

lemma registered_accept:
  "registered_ts_ms (accept_order u w) order_id =
     (case registered_ts_ms w order_id of Some t \<Rightarrow> Some t | None \<Rightarrow> placement_ts order_id u)"
  by (auto simp: registered_ts_ms_def accept_order_def placement_ts_def Let_def split: option.splits)

text \<open>
  The registration time the fleet compares is the first one the venue pushed: after any
  sequence of order events it is the time of the order's first placement event that carries
  one, and later events never move it.
\<close>

theorem registered_first_placement:
  "registered_ts_ms (run_steps accept_order w us) order_id =
     (case registered_ts_ms w order_id of
        Some t \<Rightarrow> Some t
      | None \<Rightarrow> (case List.map_filter (placement_ts order_id) us of [] \<Rightarrow> None | t # _ \<Rightarrow> Some t))"
  by (induction us arbitrary: w) (auto simp: registered_accept map_filter_simps split: option.splits)

end
