(* ===== verification/Activation.thy ===== *)
theory Activation
  imports Health Discovery
begin

text \<open>
  \<open>polymarket_bot/market_activation.py\<close>: two threads share a table of candidate markets.
  One polls Gamma for the next five-minute slots and registers them, the other polls the
  CLOB for the registered ones and emits an update when it knows both tokens. Each function
  below is one method; what a method does while it holds a lock is one function of the
  worker, and \<open>act_step\<close> interleaves those sections freely. Gamma, the CLOB and the clock
  are parameters. The wake event is a flag, present when the worker was given one.
\<close>

subsection \<open>State\<close>

record activation_state =
  as_healthy :: bool
  as_changed :: bool
  as_recovered :: bool
  as_error :: "string option"

record activation_update =
  au_market :: market
  au_discovered_ts_ms :: int
  au_detected_ts_ms :: int

record candidate =
  c_market :: market
  c_discovered_ts_ms :: int

datatype act_update = Activated activation_update | ActState activation_state

record activation =
  aw_window_minutes :: int
  aw_farthest_first :: bool
  aw_wake :: "bool option"
  aw_healthy :: bool
  aw_updates :: "act_update list"
  aw_component_health :: "(string, bool option) dict"
  aw_attempted :: bool
  aw_candidates :: "(string, candidate) dict"
  aw_handled_slugs :: "string set"
  aw_next_start_ts :: "int option"

definition activation_init :: "int \<Rightarrow> bool \<Rightarrow> bool option \<Rightarrow> activation" where
  "activation_init window_minutes farthest_first wake =
     \<lparr>aw_window_minutes = window_minutes, aw_farthest_first = farthest_first, aw_wake = wake,
      aw_healthy = False, aw_updates = [],
      aw_component_health = [(''gamma'', None), (''clob'', None)], aw_attempted = False,
      aw_candidates = [], aw_handled_slugs = {}, aw_next_start_ts = None\<rparr>"

definition emit :: "act_update \<Rightarrow> activation \<Rightarrow> activation" where
  "emit u w = w\<lparr>aw_updates := aw_updates w @ [u], aw_wake := map_option (\<lambda>_. True) (aw_wake w)\<rparr>"

definition act_drain :: "activation \<Rightarrow> act_update list \<times> activation" where
  "act_drain w = (aw_updates w, w\<lparr>aw_updates := []\<rparr>)"

text \<open>\<open>int(time.time())\<close> and \<open>int(time.time() * 1000)\<close> of a clock reading.\<close>

definition now_seconds :: "rat \<Rightarrow> int" where "now_seconds t = dtrunc t"
definition now_millis :: "rat \<Rightarrow> int" where "now_millis t = dtrunc (to_double (t * 1000))"

subsection \<open>Health\<close>

text \<open>
  The code emits the change after it has released the health lock, so the edges of two components
  may enter the queue in the other order; here the update and its edge are one step.
\<close>

definition set_component_health ::
  "string \<times> bool \<times> string option \<Rightarrow> activation \<Rightarrow> activation" where
  "set_component_health report w =
     (let (component, healthy, error) = report;
          was_healthy = aw_healthy w; attempted_before = aw_attempted w;
          health = dict_set component (Some healthy) (aw_component_health w);
          vals = map snd health;
          overall_healthy = (list_ex (\<lambda>v. v = Some True) vals \<and> list_all (\<lambda>v. v \<noteq> Some False) vals);
          changed = (\<not> attempted_before \<or> was_healthy \<noteq> overall_healthy);
          w = w\<lparr>aw_attempted := True, aw_component_health := health, aw_healthy := overall_healthy\<rparr>
      in if changed
         then emit (ActState \<lparr>as_healthy = overall_healthy, as_changed = True,
                as_recovered = (overall_healthy \<and> attempted_before \<and> \<not> was_healthy),
                as_error = (case error of None \<Rightarrow> None
                            | Some e \<Rightarrow> if e = [] then None else Some (component @ '': '' @ e))\<rparr>) w
         else w)"

subsection \<open>Registering candidates\<close>

definition register_one :: "int \<Rightarrow> int \<Rightarrow> market \<Rightarrow> activation \<Rightarrow> activation" where
  "register_one discovered_ts_ms now_ts m w =
     (if m_slug m \<in> aw_handled_slugs w then w
      else if m_end_ts m \<le> now_ts then
        w\<lparr>aw_handled_slugs := insert (m_slug m) (aw_handled_slugs w),
          aw_candidates := dict_pop (m_slug m) (aw_candidates w)\<rparr>
      else w\<lparr>aw_candidates := dict_setdefault (m_slug m)
               \<lparr>c_market = m, c_discovered_ts_ms = discovered_ts_ms\<rparr> (aw_candidates w)\<rparr>)"

text \<open>\<open>t1\<close> and \<open>t2\<close> are the two readings of the clock.\<close>

definition register_candidates ::
  "rat \<Rightarrow> rat \<Rightarrow> int option \<Rightarrow> market list \<Rightarrow> activation \<Rightarrow> exn + activation" where
  "register_candidates t1 t2 market_discovered_ts_ms markets w =
     (if markets = [] then Raise (ValueError ''at least one market is required'')
      else let discovered = (case market_discovered_ts_ms of
                 Some ms \<Rightarrow> if ms \<noteq> 0 then ms else now_millis t1 | None \<Rightarrow> now_millis t1)
           in Return (fold (register_one discovered (now_seconds t2)) markets w))"

subsection \<open>Polling the CLOB\<close>

definition expired_slugs :: "int \<Rightarrow> activation \<Rightarrow> string list" where
  "expired_slugs now_ts w =
     map fst (filter (\<lambda>(slug, c). m_end_ts (c_market c) \<le> now_ts) (aw_candidates w))"

text \<open>The first locked section: drop the markets that have ended, snapshot the others.\<close>

definition expire_candidates :: "rat \<Rightarrow> activation \<Rightarrow> candidate list \<times> activation" where
  "expire_candidates t w =
     (let w = fold (\<lambda>slug w. w\<lparr>aw_candidates := dict_pop slug (aw_candidates w),
                       aw_handled_slugs := insert slug (aw_handled_slugs w)\<rparr>)
                (expired_slugs (now_seconds t) w) w
      in (map snd (aw_candidates w), w))"

definition token_entries :: "json \<Rightarrow> exn + json list" where
  "token_entries v = py_iter (por v (JArr []))"

definition clob_knows :: "market \<Rightarrow> exn + reply \<Rightarrow> exn + bool" where
  "clob_knows m answer =
     rbind answer (\<lambda>(status, body).
       if status = 404 then Return False
       else rbind (raise_for_status status) (\<lambda>_.
         if \<not> is_dict body then Raise (Raised ''AttributeError'' ''get'')
         else rbind (token_entries (pget ''t'' (as_dict body))) (\<lambda>entries.
           let tokens = map (\<lambda>e. py_str (por (pget ''t'' (as_dict e)) (JStr []))) (filter is_dict entries)
           in Return (m_up_token_id m \<in> set tokens \<and> m_down_token_id m \<in> set tokens))))"

text \<open>The second locked section and the emission: only who still finds the candidate emits.\<close>

definition claim :: "candidate \<Rightarrow> int \<Rightarrow> activation \<Rightarrow> activation" where
  "claim c detected_ts_ms w =
     (let m = c_market c in
      case dict_get (aw_candidates w) (m_slug m) of
        None \<Rightarrow> w
      | Some _ \<Rightarrow>
          emit (Activated \<lparr>au_market = m, au_discovered_ts_ms = c_discovered_ts_ms c,
                           au_detected_ts_ms = detected_ts_ms\<rparr>)
            (w\<lparr>aw_candidates := dict_pop (m_slug m) (aw_candidates w),
               aw_handled_slugs := insert (m_slug m) (aw_handled_slugs w)\<rparr>))"

fun check_candidates ::
  "(market \<Rightarrow> exn + reply) \<Rightarrow> (market \<Rightarrow> rat) \<Rightarrow> candidate list \<Rightarrow> activation \<Rightarrow> (exn + bool) \<times> activation" where
  "check_candidates clob clock [] w = (Return True, w)"
| "check_candidates clob clock (c # cs) w =
     (case clob_knows (c_market c) (clob (c_market c)) of
        Inl e \<Rightarrow> (Raise e, w)
      | Inr False \<Rightarrow> check_candidates clob clock cs w
      | Inr True \<Rightarrow> check_candidates clob clock cs (claim c (now_millis (clock (c_market c))) w))"

definition poll_market_parameters ::
  "(market \<Rightarrow> exn + reply) \<Rightarrow> (market \<Rightarrow> rat) \<Rightarrow> rat \<Rightarrow> activation \<Rightarrow> (exn + bool) \<times> activation" where
  "poll_market_parameters clob clock t w =
     (let (candidates, w) = expire_candidates t w in
      if candidates = [] then (Return False, w) else check_candidates clob clock candidates w)"

text \<open>One pass of \<open>_run_market_parameters\<close> and of \<open>_run_discovery\<close>: the outcome is reported.\<close>

definition run_market_parameters ::
  "(market \<Rightarrow> exn + reply) \<Rightarrow> (market \<Rightarrow> rat) \<Rightarrow> rat \<Rightarrow> activation \<Rightarrow> activation" where
  "run_market_parameters clob clock t w =
     (case poll_market_parameters clob clock t w of
        (Inl e, w) \<Rightarrow> set_component_health (''clob'', False, Some (exn_text e)) w
      | (Inr True, w) \<Rightarrow> set_component_health (''clob'', True, None) w
      | (Inr False, w) \<Rightarrow> w)"

subsection \<open>Polling Gamma\<close>

text \<open>
  The loop over the following slots: it runs until Gamma does not know a slot, a request
  fails or the stop event is set, which \<open>passes\<close> bounds.
\<close>

fun follow_slots ::
  "(string \<Rightarrow> exn + market option) \<Rightarrow> rat \<Rightarrow> nat \<Rightarrow> int \<Rightarrow> activation \<Rightarrow> (exn + unit) \<times> activation" where
  "follow_slots by_slug t 0 start w = (Return (), w)"
| "follow_slots by_slug t (Suc passes) start w =
     (case by_slug (slot_slug start) of
        Inl e \<Rightarrow> (Raise e, w)
      | Inr None \<Rightarrow> (Return (), w)
      | Inr (Some m) \<Rightarrow>
          (case register_candidates t t None [m] w of
             Inl e \<Rightarrow> (Raise e, w)
           | Inr w \<Rightarrow> follow_slots by_slug t passes (start + 300) (w\<lparr>aw_next_start_ts := Some (start + 300)\<rparr>)))"

definition seed_slots ::
  "(int \<Rightarrow> bool \<Rightarrow> exn + market list) \<Rightarrow> rat \<Rightarrow> activation \<Rightarrow> exn + activation" where
  "seed_slots disc t w =
     (case aw_next_start_ts w of
        Some _ \<Rightarrow> Return w
      | None \<Rightarrow>
          rbind (disc (max (aw_window_minutes w) 5) (aw_farthest_first w)) (\<lambda>markets.
            if markets = [] then Raise (RuntimeError ''Gamma returned no BTC five-minute market'')
            else rbind (if aw_window_minutes w = 0 then Return w
                        else register_candidates t t None markets w) (\<lambda>w.
              Return (w\<lparr>aw_next_start_ts := Some (Max (set (map m_start_ts markets)) + 300)\<rparr>))))"

definition poll_discovery ::
  "(int \<Rightarrow> bool \<Rightarrow> exn + market list) \<Rightarrow> (string \<Rightarrow> exn + market option) \<Rightarrow> rat \<Rightarrow> nat \<Rightarrow>
     activation \<Rightarrow> (exn + unit) \<times> activation" where
  "poll_discovery disc by_slug t passes w =
     (case seed_slots disc t w of
        Inl e \<Rightarrow> (Raise e, w)
      | Inr w \<Rightarrow> (case aw_next_start_ts w of
                    None \<Rightarrow> (Return (), w)
                  | Some start \<Rightarrow> follow_slots by_slug t passes start w))"

definition run_discovery ::
  "(int \<Rightarrow> bool \<Rightarrow> exn + market list) \<Rightarrow> (string \<Rightarrow> exn + market option) \<Rightarrow> rat \<Rightarrow> nat \<Rightarrow>
     activation \<Rightarrow> activation" where
  "run_discovery disc by_slug t passes w =
     (case poll_discovery disc by_slug t passes w of
        (Inl e, w) \<Rightarrow> set_component_health (''gamma'', False, Some (exn_text e)) w
      | (Inr _, w) \<Rightarrow> set_component_health (''gamma'', True, None) w)"

subsection \<open>Health reports\<close>

fun act_edge :: "act_update \<Rightarrow> (bool \<times> bool) list" where
  "act_edge (ActState s) = [(as_healthy s, as_recovered s)]"
| "act_edge (Activated _) = []"

definition component_verdict :: "string \<times> bool \<times> string option \<Rightarrow> activation \<Rightarrow> bool" where
  "component_verdict report w =
     (let vals = map snd (dict_set (fst report) (Some (fst (snd report))) (aw_component_health w))
      in list_ex (\<lambda>v. v = Some True) vals \<and> list_all (\<lambda>v. v \<noteq> Some False) vals)"

definition component_edges :: "string \<times> bool \<times> string option \<Rightarrow> activation \<Rightarrow> (bool \<times> bool) list" where
  "component_edges report w =
     concat (map act_edge (drop (length (aw_updates w)) (aw_updates (set_component_health report w))))"

interpretation act: health_edges aw_healthy aw_attempted component_verdict
  set_component_health component_edges
  by unfold_locales
    (auto simp: component_edges_def component_verdict_def set_component_health_def emit_def Let_def
      split: prod.splits)

text \<open>
  The activation worker folds the health of its two threads into one flag, and announces
  it like the other workers: the updates alternate, the last one is the present health, and a
  recovery is exactly a healthy report after a failure.
\<close>

theorem activation_replay:
  "replay_ok (aw_healthy (run_steps set_component_health (activation_init mins farthest wake) (report # reports)))
     (run_emits set_component_health component_edges (activation_init mins farthest wake) (report # reports))"
  by (rule act.replay) (simp_all add: activation_init_def)

lemma set_component_health_frame [simp]:
  "aw_candidates (set_component_health r w) = aw_candidates w"
  "aw_handled_slugs (set_component_health r w) = aw_handled_slugs w"
  "aw_next_start_ts (set_component_health r w) = aw_next_start_ts w"
  by (auto simp: set_component_health_def emit_def Let_def split: prod.splits)

subsection \<open>The two threads interleaved\<close>

definition activations :: "act_update list \<Rightarrow> activation_update list" where
  "activations us = List.map_filter (\<lambda>u. case u of Activated a \<Rightarrow> Some a | ActState _ \<Rightarrow> None) us"

lemma activations_append [simp]: "activations (us @ vs) = activations us @ activations vs"
  by (simp add: activations_def List.map_filter_def)

lemma activations_simps [simp]:
  "activations [] = []" "activations (Activated a # us) = a # activations us"
  "activations (ActState s # us) = activations us"
  by (simp_all add: activations_def List.map_filter_def)

lemma activations_health [simp]:
  "activations (aw_updates (set_component_health r w)) = activations (aw_updates w)"
  by (auto simp: set_component_health_def emit_def Let_def split: prod.splits)

text \<open>
  A state of the pair of threads: the worker, what is left of the poller's snapshot, and what
  the service has drained. \<open>clob k m\<close> is the CLOB's \<open>k\<close>-th answer about \<open>m\<close>.
\<close>

type_synonym act_system = "activation \<times> candidate list \<times> act_update list"

inductive act_step :: "(nat \<Rightarrow> market \<Rightarrow> exn + reply) \<Rightarrow> act_system \<Rightarrow> act_system \<Rightarrow> bool"
  for clob :: "nat \<Rightarrow> market \<Rightarrow> exn + reply" where
  registered: "register_candidates t1 t2 ms markets w = Return w' \<Longrightarrow>
     act_step clob (w, cs, sent) (w', cs, sent)"
| next_slot: "act_step clob (w, cs, sent) (w\<lparr>aw_next_start_ts := n\<rparr>, cs, sent)"
| expired: "expire_candidates t w = (cs, w') \<Longrightarrow> act_step clob (w, [], sent) (w', cs, sent)"
| unknown: "clob_knows (c_market c) (clob k (c_market c)) = Return False \<Longrightarrow>
     act_step clob (w, c # cs, sent) (w, cs, sent)"
| known: "clob_knows (c_market c) (clob k (c_market c)) = Return True \<Longrightarrow>
     act_step clob (w, c # cs, sent) (claim c ms w, cs, sent)"
| failed: "clob_knows (c_market c) (clob k (c_market c)) = Raise e \<Longrightarrow>
     act_step clob (w, c # cs, sent) (w, [], sent)"
| reported: "act_step clob (w, cs, sent) (set_component_health r w, cs, sent)"
| drained: "act_drain w = (us, w') \<Longrightarrow> act_step clob (w, cs, sent) (w', cs, sent @ us)"

text \<open>
  The invariant: a candidate is stored under its slug and is not handled, every activation
  is of a handled market the CLOB knew, and no slug was activated twice.
\<close>

definition act_inv :: "(nat \<Rightarrow> market \<Rightarrow> exn + reply) \<Rightarrow> act_system \<Rightarrow> bool" where
  "act_inv clob sys \<longleftrightarrow>
     (case sys of (w, cs, sent) \<Rightarrow>
        let done = activations (sent @ aw_updates w) in
        distinct (map (\<lambda>a. m_slug (au_market a)) done) \<and>
        (\<forall>a \<in> set done. m_slug (au_market a) \<in> aw_handled_slugs w \<and>
           (\<exists>k. clob_knows (au_market a) (clob k (au_market a)) = Return True)) \<and>
        distinct (map fst (aw_candidates w)) \<and>
        (\<forall>(slug, c) \<in> set (aw_candidates w). m_slug (c_market c) = slug) \<and>
        dict_keys (aw_candidates w) \<inter> aw_handled_slugs w = {})"

definition table_ok :: "activation \<Rightarrow> bool" where
  "table_ok w \<longleftrightarrow> distinct (map fst (aw_candidates w)) \<and>
     (\<forall>(slug, c) \<in> set (aw_candidates w). m_slug (c_market c) = slug) \<and>
     dict_keys (aw_candidates w) \<inter> aw_handled_slugs w = {}"

lemma act_inv_iff:
  "act_inv clob (w, cs, sent) \<longleftrightarrow>
     table_ok w \<and>
     (let done = activations (sent @ aw_updates w) in
      distinct (map (\<lambda>a. m_slug (au_market a)) done) \<and>
      (\<forall>a \<in> set done. m_slug (au_market a) \<in> aw_handled_slugs w \<and>
         (\<exists>k. clob_knows (au_market a) (clob k (au_market a)) = Return True)))"
  by (auto simp: act_inv_def table_ok_def Let_def)

lemma set_dict_pop: "set (dict_pop k d) \<subseteq> set d"
  by (auto simp: dict_pop_def AList.delete_eq)

lemma table_ok_handle:
  "table_ok w \<Longrightarrow> table_ok (w\<lparr>aw_candidates := dict_pop s (aw_candidates w),
                          aw_handled_slugs := insert s (aw_handled_slugs w)\<rparr>)"
  using set_dict_pop [of s "aw_candidates w"] by (auto simp: table_ok_def dest: subsetD)

lemma register_one_table: "table_ok w \<Longrightarrow> table_ok (register_one d now m w)"
  using table_ok_handle [of w "m_slug m"]
  by (auto simp: register_one_def table_ok_def dict_setdefault_def split: option.splits)

lemma register_one_frame:
  "aw_updates (register_one d now m w) = aw_updates w"
  "aw_handled_slugs w \<subseteq> aw_handled_slugs (register_one d now m w)"
  by (auto simp: register_one_def)

lemma register_fold:
  "table_ok w \<Longrightarrow> table_ok (fold (register_one d now) ms w)"
  "aw_updates (fold (register_one d now) ms w) = aw_updates w"
  "aw_handled_slugs w \<subseteq> aw_handled_slugs (fold (register_one d now) ms w)"
proof -
  show "table_ok w \<Longrightarrow> table_ok (fold (register_one d now) ms w)"
    by (induction ms arbitrary: w) (auto simp: register_one_table)
  show "aw_updates (fold (register_one d now) ms w) = aw_updates w"
    by (induction ms arbitrary: w) (auto simp: register_one_frame)
  show "aw_handled_slugs w \<subseteq> aw_handled_slugs (fold (register_one d now) ms w)"
  proof (induction ms arbitrary: w)
    case (Cons m ms)
    from subset_trans [OF register_one_frame(2) Cons.IH] show ?case by simp
  qed simp
qed

lemma expire_fold:
  defines "drop_one \<equiv> (\<lambda>slug w. w\<lparr>aw_candidates := dict_pop slug (aw_candidates w),
                       aw_handled_slugs := insert slug (aw_handled_slugs w)\<rparr>)"
  shows "(table_ok w \<longrightarrow> table_ok (fold drop_one slugs w)) \<and>
    aw_updates (fold drop_one slugs w) = aw_updates w \<and>
    aw_handled_slugs w \<subseteq> aw_handled_slugs (fold drop_one slugs w)"
proof (induction slugs arbitrary: w)
  case (Cons s slugs)
  from Cons.IH [of "drop_one s w"] table_ok_handle [of w s] show ?case by (auto simp: drop_one_def)
qed simp

lemma claim_cases:
  "claim c ms w = w \<and> m_slug (c_market c) \<notin> dict_keys (aw_candidates w) \<or>
   m_slug (c_market c) \<in> dict_keys (aw_candidates w) \<and>
   claim c ms w = emit (Activated \<lparr>au_market = c_market c, au_discovered_ts_ms = c_discovered_ts_ms c,
                          au_detected_ts_ms = ms\<rparr>)
     (w\<lparr>aw_candidates := dict_pop (m_slug (c_market c)) (aw_candidates w),
        aw_handled_slugs := insert (m_slug (c_market c)) (aw_handled_slugs w)\<rparr>)"
  by (auto simp: claim_def Let_def dict_get_None_iff split: option.splits
      dest: dict_get_Some_key)

lemma table_ok_emit [simp]: "table_ok (emit u w) = table_ok w"
  by (simp add: table_ok_def emit_def)

lemma act_inv_claim:
  assumes inv: "act_inv clob (w, c # cs, sent)"
    and knows: "clob_knows (c_market c) (clob k (c_market c)) = Return True"
  shows "act_inv clob (claim c ms w, cs, sent)"
  using claim_cases [of c ms w]
proof
  assume "claim c ms w = w \<and> m_slug (c_market c) \<notin> dict_keys (aw_candidates w)"
  then show ?thesis using inv by (simp add: act_inv_iff)
next
  let ?s = "m_slug (c_market c)"
  assume a: "?s \<in> dict_keys (aw_candidates w) \<and> claim c ms w = emit (Activated \<lparr>au_market = c_market c,
      au_discovered_ts_ms = c_discovered_ts_ms c, au_detected_ts_ms = ms\<rparr>)
     (w\<lparr>aw_candidates := dict_pop ?s (aw_candidates w), aw_handled_slugs := insert ?s (aw_handled_slugs w)\<rparr>)"
  have new: "?s \<notin> aw_handled_slugs w" using a inv by (auto simp: act_inv_iff table_ok_def)
  have "table_ok (claim c ms w)"
    using a table_ok_handle inv by (simp add: act_inv_iff)
  then show ?thesis using a new inv knows
    by (auto simp: act_inv_iff Let_def emit_def)
qed

lemma act_inv_frame:
  assumes "act_inv clob (w, cs, sent)" "table_ok w'" "aw_updates w' = aw_updates w"
    "aw_handled_slugs w \<subseteq> aw_handled_slugs w'"
  shows "act_inv clob (w', cs', sent)"
  using assms by (auto simp: act_inv_iff Let_def)

lemma act_step_inv: "act_step clob x y \<Longrightarrow> act_inv clob x \<Longrightarrow> act_inv clob y"
proof (induction rule: act_step.induct)
  case (registered t1 t2 ms markets w w' cs sent)
  then obtain d where "w' = fold (register_one d (now_seconds t2)) markets w"
    by (auto simp: register_candidates_def Let_def split: if_splits)
  then show ?case
    using registered.prems register_fold [where w = w and d = d and now = "now_seconds t2" and ms = markets]
    by (intro act_inv_frame [OF registered.prems]) (auto simp: act_inv_iff)
next
  case (expired t w cs w' sent)
  have "w' = fold (\<lambda>slug w. w\<lparr>aw_candidates := dict_pop slug (aw_candidates w),
      aw_handled_slugs := insert slug (aw_handled_slugs w)\<rparr>) (expired_slugs (now_seconds t) w) w"
    using expired.hyps by (simp add: expire_candidates_def Let_def)
  then show ?case
    using expire_fold [of w "expired_slugs (now_seconds t) w"] expired.prems
    by (intro act_inv_frame [OF expired.prems]) (auto simp: act_inv_iff)
next
  case (known c k w cs sent ms)
  then show ?case by (blast intro: act_inv_claim)
next
  case (drained w us w' cs sent)
  then have w': "us = aw_updates w" "w' = w\<lparr>aw_updates := []\<rparr>" by (simp_all add: act_drain_def)
  then have "table_ok w' = table_ok w" by (simp add: table_ok_def)
  with drained.prems w' show ?case by (simp add: act_inv_iff)
next
  case (reported w cs sent r)
  then show ?case by (auto simp: act_inv_iff table_ok_def Let_def)
qed (simp_all add: act_inv_iff table_ok_def)

lemma act_inv_init: "act_inv clob (activation_init mins farthest wake, [], [])"
  by (simp add: act_inv_iff table_ok_def activation_init_def)

lemma act_reach_inv:
  "(act_step clob)\<^sup>*\<^sup>* x y \<Longrightarrow> act_inv clob x \<Longrightarrow> act_inv clob y"
  by (induction rule: rtranclp_induct) (auto intro: act_step_inv)

text \<open>
  C14. However the two threads' locked sections, the failures of both venues and the service's
  drains interleave: every market is announced at most once, only markets the CLOB has
  confirmed both tokens of are announced, and a market that was announced or has ended is
  never a candidate again.
\<close>

theorem activation_at_most_once:
  assumes "(act_step clob)\<^sup>*\<^sup>* (activation_init mins farthest wake, [], []) (w, cs, sent)"
  shows "distinct (map (\<lambda>a. m_slug (au_market a)) (activations (sent @ aw_updates w))) \<and>
    list_all (\<lambda>a. \<exists>k. clob_knows (au_market a) (clob k (au_market a)) = Return True)
      (activations (sent @ aw_updates w)) \<and>
    list_all (\<lambda>a. m_slug (au_market a) \<in> aw_handled_slugs w) (activations (sent @ aw_updates w)) \<and>
    dict_keys (aw_candidates w) \<inter> aw_handled_slugs w = {}"
  using act_reach_inv [OF assms act_inv_init] by (auto simp: act_inv_def list_all_iff Let_def)

lemma check_candidates_steps:
  "\<exists>cs'. (act_step clob)\<^sup>*\<^sup>* (w, cs, sent) (snd (check_candidates (clob k) clock cs w), cs', sent)"
proof (induction cs arbitrary: w)
  case Nil
  then show ?case by auto
next
  case (Cons c cs)
  let ?m = "c_market c"
  show ?case
  proof (cases "clob_knows ?m (clob k ?m)")
    case (Inl e)
    then have "act_step clob (w, c # cs, sent) (w, [], sent)" by (rule act_step.failed)
    with Inl show ?thesis by auto
  next
    case (Inr knows)
    let ?w = "if knows then claim c (now_millis (clock ?m)) w else w"
    have "act_step clob (w, c # cs, sent) (?w, cs, sent)"
      using Inr by (cases knows) (auto intro: act_step.known act_step.unknown)
    moreover obtain cs' where
      "(act_step clob)\<^sup>*\<^sup>* (?w, cs, sent) (snd (check_candidates (clob k) clock cs ?w), cs', sent)"
      using Cons.IH by blast
    ultimately show ?thesis using Inr
      by (cases knows) (auto intro: converse_rtranclp_into_rtranclp)
  qed
qed

lemma poll_steps:
  "\<exists>cs'. (act_step clob)\<^sup>*\<^sup>* (w, [], sent) (snd (poll_market_parameters (clob k) clock t w), cs', sent)"
proof (cases "expire_candidates t w")
  case (Pair cs w')
  then have "act_step clob (w, [], sent) (w', cs, sent)" by (rule act_step.expired)
  moreover obtain cs' where
    "(act_step clob)\<^sup>*\<^sup>* (w', cs, sent) (snd (check_candidates (clob k) clock cs w'), cs', sent)"
    using check_candidates_steps by blast
  ultimately show ?thesis using Pair
    by (auto simp: poll_market_parameters_def intro: converse_rtranclp_into_rtranclp)
qed

subsection \<open>A concrete run\<close>

definition example_clob :: "nat \<Rightarrow> market \<Rightarrow> exn + reply" where
  "example_clob k m = (if k = 0 then Return (404, JNull)
     else Return (200, JObj [(''t'', JArr [JObj [(''t'', JStr ''111'')], JObj [(''t'', JStr ''222'')]])]))"

definition example_registered :: activation where
  "example_registered =
     (activation_init 30 False None)\<lparr>aw_candidates :=
        [(slot_slug 1700000100,
          \<lparr>c_market = example_market 1700000100, c_discovered_ts_ms = 1700000000000\<rparr>)]\<rparr>"

lemma example_registers:
  "register_candidates 1700000000 1700000000 (Some 1700000000000) [example_market 1700000100]
     (activation_init 30 False None) = Return example_registered"
  by (simp add: register_candidates_def register_one_def activation_init_def example_market_def
      example_registered_def now_seconds_def dtrunc_def dict_setdefault_def)

definition example_polled :: activation where
  "example_polled = snd (poll_market_parameters (example_clob 1) (\<lambda>_. 1700000001) 1700000001 example_registered)"

lemma example_slug_end:
  "m_slug (example_market ts) = slot_slug ts" "m_end_ts (example_market ts) = ts + 300"
  by (simp_all add: example_market_def)

lemma example_clob_knows: "clob_knows (example_market ts) (example_clob 1 m) = Return True"
proof -
  have "clob_knows (example_market 0) (example_clob 1 (example_market 0)) = Return True" by code_simp
  then show ?thesis by (simp add: clob_knows_def example_clob_def example_market_def)
qed

lemma example_polled_announces:
  "map (m_slug \<circ> au_market) (activations (aw_updates example_polled)) = [slot_slug 1700000100]"
  by (simp add: example_polled_def example_registered_def poll_market_parameters_def
      expire_candidates_def expired_slugs_def now_seconds_def dtrunc_def activation_init_def
      claim_def emit_def example_clob_knows [simplified] example_slug_end
      Let_def dict_get_def)

theorem activation_at_most_once_witness:
  "\<exists>cs. (act_step example_clob)\<^sup>*\<^sup>* (activation_init 30 False None, [], []) (example_polled, cs, []) \<and>
     distinct (map (\<lambda>a. m_slug (au_market a)) (activations ([] @ aw_updates example_polled))) \<and>
     activations (aw_updates example_polled) \<noteq> []"
proof -
  obtain cs where "(act_step example_clob)\<^sup>*\<^sup>* (example_registered, [], []) (example_polled, cs, [])"
    unfolding example_polled_def using poll_steps by blast
  moreover have "act_step example_clob (activation_init 30 False None, [], []) (example_registered, [], [])"
    by (rule act_step.registered [OF example_registers])
  ultimately have run: "(act_step example_clob)\<^sup>*\<^sup>* (activation_init 30 False None, [], []) (example_polled, cs, [])"
    by (rule converse_rtranclp_into_rtranclp [rotated])
  then show ?thesis
    using activation_at_most_once [OF run] example_polled_announces by auto
qed

subsection \<open>No slot is skipped\<close>

definition slot_known :: "activation \<Rightarrow> int \<Rightarrow> bool" where
  "slot_known w ts \<longleftrightarrow> slot_slug ts \<in> dict_keys (aw_candidates w) \<union> aw_handled_slugs w"

lemma register_one_known:
  "slot_known w ts \<Longrightarrow> slot_known (register_one d now m w) ts"
  "m_slug m = slot_slug ts \<Longrightarrow> slot_known (register_one d now m w) ts"
  by (auto simp: slot_known_def register_one_def)

lemma register_single:
  "register_candidates t t None [m] w = Return (register_one (now_millis t) (now_seconds t) m w)"
  by (simp add: register_candidates_def Let_def)

lemma slot_known_next [simp]: "slot_known (w\<lparr>aw_next_start_ts := n\<rparr>) ts = slot_known w ts"
  by (simp add: slot_known_def)

lemma find_by_slug_slug: "find_by_slug get slug = Return (Some m) \<Longrightarrow> m_slug m = slug"
  by (auto simp: find_by_slug_def rbind_Inr_iff dest: parse_market_five_minute
      split: prod.splits if_splits)

lemma follow_slots_kept:
  "slot_known w ts \<Longrightarrow> slot_known (snd (follow_slots get t passes start w)) ts"
  by (induction get t passes start w rule: follow_slots.induct)
    (auto simp: register_single register_one_known split: sum.splits option.splits)

lemma follow_slots_contiguous:
  assumes "follow_slots (find_by_slug get) t passes start w = (r, w')"
    "aw_next_start_ts w = Some start"
  shows "\<exists>k \<le> passes. aw_next_start_ts w' = Some (start + 300 * int k) \<and>
    list_all (\<lambda>i. slot_known w' (start + 300 * int i)) [0..<k] \<and>
    (k < passes \<longrightarrow> find_by_slug get (slot_slug (start + 300 * int k)) =
       (case r of Inl e \<Rightarrow> Raise e | Inr _ \<Rightarrow> Return None))"
  using assms
proof (induction passes arbitrary: start w)
  case 0
  then show ?case by simp
next
  case (Suc passes)
  show ?case
  proof (cases "\<exists>m. find_by_slug get (slot_slug start) = Return (Some m)")
    case False
    then show ?thesis using Suc.prems
      by (intro exI [of _ 0]) (auto split: sum.splits option.splits)
  next
    case True
    then obtain m where m: "find_by_slug get (slot_slug start) = Return (Some m)" by blast
    let ?w = "(register_one (now_millis t) (now_seconds t) m w)\<lparr>aw_next_start_ts := Some (start + 300)\<rparr>"
    have run: "follow_slots (find_by_slug get) t passes (start + 300) ?w = (r, w')"
      using Suc.prems m by (simp add: register_single)
    from Suc.IH [OF run] obtain k where k: "k \<le> passes"
      "aw_next_start_ts w' = Some (start + 300 + 300 * int k)"
      "list_all (\<lambda>i. slot_known w' (start + 300 + 300 * int i)) [0..<k]"
      "k < passes \<longrightarrow> find_by_slug get (slot_slug (start + 300 + 300 * int k)) =
         (case r of Inl e \<Rightarrow> Raise e | Inr _ \<Rightarrow> Return None)"
      by auto
    have "slot_known w' start"
      using follow_slots_kept [of ?w start "find_by_slug get" t passes "start + 300"] run
      by (simp add: register_one_known find_by_slug_slug [OF m])
    moreover have shift: "start + 300 * int (Suc i) = start + 300 + 300 * int i" for i by simp
    ultimately have "list_all (\<lambda>i. slot_known w' (start + 300 * int i)) [0..<Suc k]"
      using k(3) by (simp only: list_all_upt_Suc shift) simp
    then show ?thesis using k(1,2,4)
      by (intro exI [of _ "Suc k"]) (simp add: add.assoc del: upt_Suc)
  qed
qed

text \<open>
  The hand-over from slot to slot never leaves a gap: once a first slot is known, a pass
  of \<open>_poll_discovery\<close> registers \<open>k\<close> consecutive five-minute slots, none skipped, and leaves
  the next one as the slot to ask for; it stops short of its bound only where Gamma answers
  that it does not know that slot, or where the request failed with the error it reports.
\<close>

theorem discovery_contiguous:
  assumes "aw_next_start_ts w = Some start"
  shows "case poll_discovery disc (find_by_slug get) t passes w of (r, w') \<Rightarrow>
    \<exists>k \<le> passes. aw_next_start_ts w' = Some (start + 300 * int k) \<and>
      list_all (\<lambda>i. slot_known w' (start + 300 * int i)) [0..<k] \<and>
      (k < passes \<longrightarrow> find_by_slug get (slot_slug (start + 300 * int k)) =
         (case r of Inl e \<Rightarrow> Raise e | Inr _ \<Rightarrow> Return None))"
proof -
  have "poll_discovery disc (find_by_slug get) t passes w =
      follow_slots (find_by_slug get) t passes start w"
    using assms by (simp add: poll_discovery_def seed_slots_def)
  then show ?thesis using follow_slots_contiguous assms by (auto split: prod.splits)
qed

text \<open>Gamma knows one slot and answers 404 for every other.\<close>

definition example_slots :: "string \<Rightarrow> exn + reply" where
  "example_slots slug =
     (if slug = slot_slug 1700000100 then Return (200, example_listing) else Return (404, JNull))"

theorem discovery_contiguous_witness:
  "case poll_discovery (\<lambda>_ _. Return []) (find_by_slug example_slots) 1700000000 5
     ((activation_init 30 False None)\<lparr>aw_next_start_ts := Some 1700000100\<rparr>) of (r, w') \<Rightarrow>
   \<exists>k \<le> 5. aw_next_start_ts w' = Some (1700000100 + 300 * int k) \<and>
     list_all (\<lambda>i. slot_known w' (1700000100 + 300 * int i)) [0..<k] \<and>
     (k < 5 \<longrightarrow> find_by_slug example_slots (slot_slug (1700000100 + 300 * int k)) =
        (case r of Inl e \<Rightarrow> Raise e | Inr _ \<Rightarrow> Return None))"
  by (rule discovery_contiguous) simp

end
