(* ===== verification/Conditional_Tokens.thy ===== *)
theory Conditional_Tokens
  imports Py_Values
begin

text \<open>
  \<open>polymarket_bot/conditional_tokens.py\<close>: the two asset ids of a binary condition, computed
  the way the conditional-token contract does. \<open>keccak\<close> is a parameter, a function from
  bytes to bytes; bytes are lists of integers. The search for a curve point has no bound in
  the code; its termination rests on one point of the curve given in closed form.
\<close>

subsection \<open>Bytes\<close>

fun to_bytes :: "nat \<Rightarrow> int \<Rightarrow> int list" where
  "to_bytes 0 x = []"
| "to_bytes (Suc n) x = to_bytes n (x div 256) @ [x mod 256]"

definition from_bytes :: "int list \<Rightarrow> int" where
  "from_bytes bs = foldl (\<lambda>a b. 256 * a + b) 0 bs"

lemma length_to_bytes [simp]: "length (to_bytes n x) = n"
  by (induction n arbitrary: x) auto

lemma from_to_bytes: "0 \<le> x \<Longrightarrow> x < 256 ^ n \<Longrightarrow> from_bytes (to_bytes n x) = x"
proof (induction n arbitrary: x)
  case 0
  then show ?case by (simp add: from_bytes_def)
next
  case (Suc n)
  have "x div 256 < 256 ^ n" using Suc.prems by (simp add: div_less_iff_less_mult mult.commute)
  with Suc.IH [of "x div 256"] Suc.prems show ?case
    by (simp add: from_bytes_def)
qed

text \<open>\<open>bytes.fromhex\<close>: pairs of hexadecimal digits, white space allowed between pairs.\<close>

fun fromhex :: "string \<Rightarrow> int list option" where
  "fromhex [] = Some []"
| "fromhex (c # cs) =
     (if (of_char c :: int) = 32 \<or> (9 \<le> (of_char c :: int) \<and> (of_char c :: int) \<le> 13) then fromhex cs
      else case cs of
        [] \<Rightarrow> None
      | d # ds \<Rightarrow>
          (case (hex_value c, hex_value d) of
             (Some a, Some b) \<Rightarrow> map_option (\<lambda>bs. (16 * a + b) # bs) (fromhex ds)
           | _ \<Rightarrow> None))"

subsection \<open>The search for a curve point\<close>

definition FIELD_MODULUS :: int where
  "FIELD_MODULUS =
     21888242871839275222246405745257275088696311157297823662689037894645226208583"

text \<open>\<open>pow(b, e, m)\<close>, by repeated squaring.\<close>

function modpow :: "int \<Rightarrow> int \<Rightarrow> int \<Rightarrow> int" where
  "modpow b e m =
     (if e \<le> 0 then 1 mod m
      else let h = modpow (b * b mod m) (e div 2) m in if e mod 2 = 1 then b * h mod m else h)"
  by pat_completeness auto
termination
  by (relation "measure (\<lambda>(b, e, m). nat e)") auto

declare modpow.simps [simp del]

definition curve_rhs :: "int \<Rightarrow> int" where
  "curve_rhs x = (modpow x 3 FIELD_MODULUS + 3) mod FIELD_MODULUS"

definition curve_y :: "int \<Rightarrow> int" where
  "curve_y x = modpow (curve_rhs x) ((FIELD_MODULUS + 1) div 4) FIELD_MODULUS"

definition on_curve :: "int \<Rightarrow> bool" where
  "on_curve x \<longleftrightarrow> modpow (curve_y x) 2 FIELD_MODULUS = curve_rhs x"

lemma modpow_power: "modpow b e m = b ^ nat e mod m"
proof (induction b e m rule: modpow.induct)
  case (1 b e m)
  show ?case
  proof (cases "e \<le> 0")
    case False
    let ?h = "modpow (b * b mod m) (e div 2) m"
    have "0 \<le> e div 2" "0 \<le> e mod 2" using False by simp_all
    moreover have "nat e = nat (e div 2 + e div 2 + e mod 2)" by (rule arg_cong) presburger
    ultimately have e: "nat e = nat (e div 2) + nat (e div 2) + nat (e mod 2)"
      by (simp only: nat_add_distrib add_nonneg_nonneg)
    have h: "?h = (b * b) ^ nat (e div 2) mod m"
      using 1 False by (simp add: power_mod)
    have sq: "(b * b) ^ nat (e div 2) = b ^ (nat (e div 2) + nat (e div 2))"
      by (simp add: power_mult_distrib power_add)
    show ?thesis
    proof (cases "e mod 2 = 1")
      case True
      then have "modpow b e m = b * ((b * b) ^ nat (e div 2) mod m) mod m"
        using False h by (simp add: modpow.simps [of b e m])
      also have "\<dots> = b ^ nat e mod m"
        using True by (subst e) (simp add: sq mod_mult_right_eq power_add mult.assoc mult.left_commute)
      finally show ?thesis .
    next
      case even: False
      then have "e mod 2 = 0" by presburger
      then show ?thesis using False h even
        by (subst e) (simp add: modpow.simps [of b e m] sq)
    qed
  qed (simp add: modpow.simps [of b e m])
qed

text \<open>A point with \<open>y = 1\<close>: its \<open>x\<close> is a cube root of \<open>-2\<close>.\<close>

definition known_x :: int where
  "known_x = 737672023501788484657034070393467974112713954770214311754569895089682103088"

lemma known_x_bounds: "0 \<le> known_x" "known_x < FIELD_MODULUS"
  by (simp_all add: known_x_def FIELD_MODULUS_def)

lemma known_x_rhs: "curve_rhs known_x = 1"
proof -
  have "known_x ^ nat 3 mod FIELD_MODULUS = FIELD_MODULUS - 2"
    by (simp add: known_x_def FIELD_MODULUS_def power3_eq_cube)
  then have "modpow known_x 3 FIELD_MODULUS = FIELD_MODULUS - 2"
    by (simp only: modpow_power)
  then show ?thesis by (simp add: curve_rhs_def FIELD_MODULUS_def)
qed

lemma known_x_on_curve: "on_curve known_x"
  by (simp add: on_curve_def curve_y_def known_x_rhs modpow_power) (simp add: FIELD_MODULUS_def)

subsection \<open>Token ids\<close>

function lift_x :: "int \<Rightarrow> int" where
  "lift_x x = (let x = (x + 1) mod FIELD_MODULUS in if on_curve x then x else lift_x x)"
  by pat_completeness auto
termination
proof (relation "measure (\<lambda>x. nat ((known_x - (x + 1)) mod FIELD_MODULUS))")
  fix x y :: int
  assume y: "y = (x + 1) mod FIELD_MODULUS" and off: "\<not> on_curve y"
  have ne: "y \<noteq> known_x" using off known_x_on_curve by blast
  have pos: "0 < FIELD_MODULUS" by (simp add: FIELD_MODULUS_def)
  let ?d = "(known_x - (x + 1)) mod FIELD_MODULUS"
  have d: "?d = (known_x - y) mod FIELD_MODULUS" by (simp add: y mod_diff_right_eq)
  have "?d \<noteq> 0"
  proof
    assume "?d = 0"
    then have "FIELD_MODULUS dvd known_x - y" by (simp add: d mod_eq_0_iff_dvd)
    moreover have "0 \<le> y" "y < FIELD_MODULUS" using pos by (simp_all add: y)
    ultimately show False using ne known_x_bounds zdvd_imp_le [of FIELD_MODULUS "\<bar>known_x - y\<bar>"] pos
      by auto
  qed
  moreover have "0 \<le> ?d" "?d < FIELD_MODULUS" using pos by simp_all
  ultimately have "(?d - 1) mod FIELD_MODULUS = ?d - 1" by simp
  moreover have "(known_x - (y + 1)) mod FIELD_MODULUS = (?d - 1) mod FIELD_MODULUS"
  proof -
    have "known_x - (y + 1) = known_x - 1 - y" by simp
    then have "(known_x - (y + 1)) mod FIELD_MODULUS = (known_x - 1 - (x + 1)) mod FIELD_MODULUS"
      by (simp only: y mod_diff_right_eq)
    also have "known_x - 1 - (x + 1) = known_x - (x + 1) - 1" by simp
    also have "\<dots> mod FIELD_MODULUS = (?d - 1) mod FIELD_MODULUS" by (simp only: mod_diff_left_eq)
    finally show ?thesis .
  qed
  ultimately show "(y, x) \<in> measure (\<lambda>x. nat ((known_x - (x + 1)) mod FIELD_MODULUS))"
    using \<open>?d \<noteq> 0\<close> \<open>0 \<le> ?d\<close> by (simp add: y)
qed simp

declare lift_x.simps [simp del]

definition collection_seed :: "(int list \<Rightarrow> int list) \<Rightarrow> int list \<Rightarrow> int \<Rightarrow> int" where
  "collection_seed keccak condition_id index_set =
     from_bytes (keccak (condition_id @ to_bytes 32 index_set))"

definition collection_id :: "(int list \<Rightarrow> int list) \<Rightarrow> int list \<Rightarrow> int \<Rightarrow> int list" where
  "collection_id keccak condition_id index_set =
     (let seed = collection_seed keccak condition_id index_set;
          is_odd = (drop_bit 255 seed \<noteq> 0);
          x = lift_x seed;
          y = curve_y x;
          y = (if (y mod 2 = 0) = is_odd then FIELD_MODULUS - y else y);
          x = (if y mod 2 = 1 then xor x (push_bit 254 1) else x)
      in to_bytes 32 x)"

definition CTF_COLLATERAL :: "int list" where
  "CTF_COLLATERAL = (case fromhex ''2791Bca1f2de4661ED88A30C99A7a9449Aa84174'' of
     Some bs \<Rightarrow> bs | None \<Rightarrow> [])"

definition token_id :: "(int list \<Rightarrow> int list) \<Rightarrow> int list \<Rightarrow> int \<Rightarrow> string" where
  "token_id keccak raw_condition index_set =
     show_int (from_bytes (keccak (CTF_COLLATERAL @ collection_id keccak raw_condition index_set)))"

definition binary_token_ids :: "(int list \<Rightarrow> int list) \<Rightarrow> string \<Rightarrow> exn + string \<times> string" where
  "binary_token_ids keccak condition_id =
     (case fromhex (removeprefix condition_id ''0x'') of
        None \<Rightarrow> Raise (ValueError ''non-hexadecimal number found in fromhex()'')
      | Some raw_condition \<Rightarrow>
          if length raw_condition \<noteq> 32 then
            Raise (ValueError ''condition id must contain 32 bytes'')
          else Return (token_id keccak raw_condition 1, token_id keccak raw_condition 2))"

subsection \<open>What a collection id is\<close>

lemma lift_x_first:
  "\<exists>j\<ge>1. lift_x seed = (seed + int j) mod FIELD_MODULUS \<and> on_curve (lift_x seed) \<and>
     list_all (\<lambda>i. \<not> on_curve ((seed + int i) mod FIELD_MODULUS)) [1..<j]"
proof (induction seed rule: lift_x.induct)
  case (1 x)
  let ?y = "(x + 1) mod FIELD_MODULUS"
  show ?case
  proof (cases "on_curve ?y")
    case True
    then show ?thesis by (intro exI [of _ 1]) (simp add: lift_x.simps [of x] Let_def)
  next
    case False
    then obtain j where j: "j \<ge> 1" "lift_x ?y = (?y + int j) mod FIELD_MODULUS" "on_curve (lift_x ?y)"
      "list_all (\<lambda>i. \<not> on_curve ((?y + int i) mod FIELD_MODULUS)) [1..<j]"
      using "1.IH" [of ?y] by auto
    have shift: "(?y + int i) mod FIELD_MODULUS = (x + int (Suc i)) mod FIELD_MODULUS" for i
    proof -
      have "x + int (Suc i) = x + 1 + int i" by simp
      then show ?thesis by (simp only: mod_add_left_eq)
    qed
    have "[1..<Suc j] = 1 # map Suc [1..<j]" using j(1) by (simp add: upt_conv_Cons map_Suc_upt del: upt_Suc)
    then have "list_all (\<lambda>i. \<not> on_curve ((x + int i) mod FIELD_MODULUS)) [1..<Suc j]"
      using j(4) False by (simp add: list.pred_map comp_def shift del: upt_Suc)
    then show ?thesis using j(2,3) False
      by (intro exI [of _ "Suc j"]) (simp add: lift_x.simps [of x] Let_def shift del: upt_Suc)
  qed
qed

lemma xor_high_bit:
  assumes "0 \<le> (x::int)" "x < 2 ^ n"
  shows "xor x (push_bit n 1) = x + 2 ^ n"
proof -
  have "\<not> bit x n" using assms by (simp add: bit_iff_odd)
  then have "and x (push_bit n 1) = 0"
    by (intro bit_eqI) (auto simp: bit_and_iff bit_push_bit_iff bit_1_iff simp del: push_bit_of_1)
  then have "x + push_bit n 1 = xor x (push_bit n 1)"
    by (rule disjunctive_add_eq_xor)
  then show ?thesis by (simp add: push_bit_eq_mult)
qed

lemma lift_x_bounds: "0 \<le> lift_x seed" "lift_x seed < 2 ^ 254"
proof -
  obtain j where "lift_x seed = (seed + int j) mod FIELD_MODULUS" using lift_x_first by blast
  moreover have "FIELD_MODULUS < 2 ^ 254" "0 < FIELD_MODULUS" by (simp_all add: FIELD_MODULUS_def)
  ultimately show "0 \<le> lift_x seed" "lift_x seed < 2 ^ 254"
    by (simp_all add: order_less_trans [OF pos_mod_bound])
qed

lemma adjusted_parity:
  "((if (y mod 2 = 0) = b then FIELD_MODULUS - y else y) mod 2 = 1) = b" for y :: int
proof -
  have "odd FIELD_MODULUS" by (simp add: FIELD_MODULUS_def)
  then show ?thesis by (cases b) (auto simp: even_iff_mod_2_eq_zero [symmetric] odd_iff_mod_2_eq_one [symmetric])
qed

lemma on_curve_square: "on_curve x \<Longrightarrow> (curve_y x)\<^sup>2 mod FIELD_MODULUS = (x ^ 3 + 3) mod FIELD_MODULUS"
  by (simp add: on_curve_def modpow_power curve_rhs_def mod_add_left_eq)

text \<open>
  C35. The search for a curve point always ends, and the 32-byte collection id it yields is
  the point in compressed form: its low 254 bits are the first \<open>x\<close> after the seed that passes
  the test, \<open>x\<close> really lies on \<open>y\<^sup>2 = x\<^sup>3 + 3\<close> over the field, and bit 254 is the sign the seed's
  top bit asks for.
\<close>

theorem collection_id_compressed:
  "\<exists>j\<ge>1. let seed = collection_seed keccak condition_id index_set;
       x = (seed + int j) mod FIELD_MODULUS; ident = collection_id keccak condition_id index_set in
     length ident = 32 \<and>
     from_bytes ident mod 2 ^ 254 = x \<and>
     from_bytes ident div 2 ^ 254 = (if drop_bit 255 seed = 0 then 0 else 1) \<and>
     (\<exists>y. y\<^sup>2 mod FIELD_MODULUS = (x ^ 3 + 3) mod FIELD_MODULUS) \<and>
     list_all (\<lambda>i. \<not> on_curve ((seed + int i) mod FIELD_MODULUS)) [1..<j]"
proof -
  let ?seed = "collection_seed keccak condition_id index_set"
  let ?x = "lift_x ?seed"
  obtain j where j: "j \<ge> 1" "?x = (?seed + int j) mod FIELD_MODULUS" "on_curve ?x"
    "list_all (\<lambda>i. \<not> on_curve ((?seed + int i) mod FIELD_MODULUS)) [1..<j]"
    using lift_x_first by blast
  let ?v = "if drop_bit 255 ?seed = 0 then ?x else ?x + 2 ^ 254"
  have "collection_id keccak condition_id index_set = to_bytes 32 ?v"
    unfolding collection_id_def Let_def adjusted_parity xor_high_bit [OF lift_x_bounds]
    by simp
  moreover have "0 \<le> ?v" "?v < 256 ^ 32" using lift_x_bounds [of ?seed] by auto
  ultimately have v: "from_bytes (collection_id keccak condition_id index_set) = ?v"
    "length (collection_id keccak condition_id index_set) = 32"
    by (simp_all only: from_to_bytes length_to_bytes)
  have "?v mod 2 ^ 254 = ?x" "?v div 2 ^ 254 = (if drop_bit 255 ?seed = 0 then 0 else 1)"
    using lift_x_bounds [of ?seed] by auto
  then show ?thesis
    using j v on_curve_square [OF j(3)] by (intro exI [of _ j]) (auto simp: Let_def)
qed

end
