(* ===== verification/Database.thy ===== *)
theory Database
  imports Models
begin

text \<open>
  \<open>polymarket_bot/database.py\<close>: the SQLite file the bot works from. A table is the list of
  its rows in insertion order, a statement is a function of the database, and a violated
  primary or foreign key is the \<open>IntegrityError\<close> of the driver, after which the statement
  has had no effect. The clock is an argument. Decimals are stored as text and read back
  exactly; the JSON columns that only document a row (\<open>plan_json\<close>, \<open>details_json\<close>) are left
  out. Rows with the same sort key come in insertion order.
\<close>

subsection \<open>Tables with a primary key\<close>

definition table_find :: "('r \<Rightarrow> 'k) \<Rightarrow> 'k \<Rightarrow> 'r list \<Rightarrow> 'r option" where
  "table_find key k rows = find (\<lambda>r. key r = k) rows"

definition table_replace :: "('r \<Rightarrow> 'k) \<Rightarrow> 'r \<Rightarrow> 'r list \<Rightarrow> 'r list" where
  "table_replace key r rows = filter (\<lambda>x. key x \<noteq> key r) rows @ [r]"

definition table_update :: "('r \<Rightarrow> 'k) \<Rightarrow> 'k \<Rightarrow> ('r \<Rightarrow> 'r) \<Rightarrow> 'r list \<Rightarrow> 'r list" where
  "table_update key k f rows = map (\<lambda>r. if key r = k then f r else r) rows"

lemma table_find_Nil [simp]: "table_find key k [] = None"
  by (simp add: table_find_def)

lemma table_find_snoc [simp]:
  "table_find key k (rows @ [r]) =
     (case table_find key k rows of Some x \<Rightarrow> Some x | None \<Rightarrow> if key r = k then Some r else None)"
  by (simp add: table_find_def find_append split: option.splits)

lemma table_find_replace [simp]:
  "table_find key k (table_replace key r rows) = (if key r = k then Some r else table_find key k rows)"
proof -
  have "find (\<lambda>x. key x = k) (filter (\<lambda>x. key x \<noteq> key r) rows) =
      (if key r = k then None else find (\<lambda>x. key x = k) rows)"
    by (induction rows) auto
  then show ?thesis by (simp add: table_replace_def table_find_def find_append split: option.splits)
qed

lemma table_find_update [simp]:
  "(\<And>r. key r = k' \<Longrightarrow> key (f r) = k') \<Longrightarrow>
     table_find key k (table_update key k' f rows) =
       (if k = k' then map_option f (table_find key k rows) else table_find key k rows)"
  unfolding table_update_def table_find_def by (induction rows) auto

lemma table_find_Some: "table_find key k rows = Some r \<Longrightarrow> r \<in> set rows \<and> key r = k"
  unfolding table_find_def by (rule find_Some_in)

lemma table_find_None: "table_find key k rows = None \<longleftrightarrow> k \<notin> key ` set rows"
  unfolding table_find_def by (auto simp: find_None_iff)

lemma table_find_unique:
  "distinct (map key rows) \<Longrightarrow> r \<in> set rows \<Longrightarrow> table_find key (key r) rows = Some r"
  unfolding table_find_def by (rule find_distinct_key) auto

lemma map_key_update [simp]:
  "(\<And>r. key r = k \<Longrightarrow> key (f r) = k) \<Longrightarrow> map key (table_update key k f rows) = map key rows"
  by (simp add: table_update_def)

lemma distinct_replace:
  "distinct (map key rows) \<Longrightarrow> distinct (map key (table_replace key r rows))"
  by (auto simp: table_replace_def distinct_map_filter)

lemma set_replace: "set (table_replace key r rows) = insert r {x \<in> set rows. key x \<noteq> key r}"
  by (auto simp: table_replace_def)

lemma set_update: "set (table_update key k f rows) = (\<lambda>r. if key r = k then f r else r) ` set rows"
  by (simp add: table_update_def)

text \<open>
  The contract of a store of keyed rows, which the order table gives its clients: \<open>put\<close> is
  INSERT OR REPLACE, \<open>touch\<close> is an UPDATE of the row with a key.
\<close>

locale keyed_store =
  fixes get :: "'k \<Rightarrow> 's \<Rightarrow> 'r option"
    and put :: "'r \<Rightarrow> 's \<Rightarrow> 's"
    and touch :: "'k \<Rightarrow> ('r \<Rightarrow> 'r) \<Rightarrow> 's \<Rightarrow> 's"
    and key :: "'r \<Rightarrow> 'k"
  assumes get_put: "get k (put r s) = (if k = key r then Some r else get k s)"
    and get_touch: "(\<And>r. key (f r) = key r) \<Longrightarrow>
      get k (touch k' f s) = (if k = k' then map_option f (get k s) else get k s)"
begin

lemma puts_other: "k \<notin> key ` set rs \<Longrightarrow> get k (fold put rs s) = get k s"
  by (induction rs arbitrary: s) (auto simp: get_put)

lemma puts_keep: "get k s \<noteq> None \<Longrightarrow> get k (fold put rs s) \<noteq> None"
  by (induction rs arbitrary: s) (auto simp: get_put)

lemma puts_get: "distinct (map key rs) \<Longrightarrow> r \<in> set rs \<Longrightarrow> get (key r) (fold put rs s) = Some r"
  by (induction rs arbitrary: s) (auto simp: get_put puts_other)

lemma touch_keep: "(\<And>r. key (f r) = key r) \<Longrightarrow> get k (touch k' f s) = None \<longleftrightarrow> get k s = None"
  by (simp add: get_touch)

end

interpretation tables: keyed_store "table_find key" "table_replace key" "table_update key" key
  for key :: "'r \<Rightarrow> 'k"
  by unfold_locales auto

subsection \<open>Rows\<close>

record run_row =
  r_id :: int
  r_started_ts :: int
  r_stopped_ts :: "int option"
  r_mode :: string
  r_status :: string
  r_last_error :: "string option"

record market_row =
  mr_run_id :: int
  mr_market :: market
  mr_state :: string
  mr_error :: "string option"
  mr_updated_ts :: int

record order_row =
  o_order_id :: string
  o_run_id :: int
  o_slug :: string
  o_outcome :: string
  o_token_id :: string
  o_side :: string
  o_role :: string
  o_account :: string
  o_price :: rat
  o_size :: rat
  o_matched_size :: rat
  o_status :: string
  o_raw :: json
  o_created_ts :: int
  o_updated_ts :: int

record event_row =
  ev_run_id :: "int option"
  ev_ts :: int
  ev_level :: string
  ev_type :: string
  ev_slug :: "string option"

record bot_db =
  db_runs :: "run_row list"
  db_markets :: "market_row list"
  db_orders :: "order_row list"
  db_events :: "event_row list"

definition mr_slug :: "market_row \<Rightarrow> string" where "mr_slug r = m_slug (mr_market r)"

lemma mr_slug_simps [simp]:
  "mr_slug (r\<lparr>mr_state := st, mr_error := e, mr_updated_ts := t\<rparr>) = mr_slug r"
  "mr_slug \<lparr>mr_run_id = i, mr_market = m, mr_state = st, mr_error = e, mr_updated_ts = t\<rparr> = m_slug m"
  by (simp_all add: mr_slug_def)

definition empty_db :: bot_db where
  "empty_db = \<lparr>db_runs = [], db_markets = [], db_orders = [], db_events = []\<rparr>"

subsection \<open>Runs and events\<close>

text \<open>AUTOINCREMENT: no run is ever deleted, so the next id is one more than the last.\<close>

definition start_run :: "string \<Rightarrow> int \<Rightarrow> bot_db \<Rightarrow> int \<times> bot_db" where
  "start_run mode now db =
     (let rid = int (length (db_runs db)) + 1
      in (rid, db\<lparr>db_runs := db_runs db @
            [\<lparr>r_id = rid, r_started_ts = now, r_stopped_ts = None, r_mode = mode,
              r_status = ''running'', r_last_error = None\<rparr>]\<rparr>))"

definition stop_run :: "int \<Rightarrow> string \<Rightarrow> string option \<Rightarrow> int \<Rightarrow> bot_db \<Rightarrow> bot_db" where
  "stop_run run_id status error now db =
     db\<lparr>db_runs := table_update r_id run_id
          (\<lambda>r. r\<lparr>r_stopped_ts := Some now, r_status := status, r_last_error := error\<rparr>) (db_runs db)\<rparr>"

definition log_event :: "int option \<Rightarrow> string \<Rightarrow> string \<Rightarrow> string option \<Rightarrow> int \<Rightarrow> bot_db \<Rightarrow> bot_db" where
  "log_event run_id level event_type slug now db =
     db\<lparr>db_events := db_events db @
          [\<lparr>ev_run_id = run_id, ev_ts = now, ev_level = level, ev_type = event_type, ev_slug = slug\<rparr>]\<rparr>"

definition has_run :: "int \<Rightarrow> bot_db \<Rightarrow> bool" where
  "has_run run_id db \<longleftrightarrow> table_find r_id run_id (db_runs db) \<noteq> None"

subsection \<open>Markets\<close>

definition has_market :: "string \<Rightarrow> bot_db \<Rightarrow> bool" where
  "has_market slug db \<longleftrightarrow> table_find mr_slug slug (db_markets db) \<noteq> None"

definition can_start_entry_plan :: "string \<Rightarrow> bot_db \<Rightarrow> bool" where
  "can_start_entry_plan slug db =
     (case table_find mr_slug slug (db_markets db) of
        None \<Rightarrow> True
      | Some row \<Rightarrow>
          if mr_state row \<noteq> ''placement_pending'' then False
          else \<not> list_ex (\<lambda>r. o_slug r = slug) (db_orders db))"

definition foreign_key_error :: exn where
  "foreign_key_error = IntegrityError ''FOREIGN KEY constraint failed''"

definition add_market :: "int \<Rightarrow> market \<Rightarrow> string \<Rightarrow> int \<Rightarrow> bot_db \<Rightarrow> exn + bot_db" where
  "add_market run_id m state now db =
     (if has_market (m_slug m) db then
        Raise (IntegrityError ''UNIQUE constraint failed: markets.slug'')
      else if \<not> has_run run_id db then Raise foreign_key_error
      else Return (db\<lparr>db_markets := db_markets db @
             [\<lparr>mr_run_id = run_id, mr_market = m, mr_state = state, mr_error = None,
               mr_updated_ts = now\<rparr>]\<rparr>))"

definition prepare_market :: "int \<Rightarrow> market \<Rightarrow> string \<Rightarrow> int \<Rightarrow> bot_db \<Rightarrow> exn + bot_db" where
  "prepare_market run_id m state now db =
     (if \<not> has_market (m_slug m) db then add_market run_id m state now db
      else if \<not> has_run run_id db then Raise foreign_key_error
      else Return (db\<lparr>db_markets := table_update mr_slug (m_slug m)
             (\<lambda>r. r\<lparr>mr_run_id := run_id, mr_market := m, mr_state := state, mr_error := None,
                    mr_updated_ts := now\<rparr>) (db_markets db)\<rparr>))"

definition set_market_state :: "string \<Rightarrow> string \<Rightarrow> string option \<Rightarrow> int \<Rightarrow> bot_db \<Rightarrow> bot_db" where
  "set_market_state slug state error now db =
     db\<lparr>db_markets := table_update mr_slug slug
          (\<lambda>r. r\<lparr>mr_state := state, mr_error := error, mr_updated_ts := now\<rparr>) (db_markets db)\<rparr>"

definition market_for_condition :: "string \<Rightarrow> int \<Rightarrow> bot_db \<Rightarrow> market_row option" where
  "market_for_condition condition_id run_id db =
     find (\<lambda>r. m_condition_id (mr_market r) = condition_id \<and> mr_run_id r = run_id) (db_markets db)"

subsection \<open>Orders\<close>

definition order_row_of :: "int \<Rightarrow> string \<Rightarrow> placed_order \<Rightarrow> int \<Rightarrow> order_row" where
  "order_row_of run_id slug p now =
     \<lparr>o_order_id = po_order_id p, o_run_id = run_id, o_slug = slug, o_outcome = po_outcome p,
      o_token_id = po_token_id p, o_side = po_side p, o_role = po_role p, o_account = po_account p,
      o_price = po_price p, o_size = po_size p,
      o_matched_size = (if po_status p \<in> {''matched'', ''filled''} then po_size p else 0),
      o_status = po_status p, o_raw = po_raw p, o_created_ts = now, o_updated_ts = now\<rparr>"

definition add_order :: "int \<Rightarrow> string \<Rightarrow> placed_order \<Rightarrow> int \<Rightarrow> bot_db \<Rightarrow> exn + bot_db" where
  "add_order run_id slug p now db =
     (if \<not> has_run run_id db \<or> \<not> has_market slug db then Raise foreign_key_error
      else Return (db\<lparr>db_orders := table_replace o_order_id (order_row_of run_id slug p now) (db_orders db)\<rparr>))"

definition db_order :: "string \<Rightarrow> bot_db \<Rightarrow> order_row option" where
  "db_order order_id db = table_find o_order_id order_id (db_orders db)"

definition update_order :: "string \<Rightarrow> string \<Rightarrow> rat \<Rightarrow> json \<Rightarrow> int \<Rightarrow> bot_db \<Rightarrow> bot_db" where
  "update_order order_id status matched_size raw now db =
     db\<lparr>db_orders := table_update o_order_id order_id
          (\<lambda>r. r\<lparr>o_status := status, o_matched_size := matched_size, o_raw := raw,
                 o_updated_ts := now\<rparr>) (db_orders db)\<rparr>"

definition mark_orders :: "string list \<Rightarrow> string \<Rightarrow> int \<Rightarrow> bot_db \<Rightarrow> bot_db" where
  "mark_orders order_ids status now db =
     (if order_ids = [] then db
      else db\<lparr>db_orders := map (\<lambda>r. if o_order_id r \<in> set order_ids
             then r\<lparr>o_status := status, o_updated_ts := now\<rparr> else r) (db_orders db)\<rparr>)"

subsection \<open>Queries\<close>

definition open_states :: "string list" where
  "open_states = [''open'', ''live'', ''delayed'', ''unmatched'', ''simulated'']"

definition tracked_states :: "string list" where
  "tracked_states = open_states @ [''cancel_requested'']"

text \<open>An order row joined with its market.\<close>

type_synonym tracked = "order_row \<times> market"

definition join_market :: "bot_db \<Rightarrow> order_row \<Rightarrow> tracked option" where
  "join_market db r =
     map_option (\<lambda>m. (r, mr_market m)) (table_find mr_slug (o_slug r) (db_markets db))"

definition tracked_open_orders :: "bot_db \<Rightarrow> tracked list" where
  "tracked_open_orders db =
     sort_key (\<lambda>(r, m). o_created_ts r)
       (List.map_filter (join_market db) (filter (\<lambda>r. o_status r \<in> set tracked_states) (db_orders db)))"

definition due_open_orders :: "rat \<Rightarrow> bot_db \<Rightarrow> tracked list" where
  "due_open_orders cutoff_ts db =
     sort_key (\<lambda>(r, m). (m_end_ts m, o_created_ts r))
       (filter (\<lambda>(r, m). of_int (m_end_ts m) \<le> cutoff_ts)
         (List.map_filter (join_market db) (filter (\<lambda>r. o_status r \<in> set open_states) (db_orders db))))"

definition open_remainder :: "order_row \<Rightarrow> rat" where
  "open_remainder r = max 0 (dsub (o_size r) (o_matched_size r))"

definition active_reserved_usd :: "bot_db \<Rightarrow> rat" where
  "active_reserved_usd db =
     dsum (map (\<lambda>r. dmul (o_price r) (open_remainder r))
       (filter (\<lambda>r. o_side r = ''buy'' \<and> o_status r \<in> set tracked_states) (db_orders db)))"

text \<open>\<open>now\<close> is the present second; the day starts at midnight UTC.\<close>

definition daily_filled_cost :: "int \<Rightarrow> bot_db \<Rightarrow> rat" where
  "daily_filled_cost now db =
     (let day_start = now - now mod 86400 in
      dsum (map (\<lambda>r. dmul (o_price r) (o_matched_size r))
        (filter (\<lambda>r. day_start \<le> o_created_ts r \<and> o_role r = ''entry'' \<and> o_side r = ''buy'')
          (db_orders db))))"

definition entry_orders_with_fills :: "bot_db \<Rightarrow> tracked list" where
  "entry_orders_with_fills db =
     sort_key (\<lambda>(r, m). o_created_ts r)
       (List.map_filter (join_market db)
         (filter (\<lambda>r. o_role r = ''entry'' \<and> 0 < to_double (o_matched_size r)) (db_orders db)))"

definition exit_active_states :: "string list" where
  "exit_active_states = [''open'', ''live'', ''delayed'', ''unmatched'', ''cancel_requested'']"

definition handle_exit_row :: "rat \<Rightarrow> order_row \<Rightarrow> rat" where
  "handle_exit_row acc r =
     (let acc = dadd acc (o_matched_size r) in
      if o_status r \<in> set exit_active_states then dadd acc (open_remainder r)
      else if o_status r = ''failed'' then dadd acc (o_size r)
      else acc)"

definition exit_handled_size :: "string \<Rightarrow> string \<Rightarrow> rat \<Rightarrow> bot_db \<Rightarrow> rat" where
  "exit_handled_size slug outcome price db =
     foldl handle_exit_row 0
       (filter (\<lambda>r. o_slug r = slug \<and> o_outcome r = outcome \<and> o_role r = ''exit'' \<and>
          to_double (o_price r) = to_double price) (db_orders db))"

definition active_exit_reserved_size :: "string \<Rightarrow> string \<Rightarrow> bot_db \<Rightarrow> rat" where
  "active_exit_reserved_size slug outcome db =
     dsum (map open_remainder
       (filter (\<lambda>r. o_slug r = slug \<and> o_outcome r = outcome \<and> o_role r = ''exit'' \<and>
          o_status r \<in> set exit_active_states) (db_orders db)))"

record db_status =
  st_latest_run :: "run_row option"
  st_markets :: nat
  st_orders :: "(string, nat) dict"
  st_active_reserved_usd :: rat
  st_daily_filled_cost :: rat
  st_last_events :: "event_row list"

definition status_counts :: "order_row list \<Rightarrow> (string, nat) dict" where
  "status_counts rows =
     map (\<lambda>s. (s, length (filter (\<lambda>r. o_status r = s) rows))) (uniq (map o_status rows))"

definition bot_status :: "int \<Rightarrow> bot_db \<Rightarrow> db_status" where
  "bot_status now db =
     \<lparr>st_latest_run = (if db_runs db = [] then None else Some (last (db_runs db))),
      st_markets = length (db_markets db), st_orders = status_counts (db_orders db),
      st_active_reserved_usd = active_reserved_usd db,
      st_daily_filled_cost = daily_filled_cost now db,
      st_last_events = take 10 (rev (db_events db))\<rparr>"

subsection \<open>Integrity\<close>

text \<open>The statements that write, and their effect: one that raises changes nothing.\<close>

datatype db_op =
    StartRun string
  | StopRun int string "string option"
  | LogEvent "int option" string string "string option"
  | AddMarket int market string
  | PrepareMarket int market string
  | SetMarketState string string "string option"
  | AddOrder int string placed_order
  | UpdateOrder string string rat json
  | MarkOrders "string list" string

definition or_unchanged :: "bot_db \<Rightarrow> exn + bot_db \<Rightarrow> bot_db" where
  "or_unchanged db r = (case r of Inl _ \<Rightarrow> db | Inr db' \<Rightarrow> db')"

fun db_exec :: "db_op \<times> int \<Rightarrow> bot_db \<Rightarrow> bot_db" where
  "db_exec (StartRun mode, now) db = snd (start_run mode now db)"
| "db_exec (StopRun rid status error, now) db = stop_run rid status error now db"
| "db_exec (LogEvent rid level type slug, now) db = log_event rid level type slug now db"
| "db_exec (AddMarket rid m state, now) db = or_unchanged db (add_market rid m state now db)"
| "db_exec (PrepareMarket rid m state, now) db = or_unchanged db (prepare_market rid m state now db)"
| "db_exec (SetMarketState slug state error, now) db = set_market_state slug state error now db"
| "db_exec (AddOrder rid slug p, now) db = or_unchanged db (add_order rid slug p now db)"
| "db_exec (UpdateOrder oid status matched raw, now) db = update_order oid status matched raw now db"
| "db_exec (MarkOrders ids status, now) db = mark_orders ids status now db"

definition db_ok :: "bot_db \<Rightarrow> bool" where
  "db_ok db \<longleftrightarrow>
     map r_id (db_runs db) = map int [1..<Suc (length (db_runs db))] \<and>
     distinct (map mr_slug (db_markets db)) \<and> distinct (map o_order_id (db_orders db)) \<and>
     (\<forall>m \<in> set (db_markets db). mr_run_id m \<in> r_id ` set (db_runs db)) \<and>
     (\<forall>r \<in> set (db_orders db). o_run_id r \<in> r_id ` set (db_runs db) \<and>
        o_slug r \<in> mr_slug ` set (db_markets db))"

lemma has_run_iff: "has_run rid db \<longleftrightarrow> rid \<in> r_id ` set (db_runs db)"
  by (auto simp: has_run_def table_find_None)

lemma has_market_iff: "has_market slug db \<longleftrightarrow> slug \<in> mr_slug ` set (db_markets db)"
  by (auto simp: has_market_def table_find_None)

lemma key_set: "map key xs = map key' ys \<Longrightarrow> key ` set xs = key' ` set ys"
  by (metis list.set_map)

lemma db_ok_intro:
  assumes "db_ok db"
    and "map r_id (db_runs db') = map r_id (db_runs db)"
    and "map mr_slug (db_markets db') = map mr_slug (db_markets db)"
    and "map o_order_id (db_orders db') = map o_order_id (db_orders db)"
    and "\<And>m. m \<in> set (db_markets db') \<Longrightarrow> mr_run_id m \<in> r_id ` set (db_runs db)"
    and "\<And>r. r \<in> set (db_orders db') \<Longrightarrow>
      o_run_id r \<in> r_id ` set (db_runs db) \<and> o_slug r \<in> mr_slug ` set (db_markets db)"
  shows "db_ok db'"
  using assms key_set [OF assms(2)] key_set [OF assms(3)] map_eq_imp_length_eq [OF assms(2)]
  by (simp add: db_ok_def)

lemma db_ok_simps:
  "db_ok db \<Longrightarrow> m \<in> set (db_markets db) \<Longrightarrow> mr_run_id m \<in> r_id ` set (db_runs db)"
  "db_ok db \<Longrightarrow> r \<in> set (db_orders db) \<Longrightarrow> o_run_id r \<in> r_id ` set (db_runs db)"
  "db_ok db \<Longrightarrow> r \<in> set (db_orders db) \<Longrightarrow> o_slug r \<in> mr_slug ` set (db_markets db)"
  by (simp_all add: db_ok_def)

lemma start_run_ok: "db_ok db \<Longrightarrow> db_ok (snd (start_run mode now db))"
  by (auto simp: db_ok_def start_run_def Let_def)

lemma add_market_ok: "db_ok db \<Longrightarrow> db_ok (or_unchanged db (add_market rid m state now db))"
  by (auto simp: or_unchanged_def add_market_def db_ok_def has_run_iff has_market_iff)

lemma prepare_market_ok: "db_ok db \<Longrightarrow> db_ok (or_unchanged db (prepare_market rid m state now db))"
proof (cases "has_market (m_slug m) db")
  case True
  assume ok: "db_ok db"
  show ?thesis
  proof (cases "has_run rid db")
    case run: True
    have slugs: "map mr_slug (table_update mr_slug (m_slug m)
        (\<lambda>r. r\<lparr>mr_run_id := rid, mr_market := m, mr_state := state, mr_error := None,
               mr_updated_ts := now\<rparr>) (db_markets db)) = map mr_slug (db_markets db)"
      by (rule map_key_update) (simp add: mr_slug_def)
    show ?thesis
      using True run ok db_ok_simps [OF ok] slugs
      by (intro db_ok_intro [OF ok])
        (auto simp: or_unchanged_def prepare_market_def set_update has_run_iff)
  qed (use True ok in \<open>simp add: or_unchanged_def prepare_market_def\<close>)
qed (simp add: prepare_market_def add_market_ok)

lemma add_order_ok: "db_ok db \<Longrightarrow> db_ok (or_unchanged db (add_order rid slug p now db))"
  by (auto simp: or_unchanged_def add_order_def db_ok_def has_run_iff has_market_iff
      distinct_replace set_replace order_row_of_def)

lemma db_exec_ok: "db_ok db \<Longrightarrow> db_ok (db_exec op db)"
proof (induction op db rule: db_exec.induct)
  case (1 mode now db)
  then show ?case by (simp add: start_run_ok)
next
  case (2 rid status error now db)
  then show ?case using db_ok_simps
    by (intro db_ok_intro [OF "2.prems"]) (auto simp: stop_run_def)
next
  case (3 rid level type slug now db)
  then show ?case by (simp add: db_ok_def log_event_def)
next
  case (4 rid m state now db)
  then show ?case by (simp add: add_market_ok)
next
  case (5 rid m state now db)
  then show ?case by (simp add: prepare_market_ok)
next
  case (6 slug state error now db)
  then show ?case using db_ok_simps
    by (intro db_ok_intro [OF "6.prems"]) (auto simp: set_market_state_def set_update)
next
  case (7 rid slug p now db)
  then show ?case by (simp add: add_order_ok)
next
  case (8 oid status matched raw now db)
  then show ?case using db_ok_simps
    by (intro db_ok_intro [OF "8.prems"]) (auto simp: update_order_def set_update)
next
  case (9 ids status now db)
  then show ?case using db_ok_simps
    by (cases "ids = []") (auto simp: mark_orders_def intro!: db_ok_intro [OF "9.prems"])
qed

lemma db_ok_empty [simp]: "db_ok empty_db"
  by (simp add: db_ok_def empty_db_def)

lemma fold_db_exec_ok: "db_ok db \<Longrightarrow> db_ok (fold db_exec ops db)"
  by (induction ops arbitrary: db) (auto intro: db_exec_ok)

text \<open>
  Whatever statements the program runs, in whatever order and with whatever failures: run
  ids count up from one, no slug and no order id is stored twice, every market belongs to a
  stored run, and every order to a stored run and a stored market.
\<close>

theorem database_integrity: "db_ok (fold db_exec ops empty_db)"
  by (simp add: fold_db_exec_ok)

subsection \<open>The order table as a store\<close>

definition put_order :: "order_row \<Rightarrow> bot_db \<Rightarrow> bot_db" where
  "put_order r db = db\<lparr>db_orders := table_replace o_order_id r (db_orders db)\<rparr>"

definition touch_order :: "string \<Rightarrow> (order_row \<Rightarrow> order_row) \<Rightarrow> bot_db \<Rightarrow> bot_db" where
  "touch_order oid f db = db\<lparr>db_orders := table_update o_order_id oid f (db_orders db)\<rparr>"

interpretation order_store: keyed_store db_order put_order touch_order o_order_id
  by unfold_locales (auto simp: db_order_def put_order_def touch_order_def)

lemma db_order_frame [simp]:
  "db_order k (db\<lparr>db_runs := a\<rparr>) = db_order k db" "db_order k (db\<lparr>db_markets := b\<rparr>) = db_order k db"
  "db_order k (db\<lparr>db_events := c\<rparr>) = db_order k db"
  by (simp_all add: db_order_def)

lemma add_order_put:
  "add_order rid slug p now db =
     (if has_run rid db \<and> has_market slug db then Return (put_order (order_row_of rid slug p now) db)
      else Raise foreign_key_error)"
  by (simp add: add_order_def put_order_def)

lemma update_order_touch:
  "update_order oid status matched raw now db =
     touch_order oid (\<lambda>r. r\<lparr>o_status := status, o_matched_size := matched, o_raw := raw,
       o_updated_ts := now\<rparr>) db"
  by (simp add: update_order_def touch_order_def)

lemma db_order_update:
  "db_order k (update_order oid status matched raw now db) =
     (if k = oid then map_option (\<lambda>r. r\<lparr>o_status := status, o_matched_size := matched, o_raw := raw,
        o_updated_ts := now\<rparr>) (db_order k db) else db_order k db)"
  by (simp add: update_order_touch order_store.get_touch)

lemma db_order_mark:
  "db_order k (mark_orders ids status now db) =
     (if k \<in> set ids then map_option (\<lambda>r. r\<lparr>o_status := status, o_updated_ts := now\<rparr>) (db_order k db)
      else db_order k db)"
proof -
  have marked: "find (\<lambda>r. o_order_id r = k) (map (\<lambda>r. if o_order_id r \<in> set ids
          then r\<lparr>o_status := status, o_updated_ts := now\<rparr> else r) rows) =
      (if k \<in> set ids then map_option (\<lambda>r. r\<lparr>o_status := status, o_updated_ts := now\<rparr>)
         (find (\<lambda>r. o_order_id r = k) rows) else find (\<lambda>r. o_order_id r = k) rows)" for rows
    by (induction rows) auto
  show ?thesis by (cases "ids = []") (simp_all add: db_order_def table_find_def mark_orders_def marked)
qed

lemma order_row_of_simps [simp]:
  "o_order_id (order_row_of rid slug p now) = po_order_id p"
  "o_slug (order_row_of rid slug p now) = slug" "o_side (order_row_of rid slug p now) = po_side p"
  "o_role (order_row_of rid slug p now) = po_role p" "o_status (order_row_of rid slug p now) = po_status p"
  "o_price (order_row_of rid slug p now) = po_price p" "o_size (order_row_of rid slug p now) = po_size p"
  "o_outcome (order_row_of rid slug p now) = po_outcome p"
  "o_account (order_row_of rid slug p now) = po_account p"
  by (simp_all add: order_row_of_def)

subsection \<open>The reserve\<close>

definition reserves :: "order_row \<Rightarrow> bool" where
  "reserves r \<longleftrightarrow> o_side r = ''buy'' \<and> o_status r \<in> set tracked_states"

definition reserve_of :: "order_row \<Rightarrow> rat" where
  "reserve_of r = dmul (o_price r) (open_remainder r)"

lemma active_reserved_alt:
  "active_reserved_usd db = dsum (map reserve_of (filter reserves (db_orders db)))"
  by (simp add: active_reserved_usd_def reserves_def [abs_def] reserve_of_def [abs_def])

lemma filter_replace_fresh:
  "key r \<notin> key ` set rows \<Longrightarrow> table_replace key r rows = rows @ [r]"
  unfolding table_replace_def by (subst filter_True) (simp, metis imageI, simp)

text \<open>
  The reserve counts an entry from the moment it is written down: recording a new, open
  buy order raises the reserved dollars by exactly its price times its size (as Decimal
  arithmetic gives them), and from then on marking any orders with a status that is no
  longer tracked leaves the others' share standing.
\<close>

theorem reserve_counts_entry:
  assumes "add_order rid slug p now db = Return db'"
    and "po_side p = ''buy''" "po_status p \<in> set tracked_states"
    and "drep (po_size p)" "0 \<le> po_size p" "db_order (po_order_id p) db = None"
    and "status \<notin> set tracked_states"
  shows "active_reserved_usd db' = dadd (active_reserved_usd db) (dmul (po_price p) (po_size p)) \<and>
    active_reserved_usd (mark_orders ids status now' db') =
      dsum (map reserve_of (filter (\<lambda>r. reserves r \<and> o_order_id r \<notin> set ids) (db_orders db')))"
proof
  let ?r = "order_row_of rid slug p now"
  have fresh: "o_order_id ?r \<notin> o_order_id ` set (db_orders db)"
    using assms(6) by (simp add: db_order_def table_find_None)
  have db': "db_orders db' = db_orders db @ [?r]"
    using assms(1) filter_replace_fresh [OF fresh]
    by (auto simp: add_order_put put_order_def split: if_splits)
  have "reserves ?r" using assms(2,3) by (simp add: reserves_def)
  moreover have "reserve_of ?r = dmul (po_price p) (po_size p)"
    using assms(3,4,5) by (auto simp: reserve_of_def open_remainder_def order_row_of_def
        tracked_states_def open_states_def)
  ultimately show "active_reserved_usd db' =
      dadd (active_reserved_usd db) (dmul (po_price p) (po_size p))"
    by (simp add: active_reserved_alt db' dsum_snoc)
  have "map reserve_of (filter reserves (map (\<lambda>r. if o_order_id r \<in> set ids
          then r\<lparr>o_status := status, o_updated_ts := now'\<rparr> else r) rows)) =
      map reserve_of (filter (\<lambda>r. reserves r \<and> o_order_id r \<notin> set ids) rows)" for rows
    using assms(7) by (induction rows) (auto simp: reserves_def)
  then show "active_reserved_usd (mark_orders ids status now' db') =
      dsum (map reserve_of (filter (\<lambda>r. reserves r \<and> o_order_id r \<notin> set ids) (db_orders db')))"
    by (cases "ids = []") (simp_all add: active_reserved_alt mark_orders_def)
qed

subsection \<open>A concrete database\<close>

definition example_db :: bot_db where
  "example_db = fold db_exec
     [(StartRun ''live'', 1700000000), (PrepareMarket 1 example_mkt ''placing'', 1700000000)] empty_db"

lemma example_db_rows:
  "example_db =
     \<lparr>db_runs = [\<lparr>r_id = 1, r_started_ts = 1700000000, r_stopped_ts = None, r_mode = ''live'',
        r_status = ''running'', r_last_error = None\<rparr>],
      db_markets = [\<lparr>mr_run_id = 1, mr_market = example_mkt, mr_state = ''placing'',
        mr_error = None, mr_updated_ts = 1700000000\<rparr>],
      db_orders = [], db_events = []\<rparr>"
  by (simp add: example_db_def empty_db_def start_run_def prepare_market_def add_market_def
      has_market_def has_run_def table_find_def or_unchanged_def)

lemma drep_10 [simp]: "drep 10"
  using on_grid_drep [of 0 10] by (simp add: on_grid_def)

theorem reserve_counts_entry_witness:
  "\<exists>db'. add_order 1 ''btc-updown-5m-1700000100'' (example_order ''0x1'' ''up'') 1700000001 example_db = Return db' \<and>
     active_reserved_usd db' = 5"
proof -
  let ?o = "example_order ''0x1'' ''up''"
  obtain db' where db': "add_order 1 ''btc-updown-5m-1700000100'' ?o 1700000001 example_db = Return db'"
    by (simp add: add_order_put has_run_def has_market_def example_db_rows table_find_def
        mr_slug_def example_mkt_def)
  have "db_order ''0x1'' example_db = None" by (simp add: example_db_rows db_order_def)
  then have "active_reserved_usd db' = dadd (active_reserved_usd example_db) (dmul (1/2) 10)"
    using reserve_counts_entry [OF db', of "''cancelled''" "[]" 0]
    by (simp add: tracked_states_def open_states_def)
  also have "\<dots> = 5"
    by (simp add: active_reserved_usd_def example_db_rows dec_eval)
  finally show ?thesis using db' by blast
qed

end
