(* ===== verification/Knocker.thy ===== *)
theory Knocker
  imports Json_Text
begin

text \<open>
  The Python side of \<open>polymarket_bot/knocker.py\<close>: the wording of replies, the record of one
  attempt, the wait for a knock that holds a Ctrl+C until the result is there, and the
  selection of the library's sources. The library itself is reached through ctypes; its
  judgement of a reply and the outcome of a knock are parameters.
\<close>

subsection \<open>Verdicts and outcomes\<close>

record verdict =
  vd_trace :: string
  vd_accepted :: bool
  vd_order_id :: "string option"
  vd_duplicate_id :: "string option"
  vd_not_ready :: bool

text \<open>
  What the library reports of one account: an accepted order, and the ways a send ended
  without a verdict or an order.
\<close>

record accepted_order =
  ao_order_id :: json
  ao_outcome :: string
  ao_status :: int
  ao_body :: string

datatype knock_item = KnockText string | KnockReply int string

record member_outcome =
  mo_account :: string
  mo_attempts :: int
  mo_held_back :: int
  mo_registered_ms :: "int option"
  mo_accepted :: "accepted_order list"
  mo_ambiguous :: "knock_item list"
  mo_errors :: "knock_item list"
  mo_gave_up :: bool

subsection \<open>Wording replies\<close>

text \<open>\<open>_parsed\<close>: the JSON of a body, or the body itself.\<close>

definition parsed :: "string \<Rightarrow> json" where
  "parsed body = (case loads body of Some v \<Rightarrow> v | None \<Rightarrow> JStr body)"

definition knock_exception_text :: "int \<Rightarrow> json \<Rightarrow> string" where
  "knock_exception_text status error_msg =
     ''PolyApiException[status_code='' @ show_int status @ '', error_message='' @ py_str error_msg @ '']''"

definition reply_value :: "int \<Rightarrow> string \<Rightarrow> json" where
  "reply_value status body =
     (if status = 200 then parsed body
      else let error_msg = parsed body;
               payload = (if is_dict error_msg then as_dict error_msg else []);
               message = py_str (por (pget ''error'' payload)
                           (por error_msg (JStr (knock_exception_text status error_msg))))
           in JObj [(''errorMsg'', JStr message), (''success'', JBool False)])"

fun error_text :: "knock_item \<Rightarrow> string" where
  "error_text (KnockText t) = t"
| "error_text (KnockReply status body) =
     (let t = py_str (reply_value status body) in if t = [] then ''partial placement'' else t)"

fun ambiguous_text :: "knock_item \<Rightarrow> string" where
  "ambiguous_text (KnockText t) = t"
| "ambiguous_text (KnockReply status body) =
     (if status = 0 then
        ''PolyApiException: PolyApiException[status_code=None, error_message=Request exception!]''
      else ''PolyApiException: '' @ knock_exception_text status (parsed body))"

subsection \<open>Recording an attempt\<close>

record attempt =
  at_account :: string
  at_attempt :: int
  at_legs :: json
  at_sent_ts_ms :: int
  at_returned_ts_ms :: int
  at_results :: json
  at_version_mismatch :: bool

record knock_hooks =
  kh_trace :: bool
  kh_version_mismatch :: bool

datatype hook_call = TraceCall string int | VersionMismatchCall string

definition record_attempt :: "(string, knock_hooks) dict \<Rightarrow> attempt \<Rightarrow> hook_call list" where
  "record_attempt hooks a =
     (case dict_get hooks (at_account a) of
        None \<Rightarrow> []
      | Some h \<Rightarrow>
          (if kh_trace h then [TraceCall (at_account a) (at_attempt a)] else []) @
          (if at_version_mismatch a \<and> kh_version_mismatch h
           then [VersionMismatchCall (at_account a)] else []))"

subsection \<open>Waiting for a knock\<close>

text \<open>
  One pass of the wait: where in it a Ctrl+C arrived, if any, and otherwise whether the
  knock's thread is still alive after the join. \<open>InterruptedStopping\<close> is a Ctrl+C during
  the call that asks the library to stop, which is then asked again.
\<close>

datatype knock_pass = InterruptedStopping | InterruptedJoining | Joined bool

record knock_wait =
  kw_interrupted :: bool
  kw_stopped :: bool
  kw_stop_calls :: nat

definition knock_wait_init :: knock_wait where
  "knock_wait_init = \<lparr>kw_interrupted = False, kw_stopped = False, kw_stop_calls = 0\<rparr>"

definition ask_stop :: "knock_wait \<Rightarrow> knock_wait" where
  "ask_stop w =
     (if kw_interrupted w \<and> \<not> kw_stopped w
      then w\<lparr>kw_stopped := True, kw_stop_calls := Suc (kw_stop_calls w)\<rparr> else w)"

fun knock_loop :: "knock_pass list \<Rightarrow> knock_wait \<Rightarrow> knock_wait option" where
  "knock_loop [] w = None"
| "knock_loop (InterruptedStopping # ps) w = knock_loop ps (w\<lparr>kw_interrupted := True\<rparr>)"
| "knock_loop (InterruptedJoining # ps) w = knock_loop ps ((ask_stop w)\<lparr>kw_interrupted := True\<rparr>)"
| "knock_loop (Joined alive # ps) w =
     (if alive then knock_loop ps (ask_stop w) else Some (ask_stop w))"

text \<open>
  \<open>knock\<close> returns what the thread left, result or exception, and raises the pending flag;
  \<open>take_interrupt\<close> reads and clears it. \<open>None\<close>: the thread has not ended in these passes.
\<close>

definition knock :: "exn + 'a \<Rightarrow> knock_pass list \<Rightarrow> bool \<Rightarrow> ((exn + 'a) \<times> bool) option" where
  "knock outcome passes pending =
     map_option (\<lambda>w. (outcome, pending \<or> kw_interrupted w)) (knock_loop passes knock_wait_init)"

definition take_interrupt :: "bool \<Rightarrow> bool \<times> bool" where
  "take_interrupt pending = (pending, False)"

subsection \<open>The library's sources\<close>

definition endswith :: "string \<Rightarrow> string \<Rightarrow> bool" where
  "endswith s p = startswith (rev s) (rev p)"

definition library_source :: "string \<Rightarrow> bool" where
  "library_source relative =
     (if relative \<in> {''go.mod'', ''go.sum''} then True
      else if \<not> endswith relative ''.go'' \<or> endswith relative ''_test.go'' then False
      else \<not> (startswith relative ''cmd/'' \<or> startswith relative ''internal/fakevenue/'' \<or>
               startswith relative ''build/''))"

subsection \<open>A stop is held, never lost\<close>

fun interrupts :: "knock_pass list \<Rightarrow> bool" where
  "interrupts [] = False"
| "interrupts (Joined alive # ps) = (alive \<and> interrupts ps)"
| "interrupts (_ # ps) = True"

lemma knock_loop_interrupted:
  "knock_loop ps w = Some w' \<Longrightarrow> kw_interrupted w' = (kw_interrupted w \<or> interrupts ps)"
  by (induction ps w rule: knock_loop.induct) (auto simp: ask_stop_def split: if_splits)

text \<open>At most one request to stop goes through, and only after a Ctrl+C.\<close>

definition stop_ok :: "knock_wait \<Rightarrow> bool" where
  "stop_ok w \<longleftrightarrow> kw_stop_calls w = (if kw_stopped w then 1 else 0) \<and> (kw_stopped w \<longrightarrow> kw_interrupted w)"

lemma ask_stop_ok: "stop_ok w \<Longrightarrow> stop_ok (ask_stop w)"
  by (auto simp: stop_ok_def ask_stop_def)

lemma interrupted_ok: "stop_ok w \<Longrightarrow> stop_ok (w\<lparr>kw_interrupted := True\<rparr>)"
  by (simp add: stop_ok_def)

lemma knock_loop_stop_ok: "knock_loop ps w = Some w' \<Longrightarrow> stop_ok w \<Longrightarrow> stop_ok w'"
  by (induction ps w rule: knock_loop.induct)
    (auto simp: ask_stop_ok interrupted_ok split: if_splits)

lemma knock_loop_asks:
  "knock_loop ps w = Some w' \<Longrightarrow> kw_interrupted w' \<Longrightarrow> kw_stopped w'"
  by (induction ps w rule: knock_loop.induct) (auto simp: ask_stop_def split: if_splits)

text \<open>
  C32. A Ctrl+C during a knock neither loses the knock's result nor gets lost: \<open>knock\<close> hands
  back exactly what the thread left, the library was asked to stop exactly once if a Ctrl+C
  came and never otherwise, and \<open>take_interrupt\<close> then reports the stop exactly once.
\<close>

theorem knock_holds_the_stop:
  assumes "knock outcome passes False = Some (result, pending)"
    and "knock_loop passes knock_wait_init = Some w"
  shows "result = outcome \<and> fst (take_interrupt pending) = interrupts passes \<and>
    \<not> fst (take_interrupt (snd (take_interrupt pending))) \<and>
    kw_stop_calls w = (if interrupts passes then 1 else 0)"
proof -
  have i: "kw_interrupted w = interrupts passes"
    using knock_loop_interrupted [OF assms(2)] by (simp add: knock_wait_init_def)
  have "stop_ok knock_wait_init" by (simp add: stop_ok_def knock_wait_init_def)
  then have "stop_ok w" by (rule knock_loop_stop_ok [OF assms(2)])
  moreover have "kw_interrupted w \<Longrightarrow> kw_stopped w" by (rule knock_loop_asks [OF assms(2)])
  ultimately show ?thesis using assms i
    by (auto simp: knock_def take_interrupt_def stop_ok_def)
qed

theorem knock_holds_the_stop_witness:
  "knock (Return (7 :: int)) [Joined True, InterruptedJoining, InterruptedStopping, Joined True, Joined False]
     False = Some (Return 7, True) \<and>
   fst (take_interrupt True) = interrupts [Joined True, InterruptedJoining, InterruptedStopping, Joined True, Joined False]"
proof -
  let ?ps = "[Joined True, InterruptedJoining, InterruptedStopping, Joined True, Joined False]"
  have w: "knock_loop ?ps knock_wait_init = Some \<lparr>kw_interrupted = True, kw_stopped = True, kw_stop_calls = 1\<rparr>"
    by code_simp
  have k: "knock (Return (7 :: int)) ?ps False = Some (Return 7, True)"
    unfolding knock_def w by simp
  from knock_holds_the_stop [OF k w] k show ?thesis by blast
qed

end
