(* ===== verification/Exchange.thy ===== *)
theory Exchange
  imports Models Knocker
begin

text \<open>
  \<open>polymarket_bot/exchange.py\<close>: signing an entry for a knock, settling what the knock came
  to, reconciling a submission whose reply was lost, exits, and the reading of order
  payloads. The venue's client, the knock library and the clock are parameters (\<open>venue\<close>,
  \<open>sign_pass\<close>); an order the client has signed is an opaque text. The state is what the
  object keeps between calls; \<open>ex_cancelled\<close> also logs the cancel requests it sends.
\<close>

subsection \<open>The venue\<close>

type_synonym signed_order = string

record order_args =
  oa_token_id :: string
  oa_price :: rat
  oa_size :: rat
  oa_side :: string
  oa_tick_size :: rat

record preview_spec =
  pv_url :: string
  pv_poll_ms :: rat
  pv_bursts :: "(rat \<times> rat \<times> rat) list"
  pv_give_up_ms :: rat

record plan_member =
  pm_account :: string
  pm_phase_ms :: rat
  pm_legs :: "(string \<times> string) list"

record knock_plan =
  kp_market :: string
  kp_interval_ms :: rat
  kp_knock_until_ms :: int
  kp_market_end_ms :: int
  kp_members :: "plan_member list"
  kp_preview :: "preview_spec option"

record venue =
  ve_classify :: "json \<Rightarrow> exn + verdict"
  ve_sign :: "order_args \<Rightarrow> exn + signed_order"
  ve_order_body :: "signed_order \<Rightarrow> string"
  ve_post :: "signed_order \<Rightarrow> exn + json"
  ve_cancel :: "string list \<Rightarrow> exn + json"
  ve_open_orders :: "string option \<Rightarrow> exn + json list"
  ve_get_order :: "string \<Rightarrow> exn + json"
  ve_order_book :: "string \<Rightarrow> exn + unit"
  ve_balance :: "string \<Rightarrow> exn + json"
  ve_knock :: "knock_plan \<Rightarrow> exn + member_outcome list"

subsection \<open>State\<close>

type_synonym submission_key = "string \<times> string \<times> string \<times> rat \<times> rat"

record entry =
  en_market :: market
  en_price :: rat
  en_size :: rat
  en_specifications :: "(string \<times> string) list"
  en_legs :: "(string \<times> string) list"
  en_submission_key :: submission_key

record exchange =
  ex_entry_submission :: string
  ex_submissions :: "(submission_key, signed_order list) dict"
  ex_tick_sizes :: "(string, rat) dict option"
  ex_last_version_heal :: rat
  ex_cancelled :: "string list list"

definition exchange_init :: exchange where
  "exchange_init =
     \<lparr>ex_entry_submission = ''single'', ex_submissions = [], ex_tick_sizes = Some [],
      ex_last_version_heal = 0, ex_cancelled = []\<rparr>"

subsection \<open>Reading replies\<close>

definition order_id_of :: "venue \<Rightarrow> json \<Rightarrow> exn + string option" where
  "order_id_of v response =
     (if is_dict response then rbind (ve_classify v response) (\<lambda>vd. Return (vd_order_id vd))
      else Return None)"

definition accepted :: "venue \<Rightarrow> json \<Rightarrow> exn + bool" where
  "accepted v response =
     (if is_dict response then rbind (ve_classify v response) (\<lambda>vd. Return (vd_accepted vd))
      else Return False)"

text \<open>\<open>_order_id(raw) or raw.get("id")\<close> of an order payload.\<close>

definition order_ref :: "venue \<Rightarrow> json \<Rightarrow> exn + json" where
  "order_ref v raw =
     rbind (order_id_of v raw) (\<lambda>oid.
       Return (case oid of
                 Some s \<Rightarrow> if s = [] then pget ''id'' (as_dict raw) else JStr s
               | None \<Rightarrow> pget ''id'' (as_dict raw)))"

definition transient_submission_error :: "int option \<Rightarrow> bool" where
  "transient_submission_error status =
     (case status of None \<Rightarrow> True | Some s \<Rightarrow> s = 429 \<or> (500 \<le> s \<and> s < 600))"

definition signing_retryable :: "int option \<Rightarrow> json \<Rightarrow> bool" where
  "signing_retryable status error_msg =
     (let message = (if is_dict error_msg
                     then lower (py_str (por (pget ''error'' (as_dict error_msg)) (JStr []))) else [])
      in if status = Some 404 \<and> message = ''market not found'' then True
         else transient_submission_error status)"

definition normalize_order :: "payload \<Rightarrow> exn + string \<times> rat" where
  "normalize_order raw =
     (let status = lower (py_str (por (pget ''status'' raw) (por (pget ''type'' raw) (JStr ''unknown''))));
          status = (if startswith status ''order_status_'' then removeprefix status ''order_status_'' else status);
          status = (if status \<in> {''cancelled_market_resolved'', ''canceled_market_resolved''}
                    then ''cancelled'' else status)
      in rbind (dec_of (por (pget ''size_matched'' raw) (por (pget ''sizeMatched'' raw)
                 (por (pget ''matched_size'' raw) (JStr ''0''))))) (\<lambda>matched.
         Return (status, matched)))"

text \<open>The fields by which a reconciliation recognises an open order.\<close>

record open_order =
  oo_token_id :: string
  oo_price :: rat
  oo_size :: rat
  oo_side :: string
  oo_raw :: json

definition read_open_order :: "json \<Rightarrow> exn + open_order" where
  "read_open_order j =
     (if \<not> is_dict j then Raise (Raised ''AttributeError'' ''get'')
      else let raw = as_dict j in
        rbind (dec_of (por (pget ''price'' raw) (JStr ''0''))) (\<lambda>price.
        rbind (dec_of (por (pget ''original_size'' raw) (por (pget ''originalSize'' raw)
                 (por (pget ''size'' raw) (JStr ''0''))))) (\<lambda>sz.
        Return \<lparr>oo_token_id = py_str (por (pget ''asset_id'' raw) (por (pget ''assetId'' raw) (JStr []))),
                oo_price = price, oo_size = sz,
                oo_side = upper (py_str (por (pget ''side'' raw) (JStr []))), oo_raw = j\<rparr>)))"

definition status_or_open :: "json \<Rightarrow> string" where
  "status_or_open raw = lower (py_str (por (pget ''status'' (as_dict raw)) (JStr ''open'')))"

subsection \<open>The knock plan\<close>

definition KNOCK_SECONDS :: rat where "KNOCK_SECONDS = 240"
definition PREVIEW_POLL_MS :: rat where "PREVIEW_POLL_MS = 40"
definition PREVIEW_BURSTS :: "(rat \<times> rat \<times> rat) list" where
  "PREVIEW_BURSTS = [(262, 330, 3), (330, 450, 8), (450, 650, 16)]"
definition PREVIEW_GIVE_UP_MS :: rat where "PREVIEW_GIVE_UP_MS = 60000"
definition GAMMA_MARKETS_BY_SLUG :: string where
  "GAMMA_MARKETS_BY_SLUG = ''https://gamma-api.polymarket.com/markets/slug''"

definition to_ms :: "rat \<Rightarrow> int" where "to_ms t = dtrunc (to_double (t * 1000))"

definition knock_plan_of ::
  "market \<Rightarrow> plan_member list \<Rightarrow> rat \<Rightarrow> rat \<Rightarrow> preview_spec option \<Rightarrow> knock_plan" where
  "knock_plan_of m members interval_ms knock_until_ts preview =
     \<lparr>kp_market = m_slug m, kp_interval_ms = to_double interval_ms,
      kp_knock_until_ms = to_ms knock_until_ts, kp_market_end_ms = m_end_ts m * 1000,
      kp_members = members, kp_preview = preview\<rparr>"

definition preview_plan :: "market \<Rightarrow> preview_spec" where
  "preview_plan m =
     \<lparr>pv_url = GAMMA_MARKETS_BY_SLUG @ ''/'' @ m_slug m, pv_poll_ms = PREVIEW_POLL_MS,
      pv_bursts = PREVIEW_BURSTS, pv_give_up_ms = PREVIEW_GIVE_UP_MS\<rparr>"

definition knock_member :: "entry \<Rightarrow> string \<Rightarrow> rat \<Rightarrow> plan_member" where
  "knock_member en name phase_offset_ms =
     \<lparr>pm_account = name, pm_phase_ms = to_double phase_offset_ms, pm_legs = en_legs en\<rparr>"

subsection \<open>Signing\<close>

definition entry_specifications :: "exchange \<Rightarrow> market \<Rightarrow> (string \<times> string) list" where
  "entry_specifications ex m =
     (if ex_entry_submission ex = ''solo-up'' then [(''up'', m_up_token_id m)]
      else if ex_entry_submission ex = ''solo-down'' then [(''down'', m_down_token_id m)]
      else [(''up'', m_up_token_id m), (''down'', m_down_token_id m)])"

definition dual_submission_key :: "market \<Rightarrow> rat \<Rightarrow> rat \<Rightarrow> submission_key" where
  "dual_submission_key m price sz =
     (m_condition_id m, m_up_token_id m, m_down_token_id m, price, sz)"

definition forget_dual_submission :: "market \<Rightarrow> rat \<Rightarrow> rat \<Rightarrow> exchange \<Rightarrow> exchange" where
  "forget_dual_submission m price sz ex =
     ex\<lparr>ex_submissions := dict_pop (dual_submission_key m price sz) (ex_submissions ex)\<rparr>"

text \<open>The client's cache of tick sizes may be gone in another version of the client.\<close>

definition prime_tick_size :: "market \<Rightarrow> exchange \<Rightarrow> exn + exchange" where
  "prime_tick_size m ex =
     (case ex_tick_sizes ex of
        None \<Rightarrow> Raise (RuntimeError ''py_clob_client_v2 no longer keeps tick sizes'')
      | Some cache \<Rightarrow>
          Return (ex\<lparr>ex_tick_sizes := Some (dict_setdefault (m_down_token_id m) (m_tick_size m)
            (dict_setdefault (m_up_token_id m) (m_tick_size m) cache))\<rparr>))"

text \<open>One try at signing: the client's answers, the wall clock and the monotonic clock after it.\<close>

record sign_pass =
  sg_sign :: "order_args \<Rightarrow> exn + signed_order"
  sg_wall :: rat
  sg_now :: rat

definition buy_args :: "market \<Rightarrow> rat \<Rightarrow> rat \<Rightarrow> string \<Rightarrow> order_args" where
  "buy_args m price sz token_id =
     \<lparr>oa_token_id = token_id, oa_price = to_double price, oa_size = to_double sz,
      oa_side = ''BUY'', oa_tick_size = m_tick_size m\<rparr>"

definition signing_not_ready :: "exn \<Rightarrow> exn" where
  "signing_not_ready e = SigningNotReady (''signing not ready after 0.5s: '' @ exn_str e)"

text \<open>
  The loop of \<open>_sign_entries\<close>, from try number \<open>n\<close>; it also counts the tries. Every round
  moves the next slot at least the poll interval towards the deadline, so it ends.
\<close>

function sign_loop ::
  "market \<Rightarrow> rat \<Rightarrow> rat \<Rightarrow> (string \<times> string) list \<Rightarrow> (nat \<Rightarrow> sign_pass) \<Rightarrow> rat \<Rightarrow> rat \<Rightarrow> nat \<Rightarrow>
     (exn + signed_order list) \<times> nat" where
  "sign_loop m price sz specs passes deadline next_poll n =
     (let p = passes n in
      case rtraverse (\<lambda>(_, token_id). sg_sign p (buy_args m price sz token_id)) specs of
        Inr signed \<Rightarrow> (Return signed, Suc n)
      | Inl e \<Rightarrow>
          (case e of
             PolyApi status error_msg \<Rightarrow>
               if \<not> signing_retryable status error_msg then (Raise e, Suc n)
               else if of_int (m_end_ts m) \<le> sg_wall p then (Raise e, Suc n)
               else let now = sg_now p; next_poll' = max (next_poll + 1/10) now in
                 if deadline \<le> now \<or> deadline \<le> next_poll'
                 then (Raise (signing_not_ready e), Suc n)
                 else sign_loop m price sz specs passes deadline next_poll' (Suc n)
           | _ \<Rightarrow> (Raise e, Suc n)))"
  by pat_completeness auto
termination
proof (relation "measure (\<lambda>(m, price, sz, specs, passes, deadline, next_poll, n).
    nat \<lceil>(deadline - next_poll) * 10\<rceil>)", goal_cases)
  case (2 m price sz specs passes deadline next_poll n p e st msg now next_poll')
  then have bounds: "next_poll + 1/10 \<le> next_poll'" "next_poll' < deadline" by linarith+
  then have less: "(deadline - next_poll') * 10 \<le> (deadline - next_poll) * 10 - 1"
    "0 < (deadline - next_poll') * 10" by (simp_all add: field_simps)
  moreover have "next_poll < deadline" using bounds by linarith
  moreover from less(1) have "\<lceil>(deadline - next_poll') * 10\<rceil> \<le> \<lceil>(deadline - next_poll) * 10 - 1\<rceil>"
    by (rule ceiling_mono)
  moreover from less(2) have "0 < \<lceil>(deadline - next_poll') * 10\<rceil>" by simp
  ultimately show ?case by simp
qed simp

declare sign_loop.simps [simp del]

definition sign_entries ::
  "market \<Rightarrow> rat \<Rightarrow> rat \<Rightarrow> (string \<times> string) list \<Rightarrow> (nat \<Rightarrow> sign_pass) \<Rightarrow> rat \<Rightarrow>
     (exn + signed_order list) \<times> nat" where
  "sign_entries m price sz specs passes start =
     sign_loop m price sz specs passes (start + 1/2) start 0"

datatype prepared = Ready entry | Refused placement_result

definition entry_from ::
  "venue \<Rightarrow> exchange \<Rightarrow> market \<Rightarrow> rat \<Rightarrow> rat \<Rightarrow> signed_order list \<Rightarrow> exn + prepared" where
  "entry_from v ex m price sz signed =
     (let specs = entry_specifications ex m in
      if length specs \<noteq> length signed then
        Raise (ValueError ''zip() argument 2 has another length than argument 1'')
      else Return (Ready
             \<lparr>en_market = m, en_price = price, en_size = sz, en_specifications = specs,
              en_legs = zip (map fst specs) (map (ve_order_body v) signed),
              en_submission_key = dual_submission_key m price sz\<rparr>))"

definition prepare_entry ::
  "venue \<Rightarrow> (nat \<Rightarrow> sign_pass) \<Rightarrow> rat \<Rightarrow> market \<Rightarrow> rat \<Rightarrow> rat \<Rightarrow> exchange \<Rightarrow> (exn + prepared) \<times> exchange" where
  "prepare_entry v passes start m price sz ex =
     (let specs = entry_specifications ex m; key = dual_submission_key m price sz in
      case dict_get (ex_submissions ex) key of
        Some signed \<Rightarrow> (entry_from v ex m price sz signed, ex)
      | None \<Rightarrow>
          (case prime_tick_size m ex of
             Inl e \<Rightarrow> (Raise e, ex)
           | Inr ex \<Rightarrow>
               (case fst (sign_entries m price sz specs passes start) of
                  Inr signed \<Rightarrow>
                    (entry_from v ex m price sz signed,
                     ex\<lparr>ex_submissions := dict_set key signed (ex_submissions ex)\<rparr>)
                | Inl (SigningNotReady t) \<Rightarrow>
                    (Return (Refused ((placement [] (Some t))\<lparr>pr_retryable := True\<rparr>)), ex)
                | Inl e \<Rightarrow> (Raise e, ex))))"

subsection \<open>Settling a knock\<close>

text \<open>\<open>self.client.cancel_orders\<close>, logged; \<open>cancel_orders\<close> spares the call on an empty list.\<close>

definition client_cancel :: "venue \<Rightarrow> string list \<Rightarrow> exchange \<Rightarrow> (exn + json) \<times> exchange" where
  "client_cancel v ids ex = (ve_cancel v ids, ex\<lparr>ex_cancelled := ex_cancelled ex @ [ids]\<rparr>)"

definition cancel_orders :: "venue \<Rightarrow> string list \<Rightarrow> exchange \<Rightarrow> (exn + json) \<times> exchange" where
  "cancel_orders v ids ex = (if ids = [] then (Return JNull, ex) else client_cancel v ids ex)"

definition drop_submission :: "submission_key \<Rightarrow> exchange \<Rightarrow> exchange" where
  "drop_submission key ex = ex\<lparr>ex_submissions := dict_pop key (ex_submissions ex)\<rparr>"

definition finalize_dual_result ::
  "venue \<Rightarrow> submission_key \<Rightarrow> placement_result \<Rightarrow> exchange \<Rightarrow> (exn + placement_result) \<times> exchange" where
  "finalize_dual_result v key result ex =
     (if complete result then (Return result, drop_submission key ex)
      else if pr_orders result \<noteq> [] then
        (case client_cancel v (map po_order_id (pr_orders result)) ex of
           (Inl e, ex) \<Rightarrow> (Raise e, ex)
         | (Inr _, ex) \<Rightarrow> (Return result, drop_submission key ex))
      else if \<not> pr_retryable result then (Return result, drop_submission key ex)
      else (Return result, ex))"

definition settle_accepted :: "entry \<Rightarrow> accepted_order \<Rightarrow> exn + placed_order" where
  "settle_accepted en a =
     (let reply = reply_value (ao_status a) (ao_body a);
          status = (if is_dict reply then pget ''status'' (as_dict reply) else JNull)
      in case dict_get (dict_of_pairs (en_specifications en)) (ao_outcome a) of
           None \<Rightarrow> Raise (KeyError (ao_outcome a))
         | Some token_id \<Rightarrow>
             Return \<lparr>po_order_id = py_str (ao_order_id a), po_outcome = ao_outcome a,
                     po_token_id = token_id, po_price = en_price en, po_size = en_size en,
                     po_status = lower (py_str (por status (JStr ''open''))), po_raw = reply,
                     po_side = ''buy'', po_role = ''entry'', po_account = []\<rparr>)"

definition or_partial :: "string \<Rightarrow> string" where
  "or_partial t = (if t = [] then ''partial placement'' else t)"

definition settle_result :: "entry \<Rightarrow> member_outcome \<Rightarrow> exn + placement_result" where
  "settle_result en out =
     rbind (rtraverse (settle_accepted en) (mo_accepted out)) (\<lambda>orders.
       let ambiguous = map ambiguous_text (mo_ambiguous out);
           expected = length (en_specifications en);
           error = or_partial (join ''; '' (filter (\<lambda>e. e \<noteq> []) (uniq (map error_text (mo_errors out)))))
       in if ambiguous \<noteq> [] \<and> orders = [] then
            Raise (AmbiguousPlacement
              (''staggered submission remained ambiguous: '' @ join ''; '' (uniq ambiguous))
              True (mo_attempts out))
          else if length orders = expected then
            Return ((placement orders None)\<lparr>pr_attempts := mo_attempts out,
              pr_held_back := mo_held_back out, pr_expected := expected,
              pr_registered_ts_ms := mo_registered_ms out\<rparr>)
          else if orders \<noteq> [] then
            Return ((placement orders (Some error))\<lparr>pr_attempts := mo_attempts out,
              pr_held_back := mo_held_back out, pr_expected := expected,
              pr_registered_ts_ms := mo_registered_ms out\<rparr>)
          else
            Return ((placement [] (Some error))\<lparr>pr_retryable := False,
              pr_attempts := mo_attempts out, pr_held_back := mo_held_back out,
              pr_expected := expected, pr_gave_up := mo_gave_up out\<rparr>))"

definition settle_entry ::
  "venue \<Rightarrow> entry \<Rightarrow> member_outcome \<Rightarrow> exchange \<Rightarrow> (exn + placement_result) \<times> exchange" where
  "settle_entry v en out ex =
     (case settle_result en out of
        Inl e \<Rightarrow> (Raise e, ex)
      | Inr result \<Rightarrow> finalize_dual_result v (en_submission_key en) result ex)"

text \<open>\<open>place_dual\<close>: one account's knock on its own.\<close>

definition place_dual ::
  "venue \<Rightarrow> (nat \<Rightarrow> sign_pass) \<Rightarrow> rat \<Rightarrow> market \<Rightarrow> rat \<Rightarrow> rat \<Rightarrow> rat option \<Rightarrow> rat option \<Rightarrow> rat \<Rightarrow>
     exchange \<Rightarrow> (exn + placement_result) \<times> exchange" where
  "place_dual v passes start m price sz submission_interval_ms knock_until_ts now ex =
     (let until = (case knock_until_ts of Some t \<Rightarrow> t | None \<Rightarrow> now + KNOCK_SECONDS) in
      case prepare_entry v passes start m price sz ex of
        (Inl e, ex) \<Rightarrow> (Raise e, ex)
      | (Inr (Refused r), ex) \<Rightarrow> (Return r, ex)
      | (Inr (Ready en), ex) \<Rightarrow>
          (case submission_interval_ms of
             None \<Rightarrow> (Raise (ValueError ''submission_interval_ms must be above 0''), ex)
           | Some interval \<Rightarrow>
               if interval \<le> 0 then (Raise (ValueError ''submission_interval_ms must be above 0''), ex)
               else (case ve_knock v (knock_plan_of m [knock_member en ''primary'' 0] interval until None) of
                       Inl e \<Rightarrow> (Raise e, ex)
                     | Inr [] \<Rightarrow> (Raise (IndexError ''list index out of range''), ex)
                     | Inr (out # _) \<Rightarrow> settle_entry v en out ex)))"

text \<open>\<open>_heal_order_version\<close>: whether the lookup is started, at most every 30 seconds.\<close>

definition heal_order_version :: "rat \<Rightarrow> exchange \<Rightarrow> bool \<times> exchange" where
  "heal_order_version now ex =
     (if now - ex_last_version_heal ex < 30 then (False, ex)
      else (True, ex\<lparr>ex_last_version_heal := now\<rparr>))"

subsection \<open>Reconciling a lost reply\<close>

definition is_ours :: "string \<Rightarrow> rat \<Rightarrow> rat \<Rightarrow> open_order \<Rightarrow> bool" where
  "is_ours side price sz oo = (oo_side oo = side \<and> oo_price oo = price \<and> oo_size oo = sz)"

text \<open>The rows the loop collects, per token of the expected legs.\<close>

definition dual_matches ::
  "(string, string) dict \<Rightarrow> rat \<Rightarrow> rat \<Rightarrow> open_order list \<Rightarrow> (string, json list) dict" where
  "dual_matches expected price sz oos =
     map (\<lambda>(token_id, _). (token_id, map oo_raw
       (filter (\<lambda>oo. oo_token_id oo = token_id \<and> is_ours ''BUY'' price sz oo) oos))) expected"

text \<open>The orders of a full match; \<open>None\<close> where a matched row has no order id.\<close>

fun matched_orders ::
  "venue \<Rightarrow> (string, string) dict \<Rightarrow> rat \<Rightarrow> rat \<Rightarrow> (string, json list) dict \<Rightarrow>
     exn + placed_order list option" where
  "matched_orders v expected price sz [] = Return (Some [])"
| "matched_orders v expected price sz ((token_id, rows) # ms) =
     (let raw = hd rows in
      rbind (order_ref v raw) (\<lambda>ref.
        if \<not> truthy ref then Return None
        else rbind (matched_orders v expected price sz ms) (\<lambda>rest.
          Return (map_option (\<lambda>orders.
            \<lparr>po_order_id = py_str ref, po_outcome = (case dict_get expected token_id of Some x \<Rightarrow> x | None \<Rightarrow> []),
             po_token_id = token_id, po_price = price, po_size = sz,
             po_status = status_or_open raw, po_raw = raw, po_side = ''buy'', po_role = ''entry'',
             po_account = []\<rparr> # orders) rest))))"

definition reconcile_ambiguous_dual ::
  "venue \<Rightarrow> market \<Rightarrow> rat \<Rightarrow> rat \<Rightarrow> bool \<Rightarrow> exchange \<Rightarrow> (exn + placement_result) \<times> exchange" where
  "reconcile_ambiguous_dual v m price sz retryable_if_missing ex =
     (let specs = entry_specifications ex m;
          expected = dict_of_pairs (map (\<lambda>(out, token_id). (token_id, out)) specs) in
      case rbind (ve_open_orders v (Some (m_condition_id m))) (rtraverse read_open_order) of
        Inl e \<Rightarrow> (Raise e, ex)
      | Inr oos \<Rightarrow>
          (let matches = dual_matches expected price sz oos in
           if list_all (\<lambda>(_, rows). length rows = 1) matches then
             (case matched_orders v expected price sz matches of
                Inl e \<Rightarrow> (Raise e, ex)
              | Inr None \<Rightarrow> (Return (placement [] (Some ''matched open order has no order id'')), ex)
              | Inr (Some orders) \<Rightarrow>
                  (Return ((placement orders None)\<lparr>pr_expected := length specs\<rparr>),
                   forget_dual_submission m price sz ex))
           else
             (case rtraverse (order_ref v) (concat (map snd matches)) of
                Inl e \<Rightarrow> (Raise e, ex)
              | Inr refs \<Rightarrow>
                  (let found_ids = map py_str (filter truthy refs) in
                   if found_ids \<noteq> [] then
                     (case cancel_orders v found_ids ex of
                        (Inl e, ex) \<Rightarrow> (Raise e, ex)
                      | (Inr _, ex) \<Rightarrow>
                          (Return (placement [] (Some
                             ''ambiguous submission produced a partial or duplicate order set'')),
                           forget_dual_submission m price sz ex))
                   else
                     (Return ((placement [] (Some
                        ''ambiguous submission did not produce exactly two orders''))
                        \<lparr>pr_retryable := retryable_if_missing\<rparr>),
                      if retryable_if_missing then ex else forget_dual_submission m price sz ex)))))"

subsection \<open>Exits\<close>

definition sell_args :: "market \<Rightarrow> string \<Rightarrow> rat \<Rightarrow> rat \<Rightarrow> order_args" where
  "sell_args m token_id price sz =
     \<lparr>oa_token_id = token_id, oa_price = to_double price, oa_size = to_double sz,
      oa_side = ''SELL'', oa_tick_size = m_tick_size m\<rparr>"

definition exit_order :: "string \<Rightarrow> string \<Rightarrow> string \<Rightarrow> rat \<Rightarrow> rat \<Rightarrow> json \<Rightarrow> placed_order" where
  "exit_order oid out token_id price sz raw =
     \<lparr>po_order_id = oid, po_outcome = out, po_token_id = token_id, po_price = price, po_size = sz,
      po_status = status_or_open raw, po_raw = raw, po_side = ''sell'', po_role = ''exit'',
      po_account = []\<rparr>"

definition place_exit ::
  "venue \<Rightarrow> market \<Rightarrow> string \<Rightarrow> string \<Rightarrow> rat \<Rightarrow> rat \<Rightarrow> exn + placed_order" where
  "place_exit v m out token_id price sz =
     rbind (ve_sign v (sell_args m token_id price sz)) (\<lambda>signed.
     rbind (ve_post v signed) (\<lambda>response.
     rbind (accepted v response) (\<lambda>ok.
       if \<not> ok then Raise (RuntimeError (''sell order rejected: '' @ py_str response))
       else rbind (order_id_of v response) (\<lambda>oid.
         Return (exit_order (case oid of Some s \<Rightarrow> s | None \<Rightarrow> ''None'') out token_id price sz response)))))"

definition reconcile_ambiguous_exit ::
  "venue \<Rightarrow> market \<Rightarrow> string \<Rightarrow> string \<Rightarrow> rat \<Rightarrow> rat \<Rightarrow> exn + placed_order option" where
  "reconcile_ambiguous_exit v m out token_id price sz =
     rbind (ve_open_orders v (Some (m_condition_id m))) (\<lambda>raws.
     rbind (rtraverse read_open_order raws) (\<lambda>oos.
       case filter (\<lambda>oo. oo_token_id oo = token_id \<and> is_ours ''SELL'' price sz oo) oos of
         [oo] \<Rightarrow>
           rbind (order_ref v (oo_raw oo)) (\<lambda>ref.
             Return (if truthy ref then Some (exit_order (py_str ref) out token_id price sz (oo_raw oo))
                     else None))
       | _ \<Rightarrow> Return None))"

subsection \<open>Queries\<close>

fun books_ready :: "venue \<Rightarrow> string list \<Rightarrow> exn + bool" where
  "books_ready v [] = Return True"
| "books_ready v (token_id # ts) =
     (case ve_order_book v token_id of
        Inr _ \<Rightarrow> books_ready v ts
      | Inl (PolyApi status msg) \<Rightarrow>
          if contains ''does not exist'' (lower (exn_str (PolyApi status msg))) then Return False
          else Raise (PolyApi status msg)
      | Inl e \<Rightarrow> Raise e)"

definition order_books_ready :: "venue \<Rightarrow> market \<Rightarrow> exn + bool" where
  "order_books_ready v m = books_ready v [m_up_token_id m, m_down_token_id m]"

definition conditional_balance :: "venue \<Rightarrow> string \<Rightarrow> exn + rat" where
  "conditional_balance v token_id =
     rbind (ve_balance v token_id) (\<lambda>response.
       if \<not> is_dict response then Raise (Raised ''AttributeError'' ''get'')
       else rbind (dec_of (por (pget ''balance'' (as_dict response)) (JStr ''0''))) (\<lambda>b.
         Return (ddiv b 1000000)))"

subsection \<open>Signing stays within its budget and signs once\<close>

lemma sign_loop_count:
  assumes "start + of_nat n / 10 \<le> next_poll" "next_poll < deadline" "deadline = start + 1/2"
  shows "snd (sign_loop m price sz specs passes deadline next_poll n) \<le> 5 \<and>
    n < snd (sign_loop m price sz specs passes deadline next_poll n)"
  using assms
proof (induction m price sz specs passes deadline next_poll n rule: sign_loop.induct)
  case (1 m price sz specs passes deadline next_poll n)
  have "of_nat n / 10 < (1/2 :: rat)" using "1.prems" by linarith
  then have n: "n < 5" by simp
  let ?p = "passes n"
  let ?attempt = "rtraverse (\<lambda>(_, token_id). sg_sign ?p (buy_args m price sz token_id)) specs"
  show ?case
  proof (cases "\<exists>st msg. ?attempt = Inl (PolyApi st msg) \<and> signing_retryable st msg \<and>
      \<not> of_int (m_end_ts m) \<le> sg_wall ?p \<and>
      \<not> (deadline \<le> sg_now ?p \<or> deadline \<le> max (next_poll + 1/10) (sg_now ?p))")
    case True
    then obtain st msg where go: "?attempt = Inl (PolyApi st msg)" "signing_retryable st msg"
      "\<not> of_int (m_end_ts m) \<le> sg_wall ?p"
      "\<not> (deadline \<le> sg_now ?p \<or> deadline \<le> max (next_poll + 1/10) (sg_now ?p))"
      by blast
    let ?next = "max (next_poll + 1/10) (sg_now ?p)"
    have "start + of_nat (Suc n) / 10 = start + of_nat n / 10 + 1/10" by (simp add: field_simps)
    then have "start + of_nat (Suc n) / 10 \<le> ?next" using "1.prems"(1) by linarith
    moreover have "?next < deadline" using go(4) by linarith
    ultimately have "snd (sign_loop m price sz specs passes deadline ?next (Suc n)) \<le> 5 \<and>
        Suc n < snd (sign_loop m price sz specs passes deadline ?next (Suc n))"
      using "1.IH" [OF refl go(1) refl _ go(3) refl refl go(4)] go(2) "1.prems"(3) by blast
    then show ?thesis
      by (subst (1 2) sign_loop.simps) (simp only: Let_def go sum.case exn.case if_False not_True_eq_False not_False_eq_True, simp)
  next
    case False
    then have "snd (sign_loop m price sz specs passes deadline next_poll n) = Suc n"
      by (subst sign_loop.simps) (auto simp: Let_def split: sum.split exn.split)
    then show ?thesis using n by simp
  qed
qed

text \<open>
  Signing never holds the service loop past its budget: whatever the venue answers and
  however its clock runs, the legs are tried at least once and at most five times, and the
  loop ends.
\<close>

theorem sign_entries_bounded:
  "1 \<le> snd (sign_entries m price sz specs passes start) \<and>
   snd (sign_entries m price sz specs passes start) \<le> 5"
proof -
  have "start + of_nat 0 / 10 \<le> start" "start < start + 1/2" by simp_all
  from sign_loop_count [OF this refl, of m price sz specs passes] show ?thesis
    by (auto simp: sign_entries_def)
qed

lemma prime_tick_size_frame:
  "prime_tick_size m ex = Return ex' \<Longrightarrow> ex_entry_submission ex' = ex_entry_submission ex"
  by (auto simp: prime_tick_size_def split: option.splits)

lemma entry_from_cong:
  "ex_entry_submission ex' = ex_entry_submission ex \<Longrightarrow> entry_from v ex' m = entry_from v ex m"
  by (intro ext) (simp add: entry_from_def entry_specifications_def)

lemma prepare_entry_cached:
  "dict_get (ex_submissions ex) (dual_submission_key m price sz) = Some signed \<Longrightarrow>
     prepare_entry v passes start m price sz ex = (entry_from v ex m price sz signed, ex)"
  by (simp add: prepare_entry_def)

lemma prepare_entry_fresh:
  "dict_get (ex_submissions ex) (dual_submission_key m price sz) = None \<Longrightarrow>
   prime_tick_size m ex = Return ex1 \<Longrightarrow>
   fst (sign_entries m price sz (entry_specifications ex m) passes start) = Return signed \<Longrightarrow>
     prepare_entry v passes start m price sz ex =
       (entry_from v ex1 m price sz signed,
        ex1\<lparr>ex_submissions := dict_set (dual_submission_key m price sz) signed (ex_submissions ex1)\<rparr>)"
  by (simp add: prepare_entry_def)

lemma prepare_entry_unsigned:
  assumes "dict_get (ex_submissions ex) (dual_submission_key m price sz) = None"
    and "\<forall>signed. fst (sign_entries m price sz (entry_specifications ex m) passes start) \<noteq> Return signed"
  shows "fst (prepare_entry v passes start m price sz ex) \<noteq> Return (Ready en)"
  using assms by (simp add: prepare_entry_def split: sum.split exn.split)

lemma prepare_entry_ready:
  assumes "prepare_entry v passes start m price sz ex = (Return (Ready en), ex')"
  shows "\<exists>signed. dict_get (ex_submissions ex') (dual_submission_key m price sz) = Some signed \<and>
    entry_from v ex' m price sz signed = Return (Ready en)"
proof (cases "dict_get (ex_submissions ex) (dual_submission_key m price sz)")
  case (Some signed)
  then show ?thesis using assms prepare_entry_cached [OF Some] by auto
next
  case None
  obtain signed where
    signed: "fst (sign_entries m price sz (entry_specifications ex m) passes start) = Return signed"
    using prepare_entry_unsigned [OF None] assms by (metis fst_conv)
  obtain ex1 where ex1: "prime_tick_size m ex = Return ex1"
    using assms None by (cases "prime_tick_size m ex") (simp_all add: prepare_entry_def)
  have en: "entry_from v ex1 m price sz signed = Return (Ready en)"
    and ex': "ex' = ex1\<lparr>ex_submissions := dict_set (dual_submission_key m price sz) signed (ex_submissions ex1)\<rparr>"
    using assms prepare_entry_fresh [OF None ex1 signed, of v] by simp_all
  have "entry_from v ex' m = entry_from v ex1 m" by (rule entry_from_cong) (simp add: ex')
  then show ?thesis using en by (simp add: ex')
qed

text \<open>
  Every send for a market is the same signed order: once an entry has been prepared,
  preparing it again, with whatever the venue answers by then, signs nothing and gives the
  same bodies and the same state.
\<close>

theorem prepare_entry_reuses:
  assumes "prepare_entry v passes start m price sz ex = (Return (Ready en), ex')"
  shows "prepare_entry v passes' start' m price sz ex' = (Return (Ready en), ex')"
proof -
  obtain signed where "dict_get (ex_submissions ex') (dual_submission_key m price sz) = Some signed"
    "entry_from v ex' m price sz signed = Return (Ready en)"
    using prepare_entry_ready [OF assms] by blast
  then show ?thesis by (simp add: prepare_entry_def)
qed

definition quiet_venue :: venue where
  "quiet_venue =
     \<lparr>ve_classify = (\<lambda>_. Return \<lparr>vd_trace = ''ok'', vd_accepted = True, vd_order_id = None,
        vd_duplicate_id = None, vd_not_ready = False\<rparr>),
      ve_sign = (\<lambda>_. Return ''signed''), ve_order_body = (\<lambda>s. ''body:'' @ s),
      ve_post = (\<lambda>_. Return (JObj [(''orderID'', JStr ''0xe'')])), ve_cancel = (\<lambda>_. Return (JObj [])),
      ve_open_orders = (\<lambda>_. Return []), ve_get_order = (\<lambda>_. Return JNull),
      ve_order_book = (\<lambda>_. Return ()), ve_balance = (\<lambda>_. Return (JObj [])),
      ve_knock = (\<lambda>_. Return [])\<rparr>"

definition example_signing :: "nat \<Rightarrow> sign_pass" where
  "example_signing n =
     \<lparr>sg_sign = (\<lambda>a. if n = 0 then Raise (PolyApi (Some 404) (JObj [(''error'', JStr ''market not found'')]))
                     else Return (''signed:'' @ oa_token_id a)),
      sg_wall = 1700000000, sg_now = of_nat n / 10\<rparr>"

lemma example_signs:
  "sign_entries example_mkt price sz specs example_signing 0 =
     (Return (map (\<lambda>(_, t). ''signed:'' @ t) specs), if specs = [] then 1 else 2)"
proof -
  have two: "rtraverse (\<lambda>(_, t). sg_sign (example_signing (Suc 0)) (buy_args example_mkt price sz t)) specs =
      Return (map (\<lambda>(_, t). ''signed:'' @ t) specs)"
    by (induction specs) (auto simp: example_signing_def buy_args_def)
  show ?thesis
  proof (cases specs)
    case (Cons x xs)
    have "lower ''market not found'' = ''market not found''" by code_simp
    then have "signing_retryable (Some 404) (JObj [(''error'', JStr ''market not found'')])"
      by (simp add: signing_retryable_def pget_def)
    moreover have "sg_sign (example_signing 0) a = Raise (PolyApi (Some 404) (JObj [(''error'', JStr ''market not found'')]))" for a
      by (simp add: example_signing_def)
    moreover have "sg_wall (example_signing 0) = 1700000000" "sg_now (example_signing 0) = 0"
      by (simp_all add: example_signing_def)
    moreover have "m_end_ts example_mkt = 1700000400" by (simp add: example_mkt_def)
    ultimately show ?thesis using two Cons
      by (simp add: sign_entries_def sign_loop.simps [of _ _ _ _ _ _ 0 0]
          sign_loop.simps [of _ _ _ _ _ _ _ "Suc 0"] split: prod.splits)
  qed (simp add: sign_entries_def sign_loop.simps)
qed

theorem prepare_entry_reuses_witness:
  "\<exists>en ex'. prepare_entry quiet_venue example_signing 0 example_mkt (1/2) 10 exchange_init = (Return (Ready en), ex') \<and>
     prepare_entry quiet_venue (\<lambda>_. example_signing 0) 9 example_mkt (1/2) 10 ex' = (Return (Ready en), ex')"
proof -
  obtain en ex' where
    p: "prepare_entry quiet_venue example_signing 0 example_mkt (1/2) 10 exchange_init = (Return (Ready en), ex')"
    by (simp add: prepare_entry_def exchange_init_def prime_tick_size_def example_signs
        entry_from_def entry_specifications_def)
  from prepare_entry_reuses [OF p] p show ?thesis by blast
qed

subsection \<open>No accepted order is left behind\<close>

lemma settle_accepted_id:
  "settle_accepted en a = Return p \<Longrightarrow>
     po_order_id p = py_str (ao_order_id a) \<and> po_side p = ''buy'' \<and> po_role p = ''entry'' \<and>
     po_price p = en_price en \<and> po_size p = en_size en"
  by (auto simp: settle_accepted_def Let_def split: option.splits)

lemma settle_ids:
  "rtraverse (settle_accepted en) as = Return ps \<Longrightarrow>
     map po_order_id ps = map (py_str \<circ> ao_order_id) as \<and> length ps = length as"
  unfolding rtraverse_Inr_iff by (induction as ps rule: list_all2_induct) (auto dest: settle_accepted_id)

lemma settle_result_cases:
  assumes "settle_result en out = Return result"
  shows "map po_order_id (pr_orders result) = map (py_str \<circ> ao_order_id) (mo_accepted out) \<and>
    (complete result \<longleftrightarrow> length (mo_accepted out) = length (en_specifications en)) \<and>
    \<not> pr_retryable result \<and> (mo_accepted out = [] \<longrightarrow> complete result \<or> pr_gave_up result = mo_gave_up out) \<and>
    (mo_accepted out = [] \<longrightarrow> mo_ambiguous out = [])"
proof -
  obtain ps where ps: "rtraverse (settle_accepted en) (mo_accepted out) = Return ps"
    using assms by (auto simp: settle_result_def rbind_Inr_iff)
  from settle_ids [OF ps] have ids: "map po_order_id ps = map (py_str \<circ> ao_order_id) (mo_accepted out)"
    and len: "length ps = length (mo_accepted out)" by blast+
  have "ps = [] \<longleftrightarrow> mo_accepted out = []" using len by (metis length_0_conv)
  then show ?thesis using assms ids len
    by (auto simp: settle_result_def ps Let_def complete_def split: if_splits)
qed

text \<open>
  C15. Settling a knock leaves no accepted order behind: a result that is returned names
  exactly the orders the venue accepted; if they are all the legs the placement is complete
  and nothing is cancelled, otherwise exactly those orders were sent for cancellation; and in
  every case the signed orders are dropped, so a later knock signs anew. An entry with no
  accepted order is never reported as settled while a send is still without a verdict.
\<close>

theorem settle_entry_accounts:
  assumes "settle_entry v en out ex = (Return result, ex')"
  shows "map po_order_id (pr_orders result) = map (py_str \<circ> ao_order_id) (mo_accepted out) \<and>
    (complete result \<longleftrightarrow> length (mo_accepted out) = length (en_specifications en)) \<and>
    ex_cancelled ex' = ex_cancelled ex @
      (if complete result \<or> mo_accepted out = [] then []
       else [map (py_str \<circ> ao_order_id) (mo_accepted out)]) \<and>
    dict_get (ex_submissions ex') (en_submission_key en) = None \<and>
    (mo_accepted out = [] \<longrightarrow> mo_ambiguous out = [])"
proof -
  obtain r where r: "settle_result en out = Return r"
    using assms by (auto simp: settle_entry_def split: sum.splits)
  have fin: "finalize_dual_result v (en_submission_key en) r ex = (Return result, ex')"
    using assms r by (simp add: settle_entry_def)
  then have same: "result = r"
    by (auto simp: finalize_dual_result_def split: if_splits sum.splits prod.splits)
  have "pr_orders r = [] \<longleftrightarrow> mo_accepted out = []"
    using settle_result_cases [OF r] by (metis list.map_disc_iff)
  with settle_result_cases [OF r] fin show ?thesis unfolding same
    by (auto simp: finalize_dual_result_def drop_submission_def client_cancel_def
        split: if_splits sum.splits prod.splits)
qed

definition example_entry :: entry where
  "example_entry =
     \<lparr>en_market = example_mkt, en_price = 1/2, en_size = 10,
      en_specifications = [(''up'', ''111''), (''down'', ''222'')],
      en_legs = [(''up'', ''body:1''), (''down'', ''body:2'')],
      en_submission_key = dual_submission_key example_mkt (1/2) 10\<rparr>"

definition example_outcome :: member_outcome where
  "example_outcome =
     \<lparr>mo_account = ''primary'', mo_attempts = 7, mo_held_back = 0, mo_registered_ms = None,
      mo_accepted = [\<lparr>ao_order_id = JStr ''0x1'', ao_outcome = ''up'', ao_status = 200, ao_body = ''{}''\<rparr>],
      mo_ambiguous = [], mo_errors = [KnockText ''late''], mo_gave_up = False\<rparr>"

theorem settle_entry_accounts_witness:
  "\<exists>result ex'. settle_entry quiet_venue example_entry example_outcome exchange_init = (Return result, ex') \<and>
     ex_cancelled ex' = [[''0x1'']] \<and> \<not> complete result"
proof -
  have body: "reply_value 200 ''{}'' = JObj []" by code_simp
  obtain result ex' where
    s: "settle_entry quiet_venue example_entry example_outcome exchange_init = (Return result, ex')"
    by (simp add: settle_entry_def settle_result_def settle_accepted_def example_outcome_def
        example_entry_def body dict_of_pairs_def finalize_dual_result_def complete_def
        client_cancel_def quiet_venue_def Let_def)
  from settle_entry_accounts [OF s] s show ?thesis
    by (simp add: example_outcome_def example_entry_def exchange_init_def)
qed

subsection \<open>Reconciliation adopts only what is ours\<close>

lemma matched_orders_sound:
  assumes "matched_orders v expected price sz ms = Return (Some orders)"
    and "list_all (\<lambda>(_, rows). length rows = 1) ms"
  shows "list_all2 (\<lambda>(token_id, rows) p. po_token_id p = token_id \<and> rows = [po_raw p] \<and>
    po_price p = price \<and> po_size p = sz \<and> po_side p = ''buy'' \<and> po_role p = ''entry'') ms orders"
  using assms
proof (induction v expected price sz ms arbitrary: orders rule: matched_orders.induct)
  case (2 v expected price sz token_id rows ms)
  from "2.prems"(2) obtain raw where raw: "rows = [raw]" by (auto simp: length_Suc_conv)
  from "2.prems"(1) raw obtain ref rest where
    ref: "order_ref v raw = Return ref" "truthy ref"
    "matched_orders v expected price sz ms = Return (Some rest)"
    and orders: "\<exists>p. orders = p # rest \<and> po_token_id p = token_id \<and> po_raw p = raw \<and>
      po_price p = price \<and> po_size p = sz \<and> po_side p = ''buy'' \<and> po_role p = ''entry''"
    by (auto simp: rbind_Inr_iff Let_def split: if_splits)
  from "2.IH" [OF refl _ ref(3)] ref(1,2) raw "2.prems"(2) orders show ?case by auto
qed simp

text \<open>
  C17. After a lost reply only the bot's own orders are taken over: when reconciliation reports
  orders, the venue listed them as open buy orders on the leg's token at exactly the price and
  size that were signed, each leg's token has one and only one such order, and the report is
  complete; nothing is cancelled then.
\<close>

theorem reconcile_dual_takes_own_orders:
  assumes "reconcile_ambiguous_dual v m price sz retryable ex = (Return result, ex')"
    and "pr_orders result \<noteq> []"
    and "ve_open_orders v (Some (m_condition_id m)) = Return raws"
    and "rtraverse read_open_order raws = Return oos"
  shows "pr_error result = None \<and> ex_cancelled ex' = ex_cancelled ex \<and>
    map po_token_id (pr_orders result) =
      map fst (dict_of_pairs (map (\<lambda>(out, t). (t, out)) (entry_specifications ex m))) \<and>
    list_all (\<lambda>p. po_price p = price \<and> po_size p = sz \<and> po_side p = ''buy'' \<and>
        map oo_raw (filter (\<lambda>oo. oo_token_id oo = po_token_id p \<and> oo_side oo = ''BUY'' \<and>
          oo_price oo = price \<and> oo_size oo = sz) oos) = [po_raw p])
      (pr_orders result)"
proof -
  let ?exp = "dict_of_pairs (map (\<lambda>(out, t). (t, out)) (entry_specifications ex m))"
  let ?ms = "dual_matches ?exp price sz oos"
  have all1: "list_all (\<lambda>(_, rows). length rows = 1) ?ms"
    using assms by (auto simp: reconcile_ambiguous_dual_def Let_def split: if_splits sum.splits prod.splits)
  then obtain orders where o: "matched_orders v ?exp price sz ?ms = Return (Some orders)"
    and result: "result = (placement orders None)\<lparr>pr_expected := length (entry_specifications ex m)\<rparr>"
    and ex': "ex' = forget_dual_submission m price sz ex"
    using assms by (auto simp: reconcile_ambiguous_dual_def Let_def split: sum.splits option.splits)
  note all2 = matched_orders_sound [OF o all1]
  then have toks: "map po_token_id orders = map fst ?exp"
    unfolding dual_matches_def list_all2_map1
    by (induction rule: list_all2_induct) (auto split: prod.splits)
  have "list_all (\<lambda>p. po_price p = price \<and> po_size p = sz \<and> po_side p = ''buy'' \<and>
        map oo_raw (filter (\<lambda>oo. oo_token_id oo = po_token_id p \<and> is_ours ''BUY'' price sz oo) oos) = [po_raw p]) orders"
    using all2 unfolding dual_matches_def list_all2_map1
    by (induction rule: list_all2_induct) (auto split: prod.splits)
  then show ?thesis using toks result ex'
    by (simp add: is_ours_def forget_dual_submission_def)
qed

definition example_open :: "string \<Rightarrow> string \<Rightarrow> json" where
  "example_open oid token =
     JObj [(''id'', JStr oid), (''asset_id'', JStr token), (''price'', JStr ''0.5''),
       (''original_size'', JStr ''10''), (''side'', JStr ''BUY''), (''status'', JStr ''LIVE'')]"

definition example_read :: "string \<Rightarrow> string \<Rightarrow> open_order" where
  "example_read oid token =
     \<lparr>oo_token_id = token, oo_price = 1/2, oo_size = 10, oo_side = ''BUY'', oo_raw = example_open oid token\<rparr>"

lemma example_numbers: "py_decimal ''0.5'' = Some (1/2)" "py_decimal ''10'' = Some 10"
  by code_simp+

lemma example_open_reads: "token \<noteq> [] \<Longrightarrow> read_open_order (example_open oid token) = Return (example_read oid token)"
proof -
  assume "token \<noteq> []"
  moreover have "upper ''BUY'' = ''BUY''" by code_simp
  ultimately show ?thesis
    by (simp add: read_open_order_def example_open_def example_read_def pget_def dec_of_def example_numbers)
qed

definition example_venue :: venue where
  "example_venue = quiet_venue\<lparr>ve_open_orders :=
     (\<lambda>_. Return [example_open ''0xa'' ''111'', example_open ''0xb'' ''222''])\<rparr>"

theorem reconcile_dual_takes_own_orders_witness:
  "\<exists>result ex'. reconcile_ambiguous_dual example_venue example_mkt (1/2) 10 True exchange_init = (Return result, ex') \<and>
     map po_token_id (pr_orders result) = [''111'', ''222''] \<and> ex_cancelled ex' = []"
proof -
  let ?oos = "[example_read ''0xa'' ''111'', example_read ''0xb'' ''222'']"
  have specs: "entry_specifications exchange_init example_mkt = [(''up'', ''111''), (''down'', ''222'')]"
    by (simp add: entry_specifications_def exchange_init_def example_mkt_def)
  have ref: "order_ref example_venue (example_open oid token) = Return (JStr oid)" for oid token
    by (simp add: order_ref_def order_id_of_def example_venue_def quiet_venue_def example_open_def pget_def)
  have opn: "ve_open_orders example_venue c = Return [example_open ''0xa'' ''111'', example_open ''0xb'' ''222'']" for c
    by (simp add: example_venue_def)
  have rd: "rtraverse read_open_order [example_open ''0xa'' ''111'', example_open ''0xb'' ''222''] = Return ?oos"
    by (simp add: example_open_reads)
  have ms: "dual_matches [(''111'', ''up''), (''222'', ''down'')] (1/2) 10 ?oos =
      [(''111'', [example_open ''0xa'' ''111'']), (''222'', [example_open ''0xb'' ''222''])]"
    by (simp add: dual_matches_def is_ours_def example_read_def)
  have d: "dict_of_pairs [(''111'', ''up''), (''222'', ''down'')] = [(''111'', ''up''), (''222'', ''down'')]"
    by (simp add: dict_of_pairs_def dict_set_def)
  obtain result ex' where
    r: "reconcile_ambiguous_dual example_venue example_mkt (1/2) 10 True exchange_init = (Return result, ex')"
    and ne: "pr_orders result \<noteq> []"
    by (simp add: reconcile_ambiguous_dual_def specs opn example_open_reads d ms ref Let_def)
  have toks: "map fst (dict_of_pairs (map (\<lambda>(out, t). (t, out)) (entry_specifications exchange_init example_mkt))) =
      [''111'', ''222'']"
    by (simp add: specs d)
  have none: "ex_cancelled exchange_init = []" by (simp add: exchange_init_def)
  from reconcile_dual_takes_own_orders [OF r ne opn rd] r show ?thesis
    unfolding toks none by (intro exI [of _ result] exI [of _ ex']) simp
qed

end
