(* ===== verification/Fleet.thy ===== *)
theory Fleet
  imports Exchange
begin

text \<open>
  \<open>polymarket_bot/fleet.py\<close>: several accounts that knock one market on one timetable. Every
  member carries its own exchange state; the venue's clients are given by member name. The
  wait for the venue's registration times is the list of the clock's readings, one per pass,
  the last of them at the deadline.
\<close>

subsection \<open>Members and placements\<close>

record fleet_member =
  fm_name :: string
  fm_exchange :: exchange
  fm_size :: rat
  fm_phase_offset_ms :: rat

record member_placement =
  mp_member :: string
  mp_result :: "placement_result option"
  mp_error :: "string option"

text \<open>What the knock's watch on the market record saw.\<close>

record preview_seen =
  ps_seen_ms :: "int option"
  ps_anchor_ms :: rat

record fleet_placement =
  fp_placements :: "member_placement list"
  fp_kept :: "string option"
  fp_orders :: "placed_order list"
  fp_cancelled_order_ids :: "string list"
  fp_cancel_errors :: "string list"
  fp_kept_by :: "string option"
  fp_venue_registered_ts_ms :: "(string, int) dict option"
  fp_preview :: "preview_seen option"

definition registered :: "member_placement \<Rightarrow> bool" where
  "registered p = (case mp_result p of None \<Rightarrow> False | Some r \<Rightarrow> complete r)"

definition fp_attempts :: "fleet_placement \<Rightarrow> int" where
  "fp_attempts fp =
     sum_list (map pr_attempts (List.map_filter mp_result (fp_placements fp)))"

definition placement_error :: "member_placement \<Rightarrow> string option" where
  "placement_error p =
     (case mp_error p of
        Some e \<Rightarrow> if e \<noteq> [] then Some (mp_member p @ '': '' @ e)
                  else (case Option.bind (mp_result p) pr_error of
                          Some e \<Rightarrow> if e \<noteq> [] then Some (mp_member p @ '': '' @ e) else None
                        | None \<Rightarrow> None)
      | None \<Rightarrow> (case Option.bind (mp_result p) pr_error of
                   Some e \<Rightarrow> if e \<noteq> [] then Some (mp_member p @ '': '' @ e) else None
                 | None \<Rightarrow> None))"

definition fp_error :: "fleet_placement \<Rightarrow> string option" where
  "fp_error fp =
     (if fp_kept fp \<noteq> None then None
      else let t = join ''; '' (List.map_filter placement_error (fp_placements fp))
           in Some (if t = [] then ''no member registered an order'' else t))"

definition fp_retryable :: "fleet_placement \<Rightarrow> bool" where
  "fp_retryable fp =
     (fp_kept fp = None \<and> list_all (\<lambda>p. case mp_result p of None \<Rightarrow> False
        | Some r \<Rightarrow> pr_retryable r \<and> pr_orders r = []) (fp_placements fp))"

definition fp_gave_up :: "fleet_placement \<Rightarrow> bool" where
  "fp_gave_up fp =
     (fp_kept fp = None \<and> list_all (\<lambda>p. case mp_result p of None \<Rightarrow> False
        | Some r \<Rightarrow> pr_gave_up r \<and> pr_orders r = []) (fp_placements fp))"

definition kept_order_ids :: "fleet_placement \<Rightarrow> string list" where
  "kept_order_ids fp =
     map po_order_id (filter (\<lambda>p. Some (po_account p) = fp_kept fp) (fp_orders fp))"

subsection \<open>Cancel replies\<close>

text \<open>The ids a reply calls cancelled, and those it calls already gone.\<close>

definition cancel_outcome :: "json \<Rightarrow> exn + string list \<times> string list" where
  "cancel_outcome result =
     (if \<not> is_dict result then Return ([], [])
      else rbind (py_iter (pget_list ''canceled'' (as_dict result))) (\<lambda>canceled.
        let canceled = map py_str canceled; not_canceled = pget ''not_canceled'' (as_dict result) in
        if \<not> is_dict not_canceled then Return (canceled, [])
        else Return (canceled,
          map fst (filter (\<lambda>(order_id, reason).
            contains ''already canceled or matched'' (lower (py_str reason))) (as_dict not_canceled)))))"

subsection \<open>The fleet\<close>

record fleet =
  fl_members :: "fleet_member list"
  fl_keep_best :: bool

definition evenly_phased :: "(string \<times> exchange \<times> rat) list \<Rightarrow> rat \<Rightarrow> fleet_member list" where
  "evenly_phased members interval_ms =
     map (\<lambda>(i, name, ex, sz).
        \<lparr>fm_name = name, fm_exchange = ex, fm_size = sz,
         fm_phase_offset_ms = ddiv (dmul interval_ms (of_nat i)) (of_nat (length members))\<rparr>)
       (enumerate 0 members)"

definition fleet_init :: "fleet_member list \<Rightarrow> bool \<Rightarrow> exn + fleet" where
  "fleet_init members keep_best =
     (if members = [] then Raise (ValueError ''a fleet needs at least one member'')
      else if card (set (map fm_name members)) \<noteq> length (map fm_name members) then
        Raise (ValueError ''fleet member names must be unique'')
      else Return \<lparr>fl_members = members, fl_keep_best = keep_best\<rparr>)"

definition primary :: "fleet \<Rightarrow> fleet_member" where
  "primary fl = hd (fl_members fl)"

definition fleet_find :: "fleet \<Rightarrow> string \<Rightarrow> exn + fleet_member" where
  "fleet_find fl name =
     (case find (\<lambda>m. fm_name m = name) (fl_members fl) of
        None \<Rightarrow> Raise (KeyError name) | Some m \<Rightarrow> Return m)"

text \<open>The member's own exchange after an operation of it.\<close>

definition set_exchange :: "string \<Rightarrow> exchange \<Rightarrow> fleet \<Rightarrow> fleet" where
  "set_exchange name ex fl =
     fl\<lparr>fl_members := map (\<lambda>m. if fm_name m = name then m\<lparr>fm_exchange := ex\<rparr> else m) (fl_members fl)\<rparr>"

subsection \<open>Looking orders up across the members\<close>

definition raw_order_id :: "json \<Rightarrow> string" where
  "raw_order_id raw =
     (if is_dict raw then py_str (por (pget ''id'' (as_dict raw)) (por (pget ''orderID'' (as_dict raw))
        (por (pget ''orderId'' (as_dict raw)) (JStr [])))) else [])"

definition with_account :: "string \<Rightarrow> json \<Rightarrow> json" where
  "with_account name raw =
     (if is_dict raw then JObj (dict_set ''account'' (JStr name) (as_dict raw)) else raw)"

definition view_open_orders ::
  "(string \<Rightarrow> venue) \<Rightarrow> fleet \<Rightarrow> string option \<Rightarrow> exn + json list" where
  "view_open_orders venues fl condition_id =
     rbind (rtraverse (\<lambda>m. rbind (ve_open_orders (venues (fm_name m)) condition_id)
              (\<lambda>raws. Return (map (with_account (fm_name m)) raws))) (fl_members fl))
       (\<lambda>rows. Return (concat rows))"

fun view_get :: "(string \<Rightarrow> venue) \<Rightarrow> string \<Rightarrow> fleet_member list \<Rightarrow> exn option \<Rightarrow> exn + json option" where
  "view_get venues order_id [] last_error =
     (case last_error of Some e \<Rightarrow> Raise e | None \<Rightarrow> Return None)"
| "view_get venues order_id (m # ms) last_error =
     (case ve_get_order (venues (fm_name m)) order_id of
        Inl e \<Rightarrow> view_get venues order_id ms (Some e)
      | Inr raw \<Rightarrow>
          if raw_order_id raw = order_id then
            if is_dict raw then Return (Some (with_account (fm_name m) raw))
            else Raise (TypeError ''object is not a mapping'')
          else view_get venues order_id ms last_error)"

definition view_get_order :: "(string \<Rightarrow> venue) \<Rightarrow> fleet \<Rightarrow> string \<Rightarrow> exn + json option" where
  "view_get_order venues fl order_id = view_get venues order_id (fl_members fl) None"

subsection \<open>Choosing which order to keep\<close>

type_synonym reg_clock = "string \<Rightarrow> int option"

text \<open>The stamps one pass collects: the members all of whose orders have a venue time.\<close>

definition member_stamp :: "reg_clock \<Rightarrow> member_placement \<Rightarrow> int option" where
  "member_stamp clock p =
     (let found = map (clock \<circ> po_order_id) (case mp_result p of None \<Rightarrow> [] | Some r \<Rightarrow> pr_orders r) in
      if found \<noteq> [] \<and> list_all (\<lambda>s. s \<noteq> None) found
      then Some (Min (set (List.map_filter id found))) else None)"

definition pass_stamps :: "reg_clock \<Rightarrow> member_placement list \<Rightarrow> (string, int) dict" where
  "pass_stamps clock regs =
     foldl (\<lambda>d p. case member_stamp clock p of None \<Rightarrow> d | Some t \<Rightarrow> dict_set (mp_member p) t d) [] regs"

fun venue_stamps :: "reg_clock list \<Rightarrow> member_placement list \<Rightarrow> (string, int) dict option" where
  "venue_stamps [] regs = None"
| "venue_stamps (clock # clocks) regs =
     (let stamps = pass_stamps clock regs in
      if length stamps = length regs then Some stamps else venue_stamps clocks regs)"

text \<open>\<open>clocks\<close> is \<open>None\<close> where the service has wired no registration clock.\<close>

definition choose_kept ::
  "reg_clock list option \<Rightarrow> member_placement list \<Rightarrow>
     string option \<times> string option \<times> (string, int) dict option" where
  "choose_kept clocks placements =
     (let regs = filter (\<lambda>(i, p). registered p) (enumerate 0 placements) in
      if regs = [] then (None, None, None)
      else case (case clocks of None \<Rightarrow> None | Some cs \<Rightarrow> venue_stamps cs (map snd regs)) of
        Some stamps \<Rightarrow>
          (Some (mp_member (snd (arg_min_list (\<lambda>(i, p).
             ((case dict_get stamps (mp_member p) of Some t \<Rightarrow> t | None \<Rightarrow> 0), i)) regs))),
           Some ''venue'', Some stamps)
      | None \<Rightarrow>
          (Some (mp_member (snd (arg_min_list (\<lambda>(i, p).
             let t = Option.bind (mp_result p) pr_registered_ts_ms in
             (t = None, (case t of Some ms \<Rightarrow> ms | None \<Rightarrow> 0), i)) regs))),
           Some ''reply'', None))"

subsection \<open>Settling\<close>

definition laggard :: "fleet \<Rightarrow> string option \<Rightarrow> member_placement \<Rightarrow> bool" where
  "laggard fl kept p = (fl_keep_best fl \<and> kept \<noteq> None \<and> Some (mp_member p) \<noteq> kept \<and> registered p)"

definition settled_status :: "string list \<Rightarrow> string list \<Rightarrow> placed_order \<Rightarrow> string" where
  "settled_status canceled_ids terminal_ids order =
     (if po_order_id order \<in> set canceled_ids then ''cancelled''
      else if po_order_id order \<in> set terminal_ids then ''terminal_unknown''
      else ''cancel_requested'')"

type_synonym settled = "placed_order list \<times> string list \<times> string list"

fun settle ::
  "(string \<Rightarrow> venue) \<Rightarrow> string option \<Rightarrow> member_placement list \<Rightarrow> settled \<Rightarrow> fleet \<Rightarrow>
     (exn + settled) \<times> fleet" where
  "settle venues kept [] acc fl = (Return acc, fl)"
| "settle venues kept (p # ps) (orders, cancelled, errors) fl =
     (let result_orders = (case mp_result p of None \<Rightarrow> [] | Some r \<Rightarrow> pr_orders r) in
      if result_orders = [] then settle venues kept ps (orders, cancelled, errors) fl
      else let stamped = map (\<lambda>order. order\<lparr>po_account := mp_member p\<rparr>) result_orders in
        if \<not> laggard fl kept p then settle venues kept ps (orders @ stamped, cancelled, errors) fl
        else let failed = (\<lambda>e fl. settle venues kept ps
                   (orders @ map (\<lambda>order. order\<lparr>po_status := ''cancel_requested''\<rparr>) stamped, cancelled,
                    errors @ [mp_member p @ '': '' @ exn_text e]) fl)
             in case fleet_find fl (mp_member p) of
                  Inl e \<Rightarrow> failed e fl
                | Inr m \<Rightarrow>
                    (case cancel_orders (venues (fm_name m)) (map po_order_id stamped) (fm_exchange m) of
                       (Inl e, ex) \<Rightarrow> failed e (set_exchange (fm_name m) ex fl)
                     | (Inr reply, ex) \<Rightarrow>
                         (case cancel_outcome reply of
                            Inl e \<Rightarrow> (Raise e, set_exchange (fm_name m) ex fl)
                          | Inr (canceled_ids, terminal_ids) \<Rightarrow>
                              settle venues kept ps
                                (orders @ map (\<lambda>order. order\<lparr>po_status :=
                                   settled_status canceled_ids terminal_ids order\<rparr>) stamped,
                                 cancelled @ filter (\<lambda>i. i \<in> set canceled_ids) (map po_order_id stamped),
                                 errors)
                                (set_exchange (fm_name m) ex fl))))"

subsection \<open>Placing\<close>

type_synonym outcomes = "(string, member_placement) dict"

definition put_outcome :: "string \<Rightarrow> placement_result option \<Rightarrow> string option \<Rightarrow> outcomes \<Rightarrow> outcomes" where
  "put_outcome name result error d =
     dict_set name \<lparr>mp_member = name, mp_result = result, mp_error = error\<rparr> d"

text \<open>Every member signs; \<open>signing\<close> gives each member's tries and the clock at their start.\<close>

fun prepare_members ::
  "(string \<Rightarrow> venue) \<Rightarrow> (string \<Rightarrow> (nat \<Rightarrow> sign_pass) \<times> rat) \<Rightarrow> market \<Rightarrow> rat \<Rightarrow> fleet_member list \<Rightarrow>
     outcomes \<times> (string, entry) dict \<times> fleet \<Rightarrow> outcomes \<times> (string, entry) dict \<times> fleet" where
  "prepare_members venues signing m price [] st = st"
| "prepare_members venues signing m price (mb # mbs) (outs, entries, fl) =
     prepare_members venues signing m price mbs
       (let name = fm_name mb; (passes, start) = signing name in
        case prepare_entry (venues name) passes start m price (fm_size mb) (fm_exchange mb) of
          (Inl e, ex) \<Rightarrow> (put_outcome name None (Some (exn_text e)) outs, entries, set_exchange name ex fl)
        | (Inr (Refused r), ex) \<Rightarrow> (put_outcome name (Some r) None outs, entries, set_exchange name ex fl)
        | (Inr (Ready en), ex) \<Rightarrow> (outs, dict_set name en entries, set_exchange name ex fl))"

text \<open>
  The members' outcomes of the knock are settled in turn; \<open>zip\<close> is strict, so a library that
  reports another number of members than knocked ends in a ValueError.
\<close>

fun settle_members ::
  "(string \<Rightarrow> venue) \<Rightarrow> (string \<times> entry) list \<Rightarrow> member_outcome list \<Rightarrow> outcomes \<times> fleet \<Rightarrow>
     exn + outcomes \<times> fleet" where
  "settle_members venues [] [] st = Return st"
| "settle_members venues ((name, en) # knocking) (out # outs) (d, fl) =
     (case fleet_find fl name of
        Inl e \<Rightarrow> settle_members venues knocking outs (put_outcome name None (Some (exn_text e)) d, fl)
      | Inr m \<Rightarrow>
          (case settle_entry (venues name) en out (fm_exchange m) of
             (Inl e, ex) \<Rightarrow>
               settle_members venues knocking outs
                 (put_outcome name None (Some (exn_text e)) d, set_exchange name ex fl)
           | (Inr r, ex) \<Rightarrow>
               settle_members venues knocking outs (put_outcome name (Some r) None d, set_exchange name ex fl)))"
| "settle_members venues _ _ st =
     Raise (ValueError ''zip() argument 2 has another length than argument 1'')"

record place_world =
  pw_venues :: "string \<Rightarrow> venue"
  pw_signing :: "string \<Rightarrow> (nat \<Rightarrow> sign_pass) \<times> rat"
  pw_knock :: "knock_plan \<Rightarrow> exn + member_outcome list \<times> preview_seen option"
  pw_clocks :: "reg_clock list option"
  pw_now :: rat

definition knock_fleet ::
  "place_world \<Rightarrow> market \<Rightarrow> rat \<Rightarrow> rat \<Rightarrow> preview_spec option \<Rightarrow> (string \<times> entry) list \<Rightarrow>
     outcomes \<times> fleet \<Rightarrow> exn + (outcomes \<times> fleet) \<times> preview_seen option" where
  "knock_fleet w m interval until preview knocking st =
     (let (outs, fl) = st;
          parts = map (\<lambda>(name, en). knock_member en name
            (case find (\<lambda>mb. fm_name mb = name) (fl_members fl) of
               Some mb \<Rightarrow> fm_phase_offset_ms mb | None \<Rightarrow> 0)) knocking
      in if knocking = [] then Return (st, None)
         else case pw_knock w (knock_plan_of m parts interval until preview) of
           Inl e \<Rightarrow>
             Return ((foldl (\<lambda>d (name, _). put_outcome name None (Some (exn_text e)) d) outs knocking, fl), None)
         | Inr (results, seen) \<Rightarrow>
             rbind (settle_members (pw_venues w) knocking results st) (\<lambda>st. Return (st, seen)))"

definition look_outcomes :: "outcomes \<Rightarrow> fleet_member list \<Rightarrow> exn + member_placement list" where
  "look_outcomes outs members =
     rtraverse (\<lambda>mb. case dict_get outs (fm_name mb) of
       None \<Rightarrow> Raise (KeyError (fm_name mb)) | Some p \<Rightarrow> Return p) members"

definition fleet_place ::
  "place_world \<Rightarrow> market \<Rightarrow> rat \<Rightarrow> rat \<Rightarrow> rat option \<Rightarrow> preview_spec option \<Rightarrow> fleet \<Rightarrow>
     (exn + fleet_placement) \<times> fleet" where
  "fleet_place w m price interval knock_until_ts preview fl =
     (let until = (case knock_until_ts of Some t \<Rightarrow> t | None \<Rightarrow> pw_now w + KNOCK_SECONDS);
          (outs, entries, fl) =
            prepare_members (pw_venues w) (pw_signing w) m price (fl_members fl) ([], [], fl);
          knocking = List.map_filter (\<lambda>mb. map_option (\<lambda>en. (fm_name mb, en))
            (dict_get entries (fm_name mb))) (fl_members fl)
      in case knock_fleet w m interval until preview knocking (outs, fl) of
           Inl e \<Rightarrow> (Raise e, fl)
         | Inr ((outs, fl), seen) \<Rightarrow>
             (case look_outcomes outs (fl_members fl) of
                Inl e \<Rightarrow> (Raise e, fl)
              | Inr placements \<Rightarrow>
                  (let (kept, kept_by, stamps) = choose_kept (pw_clocks w) placements in
                   case settle (pw_venues w) kept placements ([], [], []) fl of
                     (Inl e, fl) \<Rightarrow> (Raise e, fl)
                   | (Inr (orders, cancelled, errors), fl) \<Rightarrow>
                       (Return \<lparr>fp_placements = placements, fp_kept = kept, fp_orders = orders,
                          fp_cancelled_order_ids = cancelled, fp_cancel_errors = errors,
                          fp_kept_by = kept_by, fp_venue_registered_ts_ms = stamps, fp_preview = seen\<rparr>, fl))))"

subsection \<open>Which order is kept\<close>


















subsection \<open>One ticket per market\<close>

definition placed_orders :: "member_placement \<Rightarrow> placed_order list" where
  "placed_orders p = (case mp_result p of None \<Rightarrow> [] | Some r \<Rightarrow> pr_orders r)"

definition withdrawn_states :: "string set" where
  "withdrawn_states = {''cancelled'', ''terminal_unknown'', ''cancel_requested''}"

text \<open>The cancel requests a member's exchange has sent, in order.\<close>

definition cancel_log :: "fleet \<Rightarrow> string \<Rightarrow> string list list" where
  "cancel_log fl name =
     (case find (\<lambda>m. fm_name m = name) (fl_members fl) of
        None \<Rightarrow> [] | Some m \<Rightarrow> ex_cancelled (fm_exchange m))"

text \<open>
  What becomes of the orders of a member that is withdrawn, by what its venue answers to the
  cancel of them all: cancelled, or known to be gone, exactly where the reply says so of that
  order, and left for reconciliation otherwise, and where there is no answer.
\<close>

definition withdrawn_block :: "venue \<Rightarrow> placed_order list \<Rightarrow> bool" where
  "withdrawn_block v block \<longleftrightarrow>
     (case rbind (ve_cancel v (map po_order_id block)) cancel_outcome of
        Inl e \<Rightarrow> list_all (\<lambda>o'. po_status o' = ''cancel_requested'') block
      | Inr (canceled, gone) \<Rightarrow> list_all (\<lambda>o'. po_status o' \<in> withdrawn_states \<and>
          (po_status o' = ''cancelled'' \<longleftrightarrow> po_order_id o' \<in> set canceled) \<and>
          (po_status o' = ''terminal_unknown'' \<longleftrightarrow>
             po_order_id o' \<in> set gone \<and> po_order_id o' \<notin> set canceled)) block)"

text \<open>What settling makes of one member's orders.\<close>

definition settled_block :: "(string \<Rightarrow> venue) \<Rightarrow> bool \<Rightarrow> member_placement \<Rightarrow> placed_order list \<Rightarrow> bool" where
  "settled_block venues withdrawn p block \<longleftrightarrow>
     map po_order_id block = map po_order_id (placed_orders p) \<and>
     list_all (\<lambda>o'. po_account o' = mp_member p) block \<and>
     (if withdrawn then block = [] \<or> withdrawn_block (venues (mp_member p)) block
      else block = map (\<lambda>o'. o'\<lparr>po_account := mp_member p\<rparr>) (placed_orders p))"

text \<open>Whether settling cancels a member's orders.\<close>

definition cancels :: "fleet \<Rightarrow> string option \<Rightarrow> member_placement \<Rightarrow> bool" where
  "cancels fl kept p \<longleftrightarrow> laggard fl kept p \<and> placed_orders p \<noteq> []"

definition confirmed :: "bool \<Rightarrow> placed_order list \<Rightarrow> string list" where
  "confirmed withdrawn block =
     (if withdrawn then map po_order_id (filter (\<lambda>o'. po_status o' = ''cancelled'') block) else [])"

lemma laggard_set_exchange [simp]: "laggard (set_exchange n ex fl) kept p = laggard fl kept p"
  by (simp add: laggard_def set_exchange_def)

lemma cancels_set_exchange [simp]: "cancels (set_exchange n ex fl) kept p = cancels fl kept p"
  by (simp add: cancels_def)

definition fleet_names :: "fleet \<Rightarrow> string list" where
  "fleet_names fl = map fm_name (fl_members fl)"

lemma set_exchange_frame [simp]:
  "fleet_names (set_exchange n ex fl) = fleet_names fl"
  "fl_keep_best (set_exchange n ex fl) = fl_keep_best fl"
  by (auto simp: fleet_names_def set_exchange_def)

lemma find_name:
  "find (\<lambda>m. fm_name m = k) ms = Some m \<Longrightarrow> fm_name m = k \<and> k \<in> fm_name ` set ms"
  "find (\<lambda>m. fm_name m = k) ms = None \<Longrightarrow> k \<notin> fm_name ` set ms"
  by (induction ms) (auto split: if_splits)

lemma cancel_log_set:
  "cancel_log (set_exchange n ex fl) k =
     (if k = n \<and> n \<in> set (fleet_names fl) then ex_cancelled ex else cancel_log fl k)"
proof -
  have f: "find (\<lambda>m. fm_name m = k) (map (\<lambda>m. if fm_name m = n then m\<lparr>fm_exchange := ex\<rparr> else m) ms) =
      map_option (\<lambda>m. if fm_name m = n then m\<lparr>fm_exchange := ex\<rparr> else m) (find (\<lambda>m. fm_name m = k) ms)" for ms
    by (induction ms) auto
  show ?thesis
  proof (cases "find (\<lambda>m. fm_name m = k) (fl_members fl)")
    case None
    with find_name(2) [OF None] show ?thesis by (auto simp: cancel_log_def set_exchange_def fleet_names_def f)
  next
    case (Some m)
    with find_name(1) [OF Some] show ?thesis by (auto simp: cancel_log_def set_exchange_def fleet_names_def f)
  qed
qed

lemma fleet_find_log: "fleet_find fl n = Return m \<Longrightarrow> fm_name m = n \<and> ex_cancelled (fm_exchange m) = cancel_log fl n"
  by (cases "find (\<lambda>m. fm_name m = n) (fl_members fl)")
    (auto simp: fleet_find_def cancel_log_def dest: find_name(1))

lemma fleet_find_total: "n \<in> set (fleet_names fl) \<Longrightarrow> \<exists>m. fleet_find fl n = Return m"
  by (force simp: fleet_find_def fleet_names_def find_None_iff split: option.split)

lemma withdrawn_requested:
  "rbind (ve_cancel v (map po_order_id os)) cancel_outcome = Raise e \<Longrightarrow>
     withdrawn_block v (map (\<lambda>o'. o'\<lparr>po_status := ''cancel_requested''\<rparr>) os)"
  by (simp add: withdrawn_block_def list.pred_map comp_def list_all_iff)

lemma withdrawn_answered:
  "rbind (ve_cancel v (map po_order_id os)) cancel_outcome = Return (c, t) \<Longrightarrow>
     withdrawn_block v (map (\<lambda>o'. o'\<lparr>po_status := settled_status c t o'\<rparr>) os)"
  by (auto simp: withdrawn_block_def list.pred_map comp_def list_all_iff settled_status_def withdrawn_states_def)

lemma confirmed_answered:
  "confirmed True (map (\<lambda>o'. o'\<lparr>po_status := settled_status c t o'\<rparr>) os) =
     filter (\<lambda>i. i \<in> set c) (map po_order_id os)"
  by (induction os) (auto simp: confirmed_def settled_status_def)

lemma confirmed_requested: "confirmed True (map (\<lambda>o'. o'\<lparr>po_status := ''cancel_requested''\<rparr>) os) = []"
  by (simp add: confirmed_def filter_empty_conv)

text \<open>One member is settled: its orders, the ids confirmed, and the request it sends.\<close>

lemma settle_step:
  assumes "settle venues kept (p # ps) (orders, cancelled, errors) fl = (Return (orders', cancelled', errors'), fl')"
    and "mp_member p \<in> set (fleet_names fl)"
  shows "\<exists>block er fl2. (\<forall>q. cancels fl2 kept q = cancels fl kept q) \<and> fleet_names fl2 = fleet_names fl \<and>
      settle venues kept ps (orders @ block, cancelled @ confirmed (cancels fl kept p) block, er) fl2 =
        (Return (orders', cancelled', errors'), fl') \<and>
      settled_block venues (cancels fl kept p) p block \<and>
      (\<forall>k. cancel_log fl2 k = cancel_log fl k @
        (if k = mp_member p \<and> cancels fl kept p then [map po_order_id (placed_orders p)] else []))"
proof -
  let ?stamped = "map (\<lambda>o'. o'\<lparr>po_account := mp_member p\<rparr>) (placed_orders p)"
  let ?ids = "map po_order_id (placed_orders p)"
  have ids: "map po_order_id ?stamped = ?ids" by simp
  show ?thesis
  proof (cases "cancels fl kept p")
    case False
    then have "settle venues kept ps (orders @ ?stamped, cancelled, errors) fl = (Return (orders', cancelled', errors'), fl')"
      using assms(1) by (cases "placed_orders p = []") (auto simp: Let_def placed_orders_def cancels_def)
    moreover have "settled_block venues False p ?stamped"
      by (simp add: settled_block_def list.pred_map comp_def list_all_iff)
    ultimately show ?thesis using False
      by (intro exI [of _ ?stamped] exI [of _ errors] exI [of _ fl]) (simp add: confirmed_def)
  next
    case True
    then have lag: "laggard fl kept p" "placed_orders p \<noteq> []" by (simp_all add: cancels_def)
    let ?wd = "\<lambda>st. map (\<lambda>o'. o'\<lparr>po_status := st o'\<rparr>) ?stamped"
    obtain m where m: "fleet_find fl (mp_member p) = Return m" using fleet_find_total [OF assms(2)] by blast
    then have name: "fm_name m = mp_member p" and log: "ex_cancelled (fm_exchange m) = cancel_log fl (mp_member p)"
      using fleet_find_log by blast+
    let ?v = "venues (mp_member p)"
    let ?ex = "(fm_exchange m)\<lparr>ex_cancelled := ex_cancelled (fm_exchange m) @ [?ids]\<rparr>"
    let ?fl = "set_exchange (mp_member p) ?ex fl"
    have c: "cancel_orders ?v ?ids (fm_exchange m) = (ve_cancel ?v ?ids, ?ex)"
      using lag(2) by (simp add: cancel_orders_def client_cancel_def)
    have sent: "cancel_log ?fl k = cancel_log fl k @ (if k = mp_member p \<and> cancels fl kept p then [?ids] else [])" for k
      using assms(2) True log by (simp add: cancel_log_set)
    show ?thesis
    proof (cases "ve_cancel ?v ?ids")
      case (Inl e)
      let ?b = "?wd (\<lambda>_. ''cancel_requested'')"
      have "settled_block venues True p ?b"
        using withdrawn_requested [of ?v ?stamped e] Inl
        by (simp add: settled_block_def list.pred_map comp_def list_all_iff)
      moreover have "settle venues kept ps (orders @ ?b, cancelled,
          errors @ [mp_member p @ '': '' @ exn_text e]) ?fl = (Return (orders', cancelled', errors'), fl')"
        using assms(1) lag m name Inl c by (simp add: Let_def placed_orders_def [symmetric] comp_def)
      ultimately show ?thesis
        by (intro exI [of _ ?b] exI [of _ "errors @ [mp_member p @ '': '' @ exn_text e]"] exI [of _ ?fl])
          (simp only: True sent confirmed_requested cancels_set_exchange set_exchange_frame append_Nil2 simp_thms)
    next
      case reply: (Inr reply)
      then obtain ci ti where o: "cancel_outcome reply = Return (ci, ti)"
        using assms(1) lag m name c
        by (cases "cancel_outcome reply") (auto simp: Let_def placed_orders_def [symmetric] comp_def)
      let ?b = "?wd (settled_status ci ti)"
      have "settled_block venues True p ?b"
        using withdrawn_answered [of ?v ?stamped ci ti] reply o
        by (simp add: settled_block_def list.pred_map comp_def list_all_iff)
      moreover have "settle venues kept ps (orders @ ?b, cancelled @ confirmed True ?b, errors) ?fl =
          (Return (orders', cancelled', errors'), fl')"
        using assms(1) lag m name reply o c unfolding confirmed_answered
        by (simp add: Let_def placed_orders_def [symmetric] comp_def)
      ultimately show ?thesis
        by (intro exI [of _ ?b] exI [of _ errors] exI [of _ ?fl])
          (simp only: True sent cancels_set_exchange set_exchange_frame simp_thms)
    qed
  qed
qed

lemma settle_blocks:
  assumes "settle venues kept ps (orders, cancelled, errors) fl = (Return (orders', cancelled', errors'), fl')"
    and "set (map mp_member ps) \<subseteq> set (fleet_names fl)" "distinct (map mp_member ps)"
  shows "\<exists>blocks. orders' = orders @ concat blocks \<and>
    cancelled' = cancelled @ concat (map2 (\<lambda>p. confirmed (cancels fl kept p)) ps blocks) \<and>
    list_all2 (\<lambda>p. settled_block venues (cancels fl kept p) p) ps blocks \<and>
    (\<forall>k. k \<notin> mp_member ` set ps \<longrightarrow> cancel_log fl' k = cancel_log fl k) \<and>
    (\<forall>p \<in> set ps. cancel_log fl' (mp_member p) = cancel_log fl (mp_member p) @
      (if cancels fl kept p then [map po_order_id (placed_orders p)] else []))"
  using assms
proof (induction ps arbitrary: orders cancelled errors fl)
  case Nil
  then show ?case by auto
next
  case (Cons p ps)
  have mem: "mp_member p \<in> set (fleet_names fl)" using Cons.prems(2) by simp
  from settle_step [OF Cons.prems(1) mem] obtain block er fl2 where b:
    "\<And>q. cancels fl2 kept q = cancels fl kept q" "fleet_names fl2 = fleet_names fl"
    "settle venues kept ps (orders @ block, cancelled @ confirmed (cancels fl kept p) block, er) fl2 =
      (Return (orders', cancelled', errors'), fl')"
    "settled_block venues (cancels fl kept p) p block"
    "\<And>k. cancel_log fl2 k = cancel_log fl k @
        (if k = mp_member p \<and> cancels fl kept p then [map po_order_id (placed_orders p)] else [])" by blast
  have "set (map mp_member ps) \<subseteq> set (fleet_names fl2)" "distinct (map mp_member ps)"
    using Cons.prems(2,3) b(2) by simp_all
  from Cons.IH [OF b(3) this] obtain blocks where r:
    "orders' = (orders @ block) @ concat blocks"
    "cancelled' = (cancelled @ confirmed (cancels fl kept p) block) @
       concat (map2 (\<lambda>p. confirmed (cancels fl kept p)) ps blocks)"
    "list_all2 (\<lambda>p. settled_block venues (cancels fl kept p) p) ps blocks"
    "\<And>k. k \<notin> mp_member ` set ps \<Longrightarrow> cancel_log fl' k = cancel_log fl2 k"
    "\<And>q. q \<in> set ps \<Longrightarrow> cancel_log fl' (mp_member q) = cancel_log fl2 (mp_member q) @
      (if cancels fl kept q then [map po_order_id (placed_orders q)] else [])"
    unfolding b(1) by blast
  have new: "mp_member p \<notin> mp_member ` set ps" using Cons.prems(3) by simp
  have "cancel_log fl' (mp_member q) = cancel_log fl (mp_member q) @
      (if cancels fl kept q then [map po_order_id (placed_orders q)] else [])" if "q \<in> set (p # ps)" for q
  proof (cases "q = p")
    case True
    then show ?thesis using r(4) [OF new] b(5) by simp
  next
    case False
    then have q: "q \<in> set ps" using that by simp
    then have "mp_member q \<noteq> mp_member p" using new by (metis imageI)
    then show ?thesis using r(5) [OF q] b(5) by simp
  qed
  moreover have "cancel_log fl' k = cancel_log fl k" if "k \<notin> mp_member ` set (p # ps)" for k
    using that r(4) [of k] b(5) [of k] by simp
  ultimately show ?case using r(1-3) b(4)
    by (intro exI [of _ "block # blocks"]) simp
qed

definition outcomes_ok :: "outcomes \<Rightarrow> bool" where
  "outcomes_ok d \<longleftrightarrow> (\<forall>n p. dict_get d n = Some p \<longrightarrow> mp_member p = n)"

lemma put_outcome_simps [simp]:
  "dict_keys (put_outcome n r e d) = insert n (dict_keys d)"
  "outcomes_ok d \<Longrightarrow> outcomes_ok (put_outcome n r e d)"
  by (auto simp: put_outcome_def outcomes_ok_def)

lemma cover_trans: "A \<subseteq> B \<Longrightarrow> B \<union> C \<subseteq> D \<Longrightarrow> A \<union> C \<subseteq> D"
  by blast

lemma cover_split: "N \<subseteq> A \<union> B \<Longrightarrow> N \<inter> B \<subseteq> K \<Longrightarrow> N \<subseteq> A \<union> K"
  by blast

lemma prepare_members_outcomes:
  assumes "prepare_members venues signing m price mbs (outs, entries, fl) = (outs', entries', fl')"
    and "outcomes_ok outs"
  shows "outcomes_ok outs' \<and> fleet_names fl' = fleet_names fl \<and> fl_keep_best fl' = fl_keep_best fl \<and>
    dict_keys outs \<union> dict_keys entries \<union> fm_name ` set mbs \<subseteq> dict_keys outs' \<union> dict_keys entries'"
  using assms
proof (induction mbs arbitrary: outs entries fl)
  case (Cons mb mbs)
  let ?n = "fm_name mb"
  obtain r ex where prep: "prepare_entry (venues ?n) (fst (signing ?n)) (snd (signing ?n)) m price
      (fm_size mb) (fm_exchange mb) = (r, ex)"
    by (cases "prepare_entry (venues ?n) (fst (signing ?n)) (snd (signing ?n)) m price
      (fm_size mb) (fm_exchange mb)")
  have step: "\<exists>o2 e2. prepare_members venues signing m price mbs (o2, e2, set_exchange ?n ex fl) = (outs', entries', fl') \<and>
      outcomes_ok o2 \<and> insert ?n (dict_keys outs \<union> dict_keys entries) \<subseteq> dict_keys o2 \<union> dict_keys e2"
  proof (cases r)
    case (Inl e)
    then show ?thesis using Cons.prems prep
      by (intro exI [of _ "put_outcome ?n None (Some (exn_text e)) outs"] exI [of _ entries])
        (auto simp: Let_def split: prod.splits)
  next
    case (Inr pr)
    then show ?thesis
    proof (cases pr)
      case (Ready en)
      then show ?thesis using Cons.prems prep Inr
        by (intro exI [of _ outs] exI [of _ "dict_set ?n en entries"])
          (auto simp: Let_def split: prod.splits)
    next
      case (Refused pl)
      then show ?thesis using Cons.prems prep Inr
        by (intro exI [of _ "put_outcome ?n (Some pl) None outs"] exI [of _ entries])
          (auto simp: Let_def split: prod.splits)
    qed
  qed
  then obtain o2 e2 where o2: "prepare_members venues signing m price mbs (o2, e2, set_exchange ?n ex fl) = (outs', entries', fl')"
    "outcomes_ok o2" "insert ?n (dict_keys outs \<union> dict_keys entries) \<subseteq> dict_keys o2 \<union> dict_keys e2"
    by blast
  note IH = Cons.IH [OF o2(1,2)]
  have "dict_keys outs \<union> dict_keys entries \<union> fm_name ` set (mb # mbs) =
      insert ?n (dict_keys outs \<union> dict_keys entries) \<union> fm_name ` set mbs" by simp
  also have "\<dots> \<subseteq> dict_keys outs' \<union> dict_keys entries'"
    by (rule cover_trans [OF o2(3)]) (use IH in simp)
  finally show ?case using IH by simp
qed simp

lemma settle_members_outcomes:
  "settle_members venues knocking outs (d, fl) = Return (d', fl') \<Longrightarrow> outcomes_ok d \<Longrightarrow>
     outcomes_ok d' \<and> fleet_names fl' = fleet_names fl \<and> fl_keep_best fl' = fl_keep_best fl \<and>
     dict_keys d' = dict_keys d \<union> fst ` set knocking"
proof (induction venues knocking outs "(d, fl)" arbitrary: d fl rule: settle_members.induct)
  case (2 venues name en knocking out outs d fl)
  show ?case
  proof (cases "fleet_find fl name")
    case (Inl e)
    from "2.hyps"(1) [OF Inl] "2.prems" Inl show ?thesis by auto
  next
    case (Inr m)
    obtain r ex where r: "settle_entry (venues name) en out (fm_exchange m) = (r, ex)" by (cases "settle_entry (venues name) en out (fm_exchange m)")
    show ?thesis
    proof (cases r)
      case (Inl e)
      from "2.hyps"(2) [OF Inr r [symmetric] Inl] "2.prems" Inr r Inl show ?thesis by auto
    next
      case (Inr res)
      from "2.hyps"(3) [OF \<open>fleet_find fl name = Inr m\<close> r [symmetric] Inr] "2.prems"
        \<open>fleet_find fl name = Inr m\<close> r Inr show ?thesis by auto
    qed
  qed
qed auto

lemma foldl_put_outcome:
  "outcomes_ok d \<Longrightarrow> outcomes_ok (foldl (\<lambda>d (n, _). put_outcome n r e d) d xs) \<and>
     dict_keys (foldl (\<lambda>d (n, _). put_outcome n r e d) d xs) = dict_keys d \<union> fst ` set xs"
  by (induction xs arbitrary: d) (simp_all add: split_beta)

lemma knock_fleet_outcomes:
  assumes "knock_fleet w m interval until preview knocking (outs, fl) = Return ((outs', fl'), seen)"
    and "outcomes_ok outs"
  shows "outcomes_ok outs' \<and> fleet_names fl' = fleet_names fl \<and> fl_keep_best fl' = fl_keep_best fl \<and>
    dict_keys outs' = dict_keys outs \<union> fst ` set knocking"
proof (cases "knocking = []")
  case True
  then show ?thesis using assms by (simp add: knock_fleet_def)
next
  case False
  let ?answer = "pw_knock w (knock_plan_of m (map (\<lambda>(name, en). knock_member en name
    (case find (\<lambda>mb. fm_name mb = name) (fl_members fl) of
       Some mb \<Rightarrow> fm_phase_offset_ms mb | None \<Rightarrow> 0)) knocking) interval until preview)"
  show ?thesis
  proof (cases ?answer)
    case (Inl e)
    then have "outs' = foldl (\<lambda>d (name, _). put_outcome name None (Some (exn_text e)) d) outs knocking" "fl' = fl"
      using assms(1) False by (simp_all add: knock_fleet_def)
    then show ?thesis using foldl_put_outcome [OF assms(2)] by simp
  next
    case (Inr answer)
    then have "settle_members (pw_venues w) knocking (fst answer) (outs, fl) = Return (outs', fl')"
      using assms(1) False by (auto simp: knock_fleet_def rbind_Inr_iff split: prod.splits)
    from settle_members_outcomes [OF this assms(2)] show ?thesis .
  qed
qed

lemma settle_members_error:
  "settle_members venues knocking outs st = Raise e \<Longrightarrow> exn_class e = ''ValueError''"
  by (induction venues knocking outs st rule: settle_members.induct)
    (auto split: sum.splits prod.splits)

lemma knock_fleet_error:
  "knock_fleet w m interval until preview knocking st = Raise e \<Longrightarrow> exn_class e = ''ValueError''"
  by (auto simp: knock_fleet_def Let_def rbind_Inl_iff dest: settle_members_error
      split: if_splits sum.splits prod.splits)

lemma cancel_outcome_error: "cancel_outcome reply = Raise e \<Longrightarrow> exn_class e = ''TypeError''"
  by (auto simp: cancel_outcome_def py_iter_def rbind_Inl_iff Let_def split: if_splits json.splits)

lemma settle_error:
  "settle venues kept ps acc fl = (Raise e, fl') \<Longrightarrow> exn_class e = ''TypeError''"
  by (induction venues kept ps acc fl rule: settle.induct)
    (auto simp: Let_def dest: cancel_outcome_error split: if_splits sum.splits prod.splits option.splits)

lemma look_outcomes_total:
  assumes "outcomes_ok outs" "fm_name ` set mbs \<subseteq> dict_keys outs"
  shows "\<exists>ps. look_outcomes outs mbs = Return ps \<and> map mp_member ps = map fm_name mbs"
  using assms(2)
proof (induction mbs)
  case Nil
  then show ?case by (simp add: look_outcomes_def)
next
  case (Cons mb mbs)
  then obtain p where p: "dict_get outs (fm_name mb) = Some p"
    using dict_get_None_iff [of outs "fm_name mb"] by fastforce
  moreover have "mp_member p = fm_name mb" using assms(1) p by (simp add: outcomes_ok_def)
  ultimately show ?case using Cons by (auto simp: look_outcomes_def)
qed

text \<open>Until it is settled, an order that registered is not cancelled at its venue.\<close>

lemma prepare_entry_log:
  assumes "prepare_entry v passes start m price sz ex = (r, ex')"
  shows "ex_cancelled ex' = ex_cancelled ex" "r = Return (Refused pl) \<Longrightarrow> \<not> complete pl"
  using assms
  by (auto simp: prepare_entry_def entry_from_def prime_tick_size_def Let_def complete_def
      split: option.splits sum.splits exn.splits if_splits)

lemma settle_entry_log:
  "settle_entry v en out ex = (Return r, ex') \<Longrightarrow> complete r \<Longrightarrow> ex_cancelled ex' = ex_cancelled ex"
  by (auto simp: settle_entry_def finalize_dual_result_def drop_submission_def client_cancel_def
      split: sum.splits if_splits prod.splits)

definition quiet_since :: "fleet \<Rightarrow> outcomes \<Rightarrow> fleet \<Rightarrow> bool" where
  "quiet_since fl0 d fl \<longleftrightarrow> fleet_names fl = fleet_names fl0 \<and>
     (\<forall>n. (case dict_get d n of None \<Rightarrow> True | Some p \<Rightarrow> registered p) \<longrightarrow> cancel_log fl n = cancel_log fl0 n)"

lemma quiet_put:
  assumes "quiet_since fl0 d fl" "dict_get d n = None"
    and "\<And>r. result = Some r \<Longrightarrow> complete r \<Longrightarrow> ex_cancelled ex = cancel_log fl n"
  shows "quiet_since fl0 (put_outcome n result error d) (set_exchange n ex fl)"
  using assms
  by (auto simp: quiet_since_def cancel_log_set put_outcome_def registered_def split: option.splits)

lemma quiet_put_same:
  "quiet_since fl0 d fl \<Longrightarrow> quiet_since fl0 (put_outcome n None error d) fl"
  by (auto simp: quiet_since_def put_outcome_def registered_def)

lemma quiet_set:
  "quiet_since fl0 d fl \<Longrightarrow> ex_cancelled ex = cancel_log fl n \<Longrightarrow> quiet_since fl0 d (set_exchange n ex fl)"
  by (auto simp: quiet_since_def cancel_log_set)

lemma cancel_log_of:
  "distinct (fleet_names fl) \<Longrightarrow> mb \<in> set (fl_members fl) \<Longrightarrow>
     cancel_log fl (fm_name mb) = ex_cancelled (fm_exchange mb)"
proof -
  assume "distinct (fleet_names fl)" "mb \<in> set (fl_members fl)"
  then have "find (\<lambda>m. fm_name m = fm_name mb) (fl_members fl) = Some mb"
    unfolding fleet_names_def by (rule find_distinct_key) simp
  then show ?thesis by (simp add: cancel_log_def)
qed

lemma prepare_members_log:
  assumes "prepare_members venues signing m price mbs (outs, entries, fl) = (outs', entries', fl')"
    and "distinct (map fm_name mbs)" "\<And>mb. mb \<in> set mbs \<Longrightarrow> cancel_log fl (fm_name mb) = ex_cancelled (fm_exchange mb)"
    and "quiet_since fl0 outs fl" "dict_keys outs \<inter> (dict_keys entries \<union> fm_name ` set mbs) = {}"
    and "dict_keys entries \<inter> fm_name ` set mbs = {}"
  shows "quiet_since fl0 outs' fl' \<and> dict_keys outs' \<inter> dict_keys entries' = {}"
  using assms
proof (induction mbs arbitrary: outs entries fl)
  case Nil
  then show ?case by simp
next
  case (Cons mb mbs)
  let ?n = "fm_name mb"
  obtain r ex where prep: "prepare_entry (venues ?n) (fst (signing ?n)) (snd (signing ?n)) m price
      (fm_size mb) (fm_exchange mb) = (r, ex)" by force
  note pl = prepare_entry_log [OF prep]
  have ex: "ex_cancelled ex = cancel_log fl ?n" using pl(1) Cons.prems(3) [of mb] by simp
  have logs: "cancel_log (set_exchange ?n ex fl) (fm_name mb') = ex_cancelled (fm_exchange mb')"
    if "mb' \<in> set mbs" for mb'
  proof -
    have "?n \<notin> fm_name ` set mbs" using Cons.prems(2) by simp
    then have "fm_name mb' \<noteq> ?n" using that by (metis imageI)
    then show ?thesis using that Cons.prems(3) by (simp add: cancel_log_set)
  qed
  have none: "dict_get outs ?n = None" using Cons.prems(5) by (auto simp: dict_get_None_iff)
  have dist: "distinct (map fm_name mbs)" "?n \<notin> fm_name ` set mbs" using Cons.prems(2) by simp_all
  show ?case
  proof (cases r)
    case (Inl e)
    have "quiet_since fl0 (put_outcome ?n None (Some (exn_text e)) outs) (set_exchange ?n ex fl)"
      by (rule quiet_put [OF Cons.prems(4) none]) simp
    with Cons.prems(1,5,6) prep Inl dist show ?thesis
      by (intro Cons.IH [of "put_outcome ?n None (Some (exn_text e)) outs" entries, OF _ dist(1) logs]) (auto simp: Let_def split: prod.splits)
  next
    case (Inr pr)
    show ?thesis
    proof (cases pr)
      case (Ready en)
      have "quiet_since fl0 outs (set_exchange ?n ex fl)" by (rule quiet_set [OF Cons.prems(4) ex])
      with Cons.prems(1,5,6) prep Inr Ready dist show ?thesis
        by (intro Cons.IH [of outs "dict_set ?n en entries", OF _ dist(1) logs])
          (auto simp: Let_def split: prod.splits)
    next
      case (Refused p)
      have "quiet_since fl0 (put_outcome ?n (Some p) None outs) (set_exchange ?n ex fl)"
        by (rule quiet_put [OF Cons.prems(4) none]) (use ex in simp)
      with Cons.prems(1,5,6) prep Inr Refused dist show ?thesis
        by (intro Cons.IH [of "put_outcome ?n (Some p) None outs" entries, OF _ dist(1) logs]) (auto simp: Let_def split: prod.splits)
    qed
  qed
qed

lemma settle_members_log:
  "settle_members venues knocking outs (d, fl) = Return (d', fl') \<Longrightarrow> quiet_since fl0 d fl \<Longrightarrow>
     distinct (map fst knocking) \<Longrightarrow> dict_keys d \<inter> fst ` set knocking = {} \<Longrightarrow> quiet_since fl0 d' fl'"
proof (induction venues knocking outs "(d, fl)" arbitrary: d fl rule: settle_members.induct)
  case (2 venues name en knocking out outs d fl)
  have none: "dict_get d name = None" using "2.prems"(4) by (auto simp: dict_get_None_iff)
  show ?case
  proof (cases "fleet_find fl name")
    case (Inl e)
    from "2.hyps"(1) [OF Inl] "2.prems" Inl quiet_put_same show ?thesis by auto
  next
    case (Inr m)
    obtain r ex where r: "settle_entry (venues name) en out (fm_exchange m) = (r, ex)" by force
    have log: "ex_cancelled (fm_exchange m) = cancel_log fl name" using fleet_find_log [OF Inr] by blast
    show ?thesis
    proof (cases r)
      case (Inl e)
      have "quiet_since fl0 (put_outcome name None (Some (exn_text e)) d) (set_exchange name ex fl)"
        by (rule quiet_put [OF "2.prems"(2) none]) simp
      with "2.hyps"(2) [OF Inr r [symmetric] Inl] "2.prems" Inr r Inl show ?thesis by auto
    next
      case res: (Inr res)
      have "quiet_since fl0 (put_outcome name (Some res) None d) (set_exchange name ex fl)"
        by (rule quiet_put [OF "2.prems"(2) none]) (use settle_entry_log r res log in auto)
      with "2.hyps"(3) [OF Inr r [symmetric] res] "2.prems" Inr r res show ?thesis by auto
    qed
  qed
qed auto

lemma foldl_put_log:
  "quiet_since fl0 d fl \<Longrightarrow> quiet_since fl0 (foldl (\<lambda>d (n, _). put_outcome n None e d) d xs) fl"
  by (induction xs arbitrary: d) (auto simp: quiet_put_same)

lemma knock_fleet_log:
  assumes "knock_fleet w m interval until preview knocking (outs, fl) = Return ((outs', fl'), seen)"
    and "quiet_since fl0 outs fl" "distinct (map fst knocking)" "dict_keys outs \<inter> fst ` set knocking = {}"
  shows "quiet_since fl0 outs' fl'"
proof (cases "knocking = []")
  case True
  then show ?thesis using assms by (simp add: knock_fleet_def)
next
  case False
  let ?answer = "pw_knock w (knock_plan_of m (map (\<lambda>(name, en). knock_member en name
    (case find (\<lambda>mb. fm_name mb = name) (fl_members fl) of
       Some mb \<Rightarrow> fm_phase_offset_ms mb | None \<Rightarrow> 0)) knocking) interval until preview)"
  show ?thesis
  proof (cases ?answer)
    case (Inl e)
    then have "outs' = foldl (\<lambda>d (name, _). put_outcome name None (Some (exn_text e)) d) outs knocking" "fl' = fl"
      using assms(1) False by (simp_all add: knock_fleet_def)
    then show ?thesis using foldl_put_log [OF assms(2)] by simp
  next
    case (Inr answer)
    then have "settle_members (pw_venues w) knocking (fst answer) (outs, fl) = Return (outs', fl')"
      using assms(1) False by (auto simp: knock_fleet_def rbind_Inr_iff split: prod.splits)
    from settle_members_log [OF this assms(2-4)] show ?thesis .
  qed
qed

lemma look_outcomes_get:
  "look_outcomes outs mbs = Return ps \<Longrightarrow> p \<in> set ps \<Longrightarrow> \<exists>mb \<in> set mbs. dict_get outs (fm_name mb) = Some p"
  by (fastforce simp: look_outcomes_def rtraverse_Inr_iff list_all2_conv_all_nth in_set_conv_nth split: option.splits)

lemma key_set_names: "map f xs = map f ys \<Longrightarrow> f ` set xs = f ` set ys"
  by (metis list.set_map)

lemma knocking_distinct:
  "distinct (map fm_name mbs) \<Longrightarrow>
     distinct (map fst (List.map_filter (\<lambda>mb. map_option (\<lambda>en. (fm_name mb, en)) (dict_get entries (fm_name mb))) mbs))"
proof (induction mbs)
  case (Cons mb mbs)
  then show ?case by (cases "dict_get entries (fm_name mb)") (force simp: List.map_filter_def)+
qed (simp add: List.map_filter_def)

lemma fleet_place_parts:
  assumes "distinct (fleet_names fl)"
  obtains placements fl1 seen where
    "map mp_member placements = fleet_names fl" "fl_keep_best fl1 = fl_keep_best fl"
    "fleet_names fl1 = fleet_names fl"
    "\<And>p. p \<in> set placements \<Longrightarrow> registered p \<Longrightarrow> cancel_log fl1 (mp_member p) = cancel_log fl (mp_member p)"
    "fleet_place w m price interval until preview fl =
      (case choose_kept (pw_clocks w) placements of (kept, kept_by, stamps) \<Rightarrow>
         (case settle (pw_venues w) kept placements ([], [], []) fl1 of
            (Inl e, fl2) \<Rightarrow> (Raise e, fl2)
          | (Inr (orders, cancelled, errors), fl2) \<Rightarrow>
              (Return \<lparr>fp_placements = placements, fp_kept = kept, fp_orders = orders,
                 fp_cancelled_order_ids = cancelled, fp_cancel_errors = errors,
                 fp_kept_by = kept_by, fp_venue_registered_ts_ms = stamps, fp_preview = seen\<rparr>, fl2)))"
  | e fl2 where "fleet_place w m price interval until preview fl = (Raise e, fl2)" "exn_class e = ''ValueError''"
proof -
  obtain outs entries fl0 where prep:
    "prepare_members (pw_venues w) (pw_signing w) m price (fl_members fl) ([], [], fl) = (outs, entries, fl0)"
    by (metis prod_cases3)
  have ok: "outcomes_ok outs" "fleet_names fl0 = fleet_names fl" "fl_keep_best fl0 = fl_keep_best fl"
    "fm_name ` set (fl_members fl) \<subseteq> dict_keys outs \<union> dict_keys entries"
    using prepare_members_outcomes [OF prep] by (auto simp: outcomes_ok_def)
  have log: "quiet_since fl outs fl0" "dict_keys outs \<inter> dict_keys entries = {}"
    using prepare_members_log [OF prep, of fl] assms cancel_log_of
    by (auto simp: quiet_since_def fleet_names_def)
  let ?knocking = "List.map_filter (\<lambda>mb. map_option (\<lambda>en. (fm_name mb, en)) (dict_get entries (fm_name mb))) (fl_members fl0)"
  let ?until = "case until of Some t \<Rightarrow> t | None \<Rightarrow> pw_now w + KNOCK_SECONDS"
  have names: "map fm_name (fl_members fl0) = map fm_name (fl_members fl)"
    using ok(2) by (simp add: fleet_names_def)
  show ?thesis
  proof (cases "knock_fleet w m interval ?until preview ?knocking (outs, fl0)")
    case (Inl e)
    then have "fleet_place w m price interval until preview fl = (Raise e, fl0)"
      by (simp add: fleet_place_def prep)
    then show ?thesis using that(2) knock_fleet_error [OF Inl] by blast
  next
    case (Inr res)
    obtain outs1 fl1 seen where res: "res = ((outs1, fl1), seen)" by (metis prod.exhaust)
    have k: "outcomes_ok outs1" "fleet_names fl1 = fleet_names fl0" "fl_keep_best fl1 = fl_keep_best fl0"
      "dict_keys outs1 = dict_keys outs \<union> fst ` set ?knocking"
      using knock_fleet_outcomes [OF Inr [unfolded res] ok(1)] by auto
    have part: "fst ` set ?knocking \<subseteq> dict_keys entries"
      by (auto simp: List.map_filter_def dest: dict_get_Some_key)
    have knock_dist: "distinct (map fst ?knocking)"
      using assms unfolding fleet_names_def names [symmetric]
      by (rule knocking_distinct)
    have log1: "quiet_since fl outs1 fl1"
      using knock_fleet_log [OF Inr [unfolded res] log(1) knock_dist] log(2) part by blast
    have names1: "map fm_name (fl_members fl1) = map fm_name (fl_members fl)"
      using k(2) names by (simp add: fleet_names_def)
    have "fm_name ` set (fl_members fl) \<inter> dict_keys entries \<subseteq> fst ` set ?knocking"
    proof
      fix n assume n: "n \<in> fm_name ` set (fl_members fl) \<inter> dict_keys entries"
      then have "n \<in> fm_name ` set (fl_members fl0)" by (simp only: key_set_names [OF names] Int_iff)
      then obtain mb where mb: "mb \<in> set (fl_members fl0)" "fm_name mb = n" by blast
      obtain en where "dict_get entries n = Some en"
        using n dict_get_None_iff [of entries n] by (cases "dict_get entries n") simp_all
      then have "(n, en) \<in> set ?knocking" using mb by (force simp: List.map_filter_def)
      then show "n \<in> fst ` set ?knocking" by force
    qed
    from cover_split [OF ok(4) this] have "fm_name ` set (fl_members fl1) \<subseteq> dict_keys outs1"
      by (simp only: k(4) key_set_names [OF names1])
    then obtain ps where ps: "look_outcomes outs1 (fl_members fl1) = Return ps"
      "map mp_member ps = map fm_name (fl_members fl1)"
      using look_outcomes_total [OF k(1)] by metis
    show ?thesis
    proof (rule that(1) [of ps fl1 seen])
      fix p assume p: "p \<in> set ps" "registered p"
      from look_outcomes_get [OF ps(1) p(1)] obtain n where mb: "dict_get outs1 n = Some p" by blast
      then have "mp_member p = n" using k(1) by (simp add: outcomes_ok_def)
      with mb p(2) log1 show "cancel_log fl1 (mp_member p) = cancel_log fl (mp_member p)"
        by (simp add: quiet_since_def)
    qed (use ps k ok names1 Inr res in \<open>simp_all add: fleet_names_def fleet_place_def prep Let_def\<close>)
  qed
qed

text \<open>
  C11. One ticket per market: a placement reports on every member of the fleet, in order, and
  its orders are exactly theirs, each stamped with the account that holds it. Where the fleet
  keeps one member, every other member that registered is sent one cancel that names all of its
  orders, and nothing else is cancelled that registered: not before, not twice, and never at
  the kept member. A withdrawn order is called cancelled, or known to be gone, exactly where
  the venue's reply says so of that order, and is left for reconciliation otherwise; the ids
  reported as cancelled are those. The kept member's orders stand as they were reported.
\<close>

theorem fleet_place_one_ticket:
  assumes "fleet_place w m price interval until preview fl = (Return fp, fl')" "distinct (fleet_names fl)"
  shows "map mp_member (fp_placements fp) = fleet_names fl \<and>
    (let withdrawn = \<lambda>p. fl_keep_best fl \<and> fp_kept fp \<noteq> None \<and> Some (mp_member p) \<noteq> fp_kept fp \<and>
       registered p \<and> placed_orders p \<noteq> [] in
     (\<exists>blocks. fp_orders fp = concat blocks \<and>
        list_all2 (\<lambda>p. settled_block (pw_venues w) (withdrawn p) p) (fp_placements fp) blocks \<and>
        fp_cancelled_order_ids fp = concat (map2 (\<lambda>p. confirmed (withdrawn p)) (fp_placements fp) blocks)) \<and>
     list_all (\<lambda>p. registered p \<longrightarrow> cancel_log fl' (mp_member p) = cancel_log fl (mp_member p) @
       (if withdrawn p then [map po_order_id (placed_orders p)] else [])) (fp_placements fp))"
proof (rule fleet_place_parts [OF assms(2), of w m price interval until preview])
  fix ps fl1 seen
  assume names: "map mp_member ps = fleet_names fl" and kb: "fl_keep_best fl1 = fl_keep_best fl"
    and names1: "fleet_names fl1 = fleet_names fl"
    and quiet: "\<And>p. p \<in> set ps \<Longrightarrow> registered p \<Longrightarrow> cancel_log fl1 (mp_member p) = cancel_log fl (mp_member p)"
    and eq: "fleet_place w m price interval until preview fl =
      (case choose_kept (pw_clocks w) ps of (kept, kept_by, stamps) \<Rightarrow>
         (case settle (pw_venues w) kept ps ([], [], []) fl1 of
            (Inl e, fl2) \<Rightarrow> (Raise e, fl2)
          | (Inr (orders, cancelled, errors), fl2) \<Rightarrow>
              (Return \<lparr>fp_placements = ps, fp_kept = kept, fp_orders = orders,
                 fp_cancelled_order_ids = cancelled, fp_cancel_errors = errors,
                 fp_kept_by = kept_by, fp_venue_registered_ts_ms = stamps, fp_preview = seen\<rparr>, fl2)))"
  obtain kept kept_by stamps where c: "choose_kept (pw_clocks w) ps = (kept, kept_by, stamps)"
    by (metis prod_cases3)
  obtain orders cancelled errors where
    s: "settle (pw_venues w) kept ps ([], [], []) fl1 = (Return (orders, cancelled, errors), fl')"
    and fp: "fp_placements fp = ps" "fp_kept fp = kept" "fp_orders fp = orders"
      "fp_cancelled_order_ids fp = cancelled"
    using assms(1) unfolding eq c by (auto split: prod.splits sum.splits)
  have wd: "cancels fl1 kept = (\<lambda>p. fl_keep_best fl \<and> kept \<noteq> None \<and> Some (mp_member p) \<noteq> kept \<and>
      registered p \<and> placed_orders p \<noteq> [])"
    by (auto simp: fun_eq_iff cancels_def laggard_def kb)
  have "set (map mp_member ps) \<subseteq> set (fleet_names fl1)" "distinct (map mp_member ps)"
    using assms(2) by (simp_all only: names names1 order_refl)
  from settle_blocks [OF s this] obtain blocks where b:
    "orders = concat blocks" "cancelled = concat (map2 (\<lambda>p. confirmed (cancels fl1 kept p)) ps blocks)"
    "list_all2 (\<lambda>p. settled_block (pw_venues w) (cancels fl1 kept p) p) ps blocks"
    and log: "\<forall>p \<in> set ps. cancel_log fl' (mp_member p) =
      cancel_log fl1 (mp_member p) @ (if cancels fl1 kept p then [map po_order_id (placed_orders p)] else [])"
    by auto
  have "list_all (\<lambda>p. registered p \<longrightarrow> cancel_log fl' (mp_member p) =
      cancel_log fl (mp_member p) @ (if cancels fl1 kept p then [map po_order_id (placed_orders p)] else [])) ps"
    using log quiet by (simp add: list_all_iff)
  with names b show ?thesis unfolding Let_def fp wd by blast
next
  fix e fl2 assume "fleet_place w m price interval until preview fl = (Raise e, fl2)"
  then show ?thesis using assms(1) by simp
qed

definition example_accept :: "string \<Rightarrow> member_outcome" where
  "example_accept name =
     \<lparr>mo_account = name, mo_attempts = 3, mo_held_back = 0, mo_registered_ms = Some 1010,
      mo_accepted = [\<lparr>ao_order_id = JStr (name @ ''-up''), ao_outcome = ''up'', ao_status = 200, ao_body = ''{}''\<rparr>,
        \<lparr>ao_order_id = JStr (name @ ''-down''), ao_outcome = ''down'', ao_status = 200, ao_body = ''{}''\<rparr>],
      mo_ambiguous = [], mo_errors = [], mo_gave_up = False\<rparr>"

definition example_world :: place_world where
  "example_world =
     \<lparr>pw_venues = (\<lambda>_. quiet_venue), pw_signing = (\<lambda>_. (example_signing, 0)),
      pw_knock = (\<lambda>plan. Return (map (\<lambda>pm. example_accept (pm_account pm)) (kp_members plan), None)),
      pw_clocks = None, pw_now = 1700000000\<rparr>"

definition example_fleet :: fleet where
  "example_fleet =
     \<lparr>fl_members = evenly_phased [(''A'', exchange_init, 10), (''B'', exchange_init, 10)] 25,
      fl_keep_best = True\<rparr>"

lemma example_fleet_places:
  "case fst (fleet_place example_world example_mkt (1/2) 25 None None example_fleet) of
     Inl _ \<Rightarrow> False
   | Inr fp \<Rightarrow> fp_kept fp = Some ''A'' \<and>
       map po_status (fp_orders fp) = [''open'', ''open'', ''cancel_requested'', ''cancel_requested'']"
  by code_simp

theorem fleet_place_one_ticket_witness:
  "\<exists>fp fl'. fleet_place example_world example_mkt (1/2) 25 None None example_fleet = (Return fp, fl') \<and>
     map mp_member (fp_placements fp) = [''A'', ''B''] \<and> fp_kept fp = Some ''A''"
proof -
  obtain fp fl' where p: "fleet_place example_world example_mkt (1/2) 25 None None example_fleet = (Return fp, fl')"
    and k: "fp_kept fp = Some ''A''"
    using example_fleet_places
    by (cases "fleet_place example_world example_mkt (1/2) 25 None None example_fleet") (auto split: sum.splits)
  have n: "fleet_names example_fleet = [''A'', ''B'']"
    by (simp add: fleet_names_def example_fleet_def evenly_phased_def)
  then have "distinct (fleet_names example_fleet)" by simp
  from fleet_place_one_ticket [OF p this] n p k show ?thesis by (auto simp: Let_def)
qed

end
