(* ===== verification/Reconciliation.thy ===== *)
theory Reconciliation
  imports Py_Values Json_Text
begin

text \<open>
  \<open>polymarket_bot/reconciliation.py\<close>: the worker that reads the state of the tracked orders
  off the placement loop. The exchange (or the fleet's view of its exchanges) is a parameter:
  its list of open orders and its direct read of an order, once in the first round and once
  after the pause; \<open>JNull\<close> is the order it does not know. The stop event shows in \<open>recheck\<close>:
  \<open>None\<close> if it is set during the pause, else how many rechecks are made before it is seen.
\<close>

subsection \<open>Snapshots and results\<close>

record snapshot =
  sn_order_id :: string
  sn_slug :: string
  sn_size :: rat

record reconciled =
  rc_snapshot :: snapshot
  rc_raw :: "payload option"
  rc_error :: "string option"

record recon_update =
  ru_orders :: "reconciled list"
  ru_batch_error :: "string option"
  ru_open_rows :: "payload list"

record order_view =
  ov_open :: "exn + json list"
  ov_get :: "nat \<Rightarrow> string \<Rightarrow> exn + json"

definition missing_payload :: "string \<Rightarrow> payload" where
  "missing_payload oid =
     [(''id'', JStr oid), (''status'', JStr ''terminal_unknown''), (''size_matched'', JStr ''0'')]"

text \<open>\<open>_resolve\<close>: \<open>None\<close> is the order that is left for the recheck.\<close>

definition resolve ::
  "(string \<Rightarrow> exn + json) \<Rightarrow> snapshot \<Rightarrow> payload option \<Rightarrow> bool \<Rightarrow> reconciled option" where
  "resolve get snap raw retire_if_missing =
     (let failed = (\<lambda>e. Some \<lparr>rc_snapshot = snap, rc_raw = None, rc_error = Some (exn_text e)\<rparr>);
          found = (\<lambda>r. Some \<lparr>rc_snapshot = snap, rc_raw = Some r, rc_error = None\<rparr>)
      in case raw of
           Some r \<Rightarrow> found r
         | None \<Rightarrow>
             (case get (sn_order_id snap) of
                Inl e \<Rightarrow> failed e
              | Inr JNull \<Rightarrow> if retire_if_missing then found (missing_payload (sn_order_id snap)) else None
              | Inr (JObj r) \<Rightarrow> found r
              | Inr _ \<Rightarrow> failed (ValueError ''exchange returned no order payload'')))"

definition open_row_id :: "payload \<Rightarrow> json" where
  "open_row_id raw = por (pget ''id'' raw) (por (pget ''orderID'' raw) (pget ''orderId'' raw))"

definition open_by_id :: "payload list \<Rightarrow> (string, payload) dict" where
  "open_by_id rows =
     foldl (\<lambda>d raw. if truthy (open_row_id raw) then dict_set (py_str (open_row_id raw)) raw d else d) [] rows"

definition fetch :: "order_view \<Rightarrow> nat option \<Rightarrow> snapshot list \<Rightarrow> recon_update" where
  "fetch ov recheck snaps =
     (case ov_open ov of
        Inl e \<Rightarrow> \<lparr>ru_orders = [], ru_batch_error = Some (exn_text e), ru_open_rows = []\<rparr>
      | Inr raws \<Rightarrow>
          let open_rows = map as_dict (filter is_dict raws);
              by_id = open_by_id open_rows;
              first = map (\<lambda>s. (s, resolve (ov_get ov 0) s (dict_get by_id (sn_order_id s)) False)) snaps;
              results = List.map_filter snd first;
              missing = map fst (filter (\<lambda>(s, r). r = None) first);
              late = (case recheck of None \<Rightarrow> []
                      | Some n \<Rightarrow> List.map_filter (\<lambda>s. resolve (ov_get ov 1) s None True) (take n missing))
          in \<lparr>ru_orders = results @ late, ru_batch_error = None, ru_open_rows = open_rows\<rparr>)"

subsection \<open>The worker\<close>

text \<open>
  The queue holds one request. Between the three actions of \<open>submit\<close> and of the thread's
  round the other side may act, so the state says where each of them stands.
\<close>

datatype thread_pc = Waiting | Fetching "snapshot list" | Posting recon_update

record recon_worker =
  rw_busy :: bool
  rw_requests :: "snapshot list list"
  rw_updates :: "recon_update list"
  rw_submitting :: "snapshot list option"
  rw_thread :: thread_pc
  rw_full :: bool

definition recon_init :: recon_worker where
  "recon_init = \<lparr>rw_busy = False, rw_requests = [], rw_updates = [], rw_submitting = None,
     rw_thread = Waiting, rw_full = False\<rparr>"

text \<open>\<open>submit\<close> up to its \<open>put_nowait\<close>, and that put, which raises Full on a filled queue.\<close>

definition submit_begin :: "snapshot list \<Rightarrow> recon_worker \<Rightarrow> bool \<times> recon_worker" where
  "submit_begin snaps w =
     (if rw_busy w then (False, w) else (True, w\<lparr>rw_busy := True, rw_submitting := Some snaps\<rparr>))"

definition put_nowait :: "snapshot list \<Rightarrow> recon_worker \<Rightarrow> recon_worker" where
  "put_nowait snaps w =
     (if rw_requests w \<noteq> [] then w\<lparr>rw_full := True, rw_submitting := None\<rparr>
      else w\<lparr>rw_requests := [snaps], rw_submitting := None\<rparr>)"

definition submit :: "snapshot list \<Rightarrow> recon_worker \<Rightarrow> bool \<times> recon_worker" where
  "submit snaps w =
     (case submit_begin snaps w of (False, w) \<Rightarrow> (False, w) | (True, w) \<Rightarrow> (True, put_nowait snaps w))"

definition recon_drain :: "recon_worker \<Rightarrow> recon_update list \<times> recon_worker" where
  "recon_drain w = (rw_updates w, w\<lparr>rw_updates := []\<rparr>)"

inductive recon_step :: "recon_worker \<Rightarrow> recon_worker \<Rightarrow> bool" where
  begin_submit: "rw_submitting w = None \<Longrightarrow> submit_begin snaps w = (ok, w') \<Longrightarrow> recon_step w w'"
| end_submit: "rw_submitting w = Some snaps \<Longrightarrow> recon_step w (put_nowait snaps w)"
| take_request: "rw_thread w = Waiting \<Longrightarrow> rw_requests w = snaps # rest \<Longrightarrow>
     recon_step w (w\<lparr>rw_requests := rest, rw_thread := Fetching snaps\<rparr>)"
| finish_fetch: "rw_thread w = Fetching snaps \<Longrightarrow>
     recon_step w (w\<lparr>rw_busy := False, rw_thread := Posting (fetch ov recheck snaps)\<rparr>)"
| post_update: "rw_thread w = Posting u \<Longrightarrow>
     recon_step w (w\<lparr>rw_updates := rw_updates w @ [u], rw_thread := Waiting\<rparr>)"
| drain_updates: "recon_step w (w\<lparr>rw_updates := []\<rparr>)"

subsection \<open>The queue never overflows\<close>

text \<open>The batches on their way: being submitted, queued, being fetched.\<close>

definition in_flight :: "recon_worker \<Rightarrow> nat" where
  "in_flight w =
     (if rw_submitting w = None then 0 else 1) + length (rw_requests w) +
     (case rw_thread w of Fetching _ \<Rightarrow> 1 | _ \<Rightarrow> 0)"

definition recon_inv :: "recon_worker \<Rightarrow> bool" where
  "recon_inv w \<longleftrightarrow> \<not> rw_full w \<and> in_flight w = (if rw_busy w then 1 else 0)"

lemma recon_step_inv: "recon_step w w' \<Longrightarrow> recon_inv w \<Longrightarrow> recon_inv w'"
  by (induction rule: recon_step.induct)
    (auto simp: recon_inv_def in_flight_def submit_begin_def put_nowait_def split: if_splits thread_pc.splits)

text \<open>
  C31. However the placement loop and the worker's thread interleave, the request queue never
  overflows: no put ever finds it full, and exactly one batch is on its way while the busy
  flag is set, none otherwise.
\<close>

theorem reconciliation_one_in_flight:
  assumes "recon_step\<^sup>*\<^sup>* recon_init w"
  shows "\<not> rw_full w \<and> in_flight w = (if rw_busy w then 1 else 0) \<and> length (rw_requests w) \<le> 1"
proof -
  have "recon_inv recon_init" by (simp add: recon_inv_def in_flight_def recon_init_def)
  with assms have "recon_inv w"
    by (induction rule: rtranclp_induct) (auto intro: recon_step_inv)
  then show ?thesis by (auto simp: recon_inv_def in_flight_def split: if_splits)
qed

theorem reconciliation_one_in_flight_witness:
  "recon_step\<^sup>*\<^sup>* recon_init (snd (submit [] recon_init)) \<and>
   \<not> rw_full (snd (submit [] recon_init)) \<and> in_flight (snd (submit [] recon_init)) = 1"
proof -
  let ?w = "snd (submit_begin [] recon_init)"
  have "recon_step recon_init ?w"
    by (rule recon_step.begin_submit [of _ "[]" True]) (simp_all add: recon_init_def submit_begin_def)
  moreover have "recon_step ?w (put_nowait [] ?w)"
    by (rule recon_step.end_submit) (simp add: recon_init_def submit_begin_def)
  moreover have eq: "put_nowait [] ?w = snd (submit [] recon_init)"
    by (simp add: submit_def submit_begin_def recon_init_def)
  ultimately have run: "recon_step\<^sup>*\<^sup>* recon_init (snd (submit [] recon_init))" by auto
  have "rw_busy (snd (submit [] recon_init))"
    by (simp add: submit_def submit_begin_def recon_init_def put_nowait_def)
  with reconciliation_one_in_flight [OF run] run show ?thesis by simp
qed

subsection \<open>Nothing is retired on one missed read\<close>

text \<open>Whether a row of the venue's list of open orders is the order's, and whether none is.\<close>

definition names_order :: "string \<Rightarrow> payload \<Rightarrow> bool" where
  "names_order oid raw \<longleftrightarrow> truthy (open_row_id raw) \<and> py_str (open_row_id raw) = oid"

definition listed :: "order_view \<Rightarrow> string \<Rightarrow> payload \<Rightarrow> bool" where
  "listed ov oid raw \<longleftrightarrow> (\<exists>raws. ov_open ov = Return raws \<and> JObj raw \<in> set raws \<and> names_order oid raw)"

definition unlisted :: "order_view \<Rightarrow> string \<Rightarrow> bool" where
  "unlisted ov oid \<longleftrightarrow>
     (\<exists>raws. ov_open ov = Return raws \<and> list_all (\<lambda>j. \<not> (is_dict j \<and> names_order oid (as_dict j))) raws)"

lemma open_by_id_Some:
  "dict_get (open_by_id rows) oid = Some raw \<Longrightarrow> raw \<in> set rows \<and> names_order oid raw"
proof (induction rows arbitrary: oid raw rule: rev_induct)
  case (snoc r rows)
  then show ?case by (fastforce simp: open_by_id_def names_order_def split: if_splits)
qed (simp add: open_by_id_def)

lemma open_by_id_None:
  "dict_get (open_by_id rows) oid = None \<Longrightarrow> raw \<in> set rows \<Longrightarrow> \<not> names_order oid raw"
proof (induction rows arbitrary: oid raw rule: rev_induct)
  case (snoc r rows)
  then show ?case by (auto simp: open_by_id_def names_order_def split: if_splits)
qed simp

lemma resolve_cases:
  assumes "resolve get snap raw retire = Some r"
  shows "rc_snapshot r = snap \<and>
    (rc_raw r = None \<and> rc_error r \<noteq> None \<or>
     (\<exists>p. rc_raw r = Some p \<and> rc_error r = None \<and>
        (raw = Some p \<or> raw = None \<and> get (sn_order_id snap) = Return (JObj p) \<or>
         retire \<and> raw = None \<and> get (sn_order_id snap) = Return JNull \<and>
           p = missing_payload (sn_order_id snap))))"
  using assms by (auto simp: resolve_def Let_def split: option.splits sum.splits json.splits if_splits)

lemma resolve_missing:
  "resolve get snap raw False = None \<Longrightarrow> raw = None \<and> get (sn_order_id snap) = Return JNull"
  by (auto simp: resolve_def Let_def split: option.splits sum.splits json.splits)

lemma in_map_filter: "y \<in> set (List.map_filter f xs) \<longleftrightarrow> (\<exists>x \<in> set xs. f x = Some y)"
  by (force simp: List.map_filter_def)

lemma as_dict_in: "p \<in> set (map as_dict (filter is_dict raws)) \<Longrightarrow> JObj p \<in> set raws"
proof -
  assume "p \<in> set (map as_dict (filter is_dict raws))"
  then obtain j where j: "j \<in> set raws" "is_dict j" "as_dict j = p" by auto
  have "j = JObj p" using j(2,3) by (cases j) simp_all
  with j(1) show ?thesis by simp
qed

lemma lookup_listed:
  assumes "ov_open ov = Return raws" "dict_get (open_by_id (map as_dict (filter is_dict raws))) oid = Some p"
  shows "listed ov oid p"
  using open_by_id_Some [OF assms(2)] as_dict_in assms(1) unfolding listed_def by blast

lemma lookup_unlisted:
  assumes "ov_open ov = Return raws" "dict_get (open_by_id (map as_dict (filter is_dict raws))) oid = None"
  shows "unlisted ov oid"
proof -
  have "\<not> (is_dict j \<and> names_order oid (as_dict j))" if "j \<in> set raws" for j
    using open_by_id_None [OF assms(2), of "as_dict j"] that by auto
  then show ?thesis using assms(1) by (auto simp: unlisted_def list_all_iff)
qed

text \<open>
  C16. No order is retired on one missed read: every result of a round is either a row of the
  open-order list that carries the order's own id, or there is no such row and it is an error,
  a payload that a direct read of that order gave (the second read only where the first came
  back empty), or the report that the order is gone - and that one only if the open-order
  list did not have it and both direct reads, the second after the pause, came back empty.
\<close>

theorem no_retirement_on_one_read:
  assumes "r \<in> set (ru_orders (fetch ov recheck snaps))"
  shows "rc_snapshot r \<in> set snaps \<and>
    (let oid = sn_order_id (rc_snapshot r) in
     case rc_raw r of
       None \<Rightarrow> rc_error r \<noteq> None \<and> unlisted ov oid
     | Some p \<Rightarrow> listed ov oid p \<or>
         unlisted ov oid \<and>
           (ov_get ov 0 oid = Return (JObj p) \<or>
            recheck \<noteq> None \<and> ov_get ov 0 oid = Return JNull \<and> ov_get ov 1 oid = Return (JObj p) \<or>
            p = missing_payload oid \<and> recheck \<noteq> None \<and>
              ov_get ov 0 oid = Return JNull \<and> ov_get ov 1 oid = Return JNull))"
proof (cases "ov_open ov")
  case (Inl e)
  then show ?thesis using assms by (simp add: fetch_def)
next
  case (Inr raws)
  let ?by = "open_by_id (map as_dict (filter is_dict raws))"
  let ?first = "\<lambda>s. resolve (ov_get ov 0) s (dict_get ?by (sn_order_id s)) False"
  let ?missing = "map fst (filter (\<lambda>(s, r). r = None) (map (\<lambda>s. (s, ?first s)) snaps))"
  note found = lookup_listed [OF Inr] and absent = lookup_unlisted [OF Inr]
  from assms Inr consider
      (first) s where "s \<in> set snaps" "?first s = Some r"
    | (late) s n where "recheck = Some n" "s \<in> set ?missing" "resolve (ov_get ov 1) s None True = Some r"
    by (auto simp: fetch_def Let_def in_map_filter split: option.splits dest: in_set_takeD)
  then show ?thesis
  proof cases
    case first
    show ?thesis
    proof (cases "dict_get ?by (sn_order_id s)")
      case None
      with resolve_cases [OF first(2)] first(1) absent show ?thesis by (auto simp: Let_def)
    next
      case (Some p)
      then have "r = \<lparr>rc_snapshot = s, rc_raw = Some p, rc_error = None\<rparr>"
        using first(2) by (simp add: resolve_def Let_def)
      with first(1) found [OF Some] show ?thesis by (simp add: Let_def)
    qed
  next
    case late
    then have s: "s \<in> set snaps" "?first s = None" by auto
    from resolve_missing [OF s(2)] absent have "unlisted ov (sn_order_id s)" "ov_get ov 0 (sn_order_id s) = Return JNull"
      by blast+
    with resolve_cases [OF late(3)] s(1) late(1) show ?thesis by (auto simp: Let_def)
  qed
qed

definition example_snapshot :: snapshot where
  "example_snapshot = \<lparr>sn_order_id = ''0x1'', sn_slug = ''btc-updown-5m-1700000100'', sn_size = 10\<rparr>"

definition example_view :: order_view where
  "example_view = \<lparr>ov_open = Return [], ov_get = (\<lambda>_ _. Return JNull)\<rparr>"

theorem no_retirement_on_one_read_witness:
  "ru_orders (fetch example_view (Some 1) [example_snapshot]) \<noteq> [] \<and>
   (let r = hd (ru_orders (fetch example_view (Some 1) [example_snapshot])) in
    rc_snapshot r = example_snapshot \<and> rc_raw r = Some (missing_payload ''0x1''))"
proof -
  let ?r = "\<lparr>rc_snapshot = example_snapshot, rc_raw = Some (missing_payload ''0x1''), rc_error = None\<rparr>"
  have f: "ru_orders (fetch example_view (Some 1) [example_snapshot]) = [?r]"
    by (simp add: fetch_def example_view_def open_by_id_def resolve_def example_snapshot_def
        List.map_filter_def)
  then have "?r \<in> set (ru_orders (fetch example_view (Some 1) [example_snapshot]))" by simp
  from no_retirement_on_one_read [OF this] f show ?thesis by (simp add: Let_def)
qed

end
