(* ===== verification/Service_State.thy ===== *)
theory Service_State
  imports Database Fleet Activation Reconciliation User_Stream Geoblock
begin

text \<open>
  The state of \<open>BotService\<close> (\<open>polymarket_bot/service.py\<close>) and the small state-and-exception
  monad its methods are written in: a method takes the service to its outcome, a value or the
  exception that leaves it, and the service as it stands then. \<open>sv_sent\<close> records, in order,
  the requests that leave the process and the exits that were accepted. What the outside answers during a call (the venue, the
  fleet's knock, Gamma, the clock) is the \<open>world\<close>; within one method the readings of
  \<open>time.time()\<close> are one value, but for the time after a placement.
\<close>

subsection \<open>State\<close>

text \<open>\<open>self.exchange\<close> and \<open>self.fleet\<close>: none in a dry run, one account, or the fleet.\<close>

datatype backend = DryRun | Solo exchange | Many fleet

record retry_state =
  rt_attempts :: int
  rt_first_started_ts_ms :: int
  rt_last_finished_ts_ms :: int

datatype sent =
    EntrySent string
  | ExitSent string string rat rat
  | ExitAccepted string string rat rat
  | CancelSent string "string list"

record service_config =
  sc_plan :: trade_plan
  sc_max_reserved_usd :: "rat option"
  sc_max_daily_filled_cost :: "rat option"
  sc_lookahead_minutes :: int
  sc_placement_order :: string
  sc_placement_interval_ms :: rat
  sc_entry_submission :: string
  sc_knock_on_preview :: bool
  sc_cancel_before_end_seconds :: int
  sc_live :: bool
  sc_order_poll_seconds :: rat
  sc_discovery_seconds :: rat

record service =
  sv_config :: service_config
  sv_db :: bot_db
  sv_backend :: backend
  sv_activation_updates :: "activation_update list"
  sv_placement_retries :: "(string, retry_state) dict"
  sv_run_id :: int
  sv_run_started_ts :: int
  sv_last_discovery :: rat
  sv_last_reconcile :: rat
  sv_wake :: bool
  sv_sent :: "sent list"

abbreviation plan_of :: "service \<Rightarrow> trade_plan" where
  "plan_of s \<equiv> sc_plan (sv_config s)"

record world =
  sw_wall :: rat
  sw_finished :: rat
  sw_venue :: venue
  sw_signing :: "(nat \<Rightarrow> sign_pass) \<times> rat"
  sw_fleet :: place_world
  sw_gamma :: "exn + market list"
  sw_nanos :: int

text \<open>\<open>int(time.time())\<close> and \<open>int(time.time() * 1000)\<close>.\<close>

definition wall_ts :: "world \<Rightarrow> int" where "wall_ts w = dtrunc (sw_wall w)"
definition wall_ms :: "world \<Rightarrow> int" where "wall_ms w = to_ms (sw_wall w)"
definition finished_ms :: "world \<Rightarrow> int" where "finished_ms w = to_ms (sw_finished w)"

definition has_exchange :: "service \<Rightarrow> bool" where
  "has_exchange s \<longleftrightarrow> sv_backend s \<noteq> DryRun"

text \<open>The client of \<open>self.exchange\<close>: the only account's, or the fleet's primary's.\<close>

definition venue_of :: "world \<Rightarrow> service \<Rightarrow> venue" where
  "venue_of w s =
     (case sv_backend s of
        Many fl \<Rightarrow> pw_venues (sw_fleet w) (fm_name (primary fl))
      | _ \<Rightarrow> sw_venue w)"

subsection \<open>The monad\<close>

type_synonym 'a svc = "service \<Rightarrow> (exn + 'a) \<times> service"

definition sreturn :: "'a \<Rightarrow> 'a svc" where
  "sreturn x s = (Return x, s)"

definition sraise :: "exn \<Rightarrow> 'a svc" where
  "sraise e s = (Raise e, s)"

definition sbind :: "'a svc \<Rightarrow> ('a \<Rightarrow> 'b svc) \<Rightarrow> 'b svc" where
  "sbind m f s = (case m s of (Inl e, s') \<Rightarrow> (Raise e, s') | (Inr x, s') \<Rightarrow> f x s')"

definition sthen :: "'a svc \<Rightarrow> 'b svc \<Rightarrow> 'b svc" where
  "sthen m n = sbind m (\<lambda>_. n)"

definition sget :: "service svc" where
  "sget s = (Return s, s)"

definition smodify :: "(service \<Rightarrow> service) \<Rightarrow> unit svc" where
  "smodify f s = (Return (), f s)"

definition slift :: "exn + 'a \<Rightarrow> 'a svc" where
  "slift r s = (r, s)"

text \<open>\<open>try: m except Exception as exc: h exc\<close>.\<close>

definition stry :: "'a svc \<Rightarrow> (exn \<Rightarrow> 'a svc) \<Rightarrow> 'a svc" where
  "stry m h s = (case m s of (Inl e, s') \<Rightarrow> h e s' | (Inr x, s') \<Rightarrow> (Return x, s'))"

definition swhen :: "bool \<Rightarrow> unit svc \<Rightarrow> unit svc" where
  "swhen b m = (if b then m else sreturn ())"

fun sfor :: "('a \<Rightarrow> unit svc) \<Rightarrow> 'a list \<Rightarrow> unit svc" where
  "sfor f [] = sreturn ()"
| "sfor f (x # xs) = sthen (f x) (sfor f xs)"

text \<open>A loop that threads flags.\<close>

fun sfold :: "('a \<Rightarrow> 'f \<Rightarrow> 'f svc) \<Rightarrow> 'a list \<Rightarrow> 'f \<Rightarrow> 'f svc" where
  "sfold f [] acc = sreturn acc"
| "sfold f (x # xs) acc = sbind (f x acc) (sfold f xs)"

text \<open>A loop that the body ends early by returning \<open>False\<close>.\<close>

fun swhile :: "('a \<Rightarrow> bool svc) \<Rightarrow> 'a list \<Rightarrow> unit svc" where
  "swhile f [] = sreturn ()"
| "swhile f (x # xs) = sbind (f x) (\<lambda>go. if go then swhile f xs else sreturn ())"

definition db_do :: "(bot_db \<Rightarrow> bot_db) \<Rightarrow> unit svc" where
  "db_do f = smodify (\<lambda>s. s\<lparr>sv_db := f (sv_db s)\<rparr>)"

definition db_try :: "(bot_db \<Rightarrow> exn + bot_db) \<Rightarrow> unit svc" where
  "db_try f s = (case f (sv_db s) of Inl e \<Rightarrow> (Raise e, s) | Inr db \<Rightarrow> (Return (), s\<lparr>sv_db := db\<rparr>))"

definition send :: "sent \<Rightarrow> unit svc" where
  "send x = smodify (\<lambda>s. s\<lparr>sv_sent := sv_sent s @ [x]\<rparr>)"

definition event :: "world \<Rightarrow> string \<Rightarrow> string \<Rightarrow> string option \<Rightarrow> unit svc" where
  "event w level event_type slug =
     sbind sget (\<lambda>s. db_do (log_event (Some (sv_run_id s)) level event_type slug (wall_ts w)))"

subsection \<open>Running a method\<close>

lemma sbind_get [simp]: "sbind sget f s = f s s"
  by (simp add: sbind_def sget_def)

lemma sbind_lift [simp]:
  "sbind (slift r) f s = (case r of Inl e \<Rightarrow> (Raise e, s) | Inr x \<Rightarrow> f x s)"
  by (simp add: sbind_def slift_def)

lemma sthen_db_do [simp]: "sthen (db_do f) m s = m (s\<lparr>sv_db := f (sv_db s)\<rparr>)"
  by (simp add: sthen_def sbind_def db_do_def smodify_def)

lemma sthen_modify [simp]: "sthen (smodify f) m s = m (f s)"
  by (simp add: sthen_def sbind_def smodify_def)

lemma sreturn_run [simp]: "sreturn x s = (Return x, s)" "sraise e s = (Raise e, s)"
  by (simp_all add: sreturn_def sraise_def)

lemma event_run: "event w level type slug s =
   (Return (), s\<lparr>sv_db := log_event (Some (sv_run_id s)) level type slug (wall_ts w) (sv_db s)\<rparr>)"
  by (simp add: event_def db_do_def smodify_def)

lemma sthen_event [simp]: "sthen (event w level type slug) m s =
   m (s\<lparr>sv_db := log_event (Some (sv_run_id s)) level type slug (wall_ts w) (sv_db s)\<rparr>)"
  by (simp add: sthen_def sbind_def event_run)

lemma sthen_send [simp]: "sthen (send x) m s = m (s\<lparr>sv_sent := sv_sent s @ [x]\<rparr>)"
  by (simp add: send_def)

lemma sthen_db_try [simp]: "sthen (db_try f) m s =
   (case f (sv_db s) of Inl e \<Rightarrow> (Raise e, s) | Inr db \<Rightarrow> m (s\<lparr>sv_db := db\<rparr>))"
  by (simp add: sthen_def sbind_def db_try_def split: sum.split)

lemma swhen_run [simp]: "swhen True m = m" "swhen False m s = (Return (), s)"
  by (simp_all add: swhen_def)

lemma sthen_assoc [simp]:
  "sthen (sthen l n) k = sthen l (sthen n k)" "sthen (sbind sget f) n s = sthen (f s) n s"
  by (auto simp: fun_eq_iff sthen_def sbind_def sget_def split: prod.split sum.split)

lemma return_run [simp]: "sbind (sreturn x) f = f x" "sthen (sreturn x) n = n"
  by (simp_all add: fun_eq_iff sthen_def sbind_def)

lemma db_order_log [simp]: "db_order k (log_event rid level type slug now db) = db_order k db"
  by (simp add: log_event_def db_order_def)

subsection \<open>Invariants of methods\<close>

text \<open>
  \<open>keeps P m\<close>: whatever the outcome, the method leaves \<open>P\<close> as it was. The lemmas go through
  the monad; the collection \<open>keeps_intros\<close> gathers them and each method's own.
\<close>

definition keeps :: "(service \<Rightarrow> bool) \<Rightarrow> 'a svc \<Rightarrow> bool" where
  "keeps P m \<longleftrightarrow> (\<forall>s. P s \<longrightarrow> P (snd (m s)))"

named_theorems keeps_intros \<open>introduction rules for keeps\<close>

lemma keepsI: "(\<And>s. P s \<Longrightarrow> P (snd (m s))) \<Longrightarrow> keeps P m"
  by (simp add: keeps_def)

lemma keepsD: "keeps P m \<Longrightarrow> P s \<Longrightarrow> P (snd (m s))"
  by (simp add: keeps_def)

lemma keeps_return [keeps_intros]: "keeps P (sreturn x)"
  by (simp add: keeps_def sreturn_def)

lemma keeps_raise [keeps_intros]: "keeps P (sraise e)"
  by (simp add: keeps_def sraise_def)

lemma keeps_pair [keeps_intros]: "keeps P (Pair r)"
  by (simp add: keeps_def)

lemma keeps_lift [keeps_intros]: "keeps P (slift r)"
  by (simp add: keeps_def slift_def)

lemma keeps_get [keeps_intros]: "keeps P sget"
  by (simp add: keeps_def sget_def)

lemma keeps_bind [keeps_intros]: "keeps P m \<Longrightarrow> (\<And>x. keeps P (f x)) \<Longrightarrow> keeps P (sbind m f)"
  by (fastforce simp: keeps_def sbind_def split: prod.splits sum.splits)

lemma keeps_then [keeps_intros]: "keeps P m \<Longrightarrow> keeps P n \<Longrightarrow> keeps P (sthen m n)"
  unfolding sthen_def by (rule keeps_bind)

lemma keeps_try [keeps_intros]: "keeps P m \<Longrightarrow> (\<And>e. keeps P (h e)) \<Longrightarrow> keeps P (stry m h)"
  by (fastforce simp: keeps_def stry_def split: prod.splits sum.splits)

lemma keeps_when [keeps_intros]: "keeps P m \<Longrightarrow> keeps P (swhen b m)"
  by (simp add: swhen_def keeps_return)

lemma keeps_for [keeps_intros]: "(\<And>x. keeps P (f x)) \<Longrightarrow> keeps P (sfor f xs)"
  by (induction xs) (auto intro: keeps_intros)

lemma keeps_fold [keeps_intros]: "(\<And>x acc. keeps P (f x acc)) \<Longrightarrow> keeps P (sfold f xs acc)"
  by (induction xs arbitrary: acc) (auto intro: keeps_intros)

lemma keeps_while [keeps_intros]: "(\<And>x. keeps P (f x)) \<Longrightarrow> keeps P (swhile f xs)"
  by (induction xs) (auto intro!: keeps_intros)

lemma keeps_get_bind: "(\<And>s. P s \<Longrightarrow> P (snd (f s s))) \<Longrightarrow> keeps P (sbind sget f)"
  by (simp add: keeps_def)

lemma keeps_if [keeps_intros]: "(b \<Longrightarrow> keeps P m) \<Longrightarrow> (\<not> b \<Longrightarrow> keeps P n) \<Longrightarrow> keeps P (if b then m else n)"
  by simp

lemma keeps_modify: "(\<And>s. P s \<Longrightarrow> P (f s)) \<Longrightarrow> keeps P (smodify f)"
  by (simp add: keeps_def smodify_def)

lemma keeps_db_do: "(\<And>s. P s \<Longrightarrow> P (s\<lparr>sv_db := f (sv_db s)\<rparr>)) \<Longrightarrow> keeps P (db_do f)"
  unfolding db_do_def by (rule keeps_modify)

lemma keeps_db_try:
  "(\<And>s db. P s \<Longrightarrow> f (sv_db s) = Return db \<Longrightarrow> P (s\<lparr>sv_db := db\<rparr>)) \<Longrightarrow> keeps P (db_try f)"
  by (auto simp: keeps_def db_try_def split: sum.splits)

subsection \<open>Invariants of the service\<close>

text \<open>
  A property that every statement of the database keeps, that sending anything but an entry
  keeps, and that does not read what the methods following orders also write, is kept by each
  of these methods: the laws ask it of the single writes, the lemmas give it for the pieces the
  methods are made of, and the theories that follow add each method.
\<close>

definition is_entry :: "sent \<Rightarrow> bool" where
  "is_entry x \<longleftrightarrow> (case x of EntrySent _ \<Rightarrow> True | _ \<Rightarrow> False)"

text \<open>The statements that write the row of a run; only the run itself issues them.\<close>

definition is_run_op :: "db_op \<Rightarrow> bool" where
  "is_run_op op \<longleftrightarrow> (case op of StartRun _ \<Rightarrow> True | StopRun _ _ _ \<Rightarrow> True | _ \<Rightarrow> False)"

lemma is_run_op_simps [simp]:
  "\<not> is_run_op (LogEvent rid level type slug)" "\<not> is_run_op (SetMarketState market state error)"
  "\<not> is_run_op (UpdateOrder oid status matched raw)" "\<not> is_run_op (MarkOrders ids status)"
  "\<not> is_run_op (AddOrder i market p)" "\<not> is_run_op (PrepareMarket i m st)"
  by (simp_all add: is_run_op_def)

locale follow_law =
  fixes L :: "service \<Rightarrow> bool"
  assumes exec: "L s \<Longrightarrow> \<not> is_run_op (fst op) \<Longrightarrow> L (s\<lparr>sv_db := db_exec op (sv_db s)\<rparr>)"
    and sends: "L s \<Longrightarrow> \<not> is_entry x \<Longrightarrow> L (s\<lparr>sv_sent := sv_sent s @ [x]\<rparr>)"
    and backend: "L s \<Longrightarrow> b \<noteq> DryRun \<Longrightarrow> L (s\<lparr>sv_backend := b\<rparr>)"
    and discovery: "L s \<Longrightarrow> L (s\<lparr>sv_last_discovery := d\<rparr>)"
begin

lemma keeps_event: "keeps L (event w level type slug)"
  using exec [of _ "(LogEvent _ _ _ _, _)"]
  by (auto simp: event_def intro!: keeps_bind keeps_get keeps_db_do)

lemma keeps_set_market_state: "keeps L (db_do (set_market_state slug state error now))"
  using exec [of _ "(SetMarketState _ _ _, _)"] by (auto intro: keeps_db_do)

lemma keeps_update_order: "keeps L (db_do (update_order oid status matched raw now))"
  using exec [of _ "(UpdateOrder _ _ _ _, _)"] by (auto intro: keeps_db_do)

lemma keeps_mark_orders: "keeps L (db_do (mark_orders ids status now))"
  using exec [of _ "(MarkOrders _ _, _)"] by (auto intro: keeps_db_do)

lemma keeps_add_order: "keeps L (db_try (add_order rid slug p now))"
  using exec [of _ "(AddOrder rid slug p, now)"]
  by (intro keeps_db_try) (fastforce simp: or_unchanged_def)

lemma keeps_prepare_market: "keeps L (db_try (prepare_market rid m state now))"
  using exec [of _ "(PrepareMarket rid m state, now)"]
  by (intro keeps_db_try) (fastforce simp: or_unchanged_def)

lemma keeps_send_exit: "keeps L (send (ExitSent slug out price sz))"
  "keeps L (send (ExitAccepted slug out price sz))" "keeps L (send (CancelSent account ids))"
  by (auto simp: send_def is_entry_def intro!: keeps_modify sends)

lemma keeps_set_backend: "keeps L (smodify (\<lambda>s. s\<lparr>sv_backend := Solo ex\<rparr>))"
  "keeps L (smodify (\<lambda>s. s\<lparr>sv_backend := Many fl\<rparr>))"
  by (auto intro!: keeps_modify backend)

lemma keeps_set_discovery: "keeps L (smodify (\<lambda>s. s\<lparr>sv_last_discovery := d\<rparr>))"
  by (intro keeps_modify discovery)

lemmas law_intros = keeps_event keeps_set_market_state keeps_update_order keeps_mark_orders
  keeps_add_order keeps_prepare_market keeps_send_exit keeps_set_backend
  keeps_set_discovery keeps_intros

end

text \<open>Placing entries also sends them, keeps retries and requeues markets.\<close>

locale service_law = follow_law +
  assumes entries: "L s \<Longrightarrow> L (s\<lparr>sv_sent := sv_sent s @ [EntrySent slug]\<rparr>)"
    and retries: "L s \<Longrightarrow> L (s\<lparr>sv_placement_retries := r\<rparr>)"
    and queue: "L s \<Longrightarrow> L (s\<lparr>sv_activation_updates := us\<rparr>)"
    and wake: "L s \<Longrightarrow> L (s\<lparr>sv_wake := b\<rparr>)"
    and reconciled: "L s \<Longrightarrow> L (s\<lparr>sv_last_reconcile := t\<rparr>)"

text \<open>The run itself also closes its row.\<close>

locale run_law = service_law +
  assumes stops: "L s \<Longrightarrow> L (s\<lparr>sv_db := stop_run rid status error now (sv_db s)\<rparr>)"
begin

lemma keeps_stop_run: "keeps L (db_do (stop_run rid status error now))"
  by (intro keeps_db_do stops)

end

text \<open>A property of the database that every statement keeps is such a property.\<close>

locale db_law =
  fixes P :: "bot_db \<Rightarrow> bool"
  assumes db_exec: "P db \<Longrightarrow> P (db_exec op db)"

sublocale db_law \<subseteq> run_law "\<lambda>s. P (sv_db s)"
  using db_exec [of _ "(StopRun _ _ _, _)"] by unfold_locales (simp_all add: db_exec)

interpretation integrity: db_law db_ok
  by unfold_locales (rule db_exec_ok)

lemma db_order_exec: "db_order k db \<noteq> None \<Longrightarrow> db_order k (db_exec op db) \<noteq> None"
  by (induction op db rule: db_exec.induct)
    (auto simp: start_run_def stop_run_def log_event_def add_market_def prepare_market_def
      set_market_state_def add_order_put or_unchanged_def order_store.get_put db_order_update
      db_order_mark Let_def split: if_splits sum.splits)

interpretation kept: db_law "\<lambda>db. db_order k db \<noteq> None" for k
  by unfold_locales (rule db_order_exec)

end
