(* ===== verification/Service_Orders.thy ===== *)
theory Service_Orders
  imports Service_State
begin

text \<open>
  The methods of \<open>BotService\<close> that follow orders once they are placed: the updates of the
  reconciliation worker and of the user streams, orders adopted from the venue's list, exits
  for filled entries, and the cancels at a market's end and at shutdown.
\<close>

definition TERMINAL_ORDER_STATES :: "string list" where
  "TERMINAL_ORDER_STATES =
     [''cancelled'', ''canceled'', ''closed'', ''filled'', ''matched'', ''expired'', ''rejected'',
      ''failed'', ''terminal_unknown'']"

definition FRESH_ORDER_GRACE_SECONDS :: int where "FRESH_ORDER_GRACE_SECONDS = 60"

definition terminal :: "string \<Rightarrow> bool" where
  "terminal status \<longleftrightarrow> status \<in> set TERMINAL_ORDER_STATES"

subsection \<open>Exits\<close>

text \<open>The rungs of a filled entry that still miss shares, with the shares missing.\<close>

definition pending_targets :: "trade_plan \<Rightarrow> bot_db \<Rightarrow> tracked \<Rightarrow> (exit_target \<times> rat) list" where
  "pending_targets plan db t =
     (let (row, m) = t in
      filter (\<lambda>(target, pending). m_min_size m \<le> pending)
        (map (\<lambda>target. (target, dsub (dmul (o_matched_size row) (et_fraction target))
               (exit_handled_size (o_slug row) (o_outcome row) (et_price target) db)))
          (exit_targets plan)))"

text \<open>The market an exit is signed for, rebuilt from the row.\<close>

definition exit_market :: "tracked \<Rightarrow> market" where
  "exit_market t =
     (let (row, m) = t in
      m\<lparr>m_start_ts := 0,
        m_up_token_id := (if o_outcome row = ''up'' then o_token_id row else []),
        m_down_token_id := (if o_outcome row = ''down'' then o_token_id row else [])\<rparr>)"

definition failed_exit :: "order_row \<Rightarrow> rat \<Rightarrow> rat \<Rightarrow> int \<Rightarrow> string \<Rightarrow> placed_order" where
  "failed_exit row price sz nanos error =
     \<lparr>po_order_id = ''failed:'' @ o_slug row @ '':'' @ o_outcome row @ '':'' @ show_int nanos,
      po_outcome = o_outcome row, po_token_id = o_token_id row, po_price = price, po_size = sz,
      po_status = ''failed'', po_raw = JObj [(''error'', JStr error)], po_side = ''sell'',
      po_role = ''exit'', po_account = []\<rparr>"

definition record_exit :: "world \<Rightarrow> order_row \<Rightarrow> placed_order \<Rightarrow> bool svc" where
  "record_exit w row p =
     sbind sget (\<lambda>s.
     sthen (send (ExitAccepted (o_slug row) (o_outcome row) (po_price p) (po_size p)))
     (sthen (db_try (add_order (sv_run_id s) (o_slug row) p (wall_ts w)))
     (sthen (event w ''INFO'' ''exit_order_placed'' (Some (o_slug row))) (sreturn True))))"

text \<open>The nanosecond clock moves on with every request that is sent.\<close>

definition record_failed_exit :: "world \<Rightarrow> order_row \<Rightarrow> rat \<Rightarrow> rat \<Rightarrow> string \<Rightarrow> bool svc" where
  "record_failed_exit w row price sz error =
     sbind sget (\<lambda>s.
     sthen (db_try (add_order (sv_run_id s) (o_slug row)
             (failed_exit row price sz (sw_nanos w + int (length (sv_sent s))) error) (wall_ts w)))
     (sthen (db_do (set_market_state (o_slug row) ''exit_error'' (Some error) (wall_ts w)))
     (sthen (event w ''ERROR'' ''exit_order_failed'' (Some (o_slug row))) (sreturn False))))"

definition place_exit_rung :: "world \<Rightarrow> tracked \<Rightarrow> rat \<Rightarrow> rat \<Rightarrow> bool svc" where
  "place_exit_rung w t price sz =
     (let (row, _) = t; m = exit_market t in
      sthen (send (ExitSent (o_slug row) (o_outcome row) price sz))
      (sbind sget (\<lambda>s.
        let v = venue_of w s in
        case place_exit v m (o_outcome row) (o_token_id row) price sz of
          Inr p \<Rightarrow> record_exit w row p
        | Inl e \<Rightarrow>
            (case reconcile_ambiguous_exit v m (o_outcome row) (o_token_id row) price sz of
               Inr (Some p) \<Rightarrow> record_exit w row p
             | Inr None \<Rightarrow> record_failed_exit w row price sz (exn_text e)
             | Inl e' \<Rightarrow> record_failed_exit w row price sz
                 (''submission='' @ exn_text e @ ''; reconciliation='' @ exn_text e')))))"

fun exit_loop :: "world \<Rightarrow> tracked \<Rightarrow> rat \<Rightarrow> (exit_target \<times> rat) list \<Rightarrow> rat \<Rightarrow> unit svc" where
  "exit_loop w t min_size [] available = sreturn ()"
| "exit_loop w t min_size ((target, pending) # ts) available =
     (let sz = min pending available in
      if sz < min_size then exit_loop w t min_size ts available
      else sbind (place_exit_rung w t (et_price target) sz) (\<lambda>placed.
        let available = (if placed then dsub available sz else available) in
        if available < min_size then sreturn () else exit_loop w t min_size ts available))"

definition exits_for_row :: "world \<Rightarrow> int \<Rightarrow> tracked \<Rightarrow> unit svc" where
  "exits_for_row w now_ts t =
     (let (row, m) = t in
      sbind sget (\<lambda>s.
        if m_end_ts m - sc_cancel_before_end_seconds (sv_config s) \<le> now_ts then sreturn ()
        else let pending = pending_targets (plan_of s) (sv_db s) t in
          if pending = [] then sreturn ()
          else sbind (slift (conditional_balance (venue_of w s) (o_token_id row))) (\<lambda>balance.
            let reserved = active_exit_reserved_size (o_slug row) (o_outcome row) (sv_db s);
                available = max 0 (dsub balance reserved)
            in if available < m_min_size m then sreturn ()
               else exit_loop w t (m_min_size m) pending available)))"

definition place_missing_exits :: "world \<Rightarrow> int \<Rightarrow> unit svc" where
  "place_missing_exits w now_ts =
     sbind sget (\<lambda>s.
       if buy_only (plan_of s) then sreturn ()
       else sfor (exits_for_row w now_ts) (entry_orders_with_fills (sv_db s)))"

definition exits_if :: "world \<Rightarrow> bool \<Rightarrow> unit svc" where
  "exits_if w changed =
     sbind sget (\<lambda>s.
       swhen (changed \<and> has_exchange s \<and> \<not> buy_only (plan_of s)) (place_missing_exits w (wall_ts w)))"

subsection \<open>Orders we have no row for\<close>

definition report_foreign_order :: "world \<Rightarrow> market_row \<Rightarrow> bool svc" where
  "report_foreign_order w mr =
     sthen (event w ''WARNING'' ''open_order_not_adopted'' (Some (mr_slug mr))) (sreturn False)"

definition adopt_price :: "trade_plan \<Rightarrow> payload \<Rightarrow> exn + rat" where
  "adopt_price plan raw =
     (if truthy (pget ''price'' raw) then dec_of (pget ''price'' raw) else Return (buy_price plan))"

definition adopt_outcome :: "market_row \<Rightarrow> string \<Rightarrow> string option" where
  "adopt_outcome mr asset_id =
     (if asset_id = m_up_token_id (mr_market mr) then Some ''up''
      else if asset_id = m_down_token_id (mr_market mr) then Some ''down'' else None)"

definition adopted_order ::
  "string \<Rightarrow> string \<Rightarrow> string \<Rightarrow> rat \<Rightarrow> rat \<Rightarrow> string \<Rightarrow> payload \<Rightarrow> placed_order" where
  "adopted_order oid out asset_id price sz status raw =
     (let side = (if upper (py_str (case map_of raw ''side'' of None \<Rightarrow> JStr [] | Some v \<Rightarrow> v)) = ''SELL''
                  then ''sell'' else ''buy'')
      in \<lparr>po_order_id = oid, po_outcome = out, po_token_id = asset_id, po_price = price, po_size = sz,
          po_status = status, po_raw = JObj raw, po_side = side,
          po_role = (if side = ''sell'' then ''exit'' else ''entry''),
          po_account = py_str (por (pget ''account'' raw) (JStr []))\<rparr>)"

text \<open>The body of the loop of \<open>_adopt_unknown_open_orders\<close>: whether the order was adopted.\<close>

definition adopt_one :: "world \<Rightarrow> payload \<Rightarrow> bool svc" where
  "adopt_one w raw =
     sbind sget (\<lambda>s.
     let oid = py_str (open_row_id raw);
         asset_id = py_str (por (pget ''asset_id'' raw) (JStr [])) in
     if \<not> truthy (open_row_id raw) \<or> db_order oid (sv_db s) \<noteq> None then sreturn False
     else case market_for_condition (py_str (por (pget ''market'' raw) (JStr []))) (sv_run_id s) (sv_db s) of
       None \<Rightarrow> sreturn False
     | Some mr \<Rightarrow>
         (case adopt_outcome mr asset_id of
            None \<Rightarrow> sreturn False
          | Some out \<Rightarrow>
              sbind (slift (adopt_price (plan_of s) raw)) (\<lambda>price.
              if price \<noteq> buy_price (plan_of s) then report_foreign_order w mr
              else sbind (slift (normalize_order raw)) (\<lambda>(status, matched).
              if terminal status then report_foreign_order w mr
              else sbind (slift (dec_of (por (pget ''original_size'' raw)
                     (por (pget ''size'' raw) (JStr ''0''))))) (\<lambda>sz.
              sthen (db_try (add_order (sv_run_id s) (mr_slug mr)
                      (adopted_order oid out asset_id price sz status raw) (wall_ts w)))
              (sthen (event w ''WARNING'' ''order_adopted'' (Some (mr_slug mr))) (sreturn True)))))))"

definition adopt_unknown_open_orders :: "world \<Rightarrow> payload list \<Rightarrow> nat svc" where
  "adopt_unknown_open_orders w open_rows =
     sfold (\<lambda>raw adopted. sbind (stry (adopt_one w raw)
         (\<lambda>_. sthen (event w ''WARNING'' ''order_adopt_failed'' None) (sreturn False)))
       (\<lambda>ok. sreturn (if ok then Suc adopted else adopted))) open_rows 0"

subsection \<open>Reconciliation updates\<close>

text \<open>What a reconciled payload makes of a row: \<open>None\<close> leaves a fresh order alone.\<close>

definition reconciled_row :: "int \<Rightarrow> order_row \<Rightarrow> rat \<Rightarrow> string \<times> rat \<Rightarrow> (string \<times> rat) option" where
  "reconciled_row now row snapshot_size payload =
     (let (status, matched) = payload; previous_status = o_status row in
      if status = ''terminal_unknown'' \<and> \<not> terminal previous_status \<and>
         now - o_created_ts row < FRESH_ORDER_GRACE_SECONDS then None
      else let matched = max matched (o_matched_size row);
               status = (if status = ''matched'' \<and> snapshot_size \<le> matched then ''filled'' else status);
               status = (if terminal previous_status \<and> \<not> terminal status then previous_status else status)
           in Some (status, matched))"

text \<open>The flags: whether discovery is rearmed, and whether an entry's fill grew.\<close>

definition apply_reconciled :: "world \<Rightarrow> reconciled \<Rightarrow> bool \<times> bool \<Rightarrow> (bool \<times> bool) svc" where
  "apply_reconciled w result flags =
     (let (rearm, changed) = flags; oid = sn_order_id (rc_snapshot result) in
      sbind sget (\<lambda>s.
        case db_order oid (sv_db s) of
          None \<Rightarrow> sreturn flags
        | Some row \<Rightarrow>
            (case (rc_error result \<in> {None, Some []}, rc_raw result) of
               (True, Some raw) \<Rightarrow>
                 sbind (slift (normalize_order raw)) (\<lambda>payload.
                 (case reconciled_row (wall_ts w) row (sn_size (rc_snapshot result)) payload of
                    None \<Rightarrow> sreturn flags
                  | Some (status, matched) \<Rightarrow>
                      sthen (db_do (update_order oid status matched (JObj raw) (wall_ts w)))
                      (sreturn
                        (rearm \<or> (\<not> terminal (o_status row) \<and> terminal status \<and> matched = 0),
                         changed \<or> (o_role row = ''entry'' \<and> o_matched_size row < matched)))))
             | _ \<Rightarrow> sthen (event w ''WARNING'' ''order_reconcile_failed''
                      (Some (sn_slug (rc_snapshot result)))) (sreturn flags))))"

definition apply_recon_update :: "world \<Rightarrow> recon_update \<Rightarrow> bool \<times> bool \<Rightarrow> (bool \<times> bool) svc" where
  "apply_recon_update w u flags =
     (if ru_batch_error u \<notin> {None, Some []} then
        sthen (event w ''WARNING'' ''order_batch_reconcile_failed'' None) (sreturn flags)
      else sbind (if ru_open_rows u = [] then sreturn 0 else adopt_unknown_open_orders w (ru_open_rows u))
        (\<lambda>adopted. sfold (apply_reconciled w) (ru_orders u) (fst flags, 0 < adopted \<or> snd flags)))"

definition activation_probe :: "service \<Rightarrow> bool" where
  "activation_probe s \<longleftrightarrow>
     sc_live (sv_config s) \<and> sc_placement_order (sv_config s) = ''farthest-first''"

definition drain_reconciliation_updates :: "world \<Rightarrow> recon_update list \<Rightarrow> unit svc" where
  "drain_reconciliation_updates w updates =
     sbind (sfold (apply_recon_update w) updates (False, False)) (\<lambda>(rearm, changed).
     sbind sget (\<lambda>s.
     sthen (swhen (rearm \<and> \<not> activation_probe s) (smodify (\<lambda>s. s\<lparr>sv_last_discovery := 0\<rparr>)))
       (exits_if w changed)))"

subsection \<open>User stream updates\<close>

record stream_flags =
  sf_recovered :: bool
  sf_order_changed :: bool
  sf_settlement_changed :: bool

text \<open>An update with the worker it came from: whether its socket gates trading.\<close>

definition apply_stream_update ::
  "world \<Rightarrow> bool \<times> user_update \<Rightarrow> stream_flags \<Rightarrow> stream_flags svc" where
  "apply_stream_update w u flags =
     (case u of (gating, upd) \<Rightarrow>
      (case upd of
        StateUpdate st \<Rightarrow>
          if ss_healthy st then
            sthen (event w ''INFO'' ''user_stream_connected'' None)
              (sreturn (if ss_recovered st \<and> gating then flags\<lparr>sf_recovered := True\<rparr> else flags))
          else sthen (event w (if gating then ''ERROR'' else ''WARNING'') ''user_stream_disconnected'' None)
              (sreturn flags)
      | TradeUpdate tr \<Rightarrow>
          if ut_status tr \<notin> {''MINED'', ''CONFIRMED''} then sreturn flags
          else sbind sget (\<lambda>s. sreturn
            (if list_ex (\<lambda>oid. case db_order oid (sv_db s) of
                 None \<Rightarrow> False | Some row \<Rightarrow> o_role row = ''entry'') (ut_order_ids tr)
             then flags\<lparr>sf_settlement_changed := True\<rparr> else flags))
      | OrderUpdate up \<Rightarrow>
          sbind sget (\<lambda>s.
            case db_order (uo_order_id up) (sv_db s) of
              None \<Rightarrow> sreturn flags
            | Some row \<Rightarrow>
                sthen (db_do (update_order (uo_order_id up) (uo_status up) (uo_matched_size up)
                        (uo_raw up) (wall_ts w)))
                (sthen (swhen (uo_event_type up = Some ''PLACEMENT'')
                         (event w ''INFO'' ''order_placement_observed'' (Some (o_slug row))))
                (sreturn (if o_role row = ''entry'' \<and> o_matched_size row < uo_matched_size up
                          then flags\<lparr>sf_order_changed := True\<rparr> else flags))))))"

definition drain_user_stream_updates :: "world \<Rightarrow> (bool \<times> user_update) list \<Rightarrow> bool svc" where
  "drain_user_stream_updates w updates =
     sbind (sfold (apply_stream_update w) updates
         \<lparr>sf_recovered = False, sf_order_changed = False, sf_settlement_changed = False\<rparr>) (\<lambda>flags.
     sthen (exits_if w (sf_order_changed flags \<or> sf_settlement_changed flags))
       (sreturn (sf_recovered flags)))"

subsection \<open>Cancels\<close>

definition group_rows :: "string \<Rightarrow> order_row list \<Rightarrow> (string, string list) dict" where
  "group_rows primary_name rows =
     foldl (\<lambda>d r. let account = (if o_account r = [] then primary_name else o_account r) in
       dict_set account ((case dict_get d account of None \<Rightarrow> [] | Some ids \<Rightarrow> ids) @ [o_order_id r]) d) [] rows"

definition cancel_account ::
  "world \<Rightarrow> string \<times> string list \<Rightarrow> string list \<times> string list \<Rightarrow> (string list \<times> string list) svc" where
  "cancel_account w grp acc =
     (let (account, ids) = grp; (canceled_ids, terminal_ids) = acc in
      sbind sget (\<lambda>s.
        case sv_backend s of
          Many fl \<Rightarrow>
            (case fleet_find fl account of
               Inl e \<Rightarrow> sraise e
             | Inr mb \<Rightarrow>
                 sthen (send (CancelSent account ids))
                 (case cancel_orders (pw_venues (sw_fleet w) account) ids (fm_exchange mb) of
                    (reply, ex) \<Rightarrow>
                      sthen (smodify (\<lambda>s. s\<lparr>sv_backend := Many (set_exchange account ex fl)\<rparr>))
                      (sbind (slift (rbind reply cancel_outcome)) (\<lambda>(canceled, term).
                        sreturn (canceled_ids @ canceled, terminal_ids @ term)))))
        | _ \<Rightarrow> sreturn acc))"

text \<open>\<open>_cancel_rows\<close>: every order is cancelled at the account that owns it.\<close>

definition cancel_rows :: "world \<Rightarrow> order_row list \<Rightarrow> (string list \<times> string list) svc" where
  "cancel_rows w rows =
     sbind sget (\<lambda>s.
       case sv_backend s of
         DryRun \<Rightarrow> sraise (Raised ''AttributeError'' ''cancel_orders'')
       | Solo ex \<Rightarrow>
           (let ids = map o_order_id rows in
            sthen (send (CancelSent [] ids))
            (case cancel_orders (sw_venue w) ids ex of
               (reply, ex) \<Rightarrow>
                 sthen (smodify (\<lambda>s. s\<lparr>sv_backend := Solo ex\<rparr>)) (slift (rbind reply cancel_outcome))))
       | Many fl \<Rightarrow>
           sfold (cancel_account w) (group_rows (fm_name (primary fl)) rows) ([], []))"

definition cancel_due_orders :: "world \<Rightarrow> unit svc" where
  "cancel_due_orders w =
     sbind sget (\<lambda>s.
     let margin = sc_cancel_before_end_seconds (sv_config s);
         due = map fst (due_open_orders (sw_wall w + of_int margin) (sv_db s));
         order_ids = map o_order_id due in
     if margin = 0 \<or> order_ids = [] then sreturn ()
     else if \<not> has_exchange s then db_do (mark_orders order_ids ''simulated_closed'' (wall_ts w))
     else sthen (db_do (mark_orders order_ids ''cancel_requested'' (wall_ts w)))
       (sbind (stry (sbind (cancel_rows w due) (\<lambda>r. sreturn (Some r)))
            (\<lambda>e. sthen (event w ''ERROR'' ''deadline_cancel_failed'' None) (sreturn None)))
        (\<lambda>result. case result of
           None \<Rightarrow> sreturn ()
         | Some (canceled_ids, terminal_unknown_ids) \<Rightarrow>
             sthen (db_do (mark_orders canceled_ids ''cancelled'' (wall_ts w)))
             (sthen (db_do (mark_orders terminal_unknown_ids ''terminal_unknown'' (wall_ts w)))
               (event w ''INFO'' ''deadline_cancel'' None)))))"

definition cancel_tracked_orders :: "world \<Rightarrow> unit svc" where
  "cancel_tracked_orders w =
     sbind sget (\<lambda>s.
     let tracked = map fst (tracked_open_orders (sv_db s)); order_ids = map o_order_id tracked in
     if order_ids = [] then sreturn ()
     else if \<not> has_exchange s then db_do (mark_orders order_ids ''simulated_closed'' (wall_ts w))
     else sthen (db_do (mark_orders order_ids ''cancel_requested'' (wall_ts w)))
       (stry
         (sbind (cancel_rows w tracked) (\<lambda>(canceled_ids, terminal_unknown_ids).
            sthen (db_do (mark_orders canceled_ids ''cancelled'' (wall_ts w)))
            (sthen (db_do (mark_orders terminal_unknown_ids ''terminal_unknown'' (wall_ts w)))
              (event w ''INFO'' ''shutdown_cancel'' None))))
         (\<lambda>_. sreturn ())))"

subsection \<open>Reconciling in the loop\<close>

definition view_of :: "world \<Rightarrow> service \<Rightarrow> order_view" where
  "view_of w s =
     (case sv_backend s of
        Many fl \<Rightarrow>
          \<lparr>ov_open = view_open_orders (pw_venues (sw_fleet w)) fl None,
           ov_get = (\<lambda>_ oid. rbind (view_get_order (pw_venues (sw_fleet w)) fl oid)
             (\<lambda>r. Return (case r of None \<Rightarrow> JNull | Some j \<Rightarrow> j)))\<rparr>
      | _ \<Rightarrow> \<lparr>ov_open = ve_open_orders (sw_venue w) None, ov_get = (\<lambda>_ oid. ve_get_order (sw_venue w) oid)\<rparr>)"

definition reconcile_payload :: "order_view \<Rightarrow> (string, payload) dict \<Rightarrow> string \<Rightarrow> exn + payload" where
  "reconcile_payload view by_id oid =
     (case dict_get by_id oid of
        Some raw \<Rightarrow> Return raw
      | None \<Rightarrow>
          rbind (ov_get view 0 oid) (\<lambda>raw.
            case raw of JNull \<Rightarrow> Return (missing_payload oid)
            | JObj kv \<Rightarrow> Return kv
            | _ \<Rightarrow> Raise (ValueError ''exchange returned no order payload'')))"

definition reconcile_row :: "world \<Rightarrow> (string, payload) dict \<Rightarrow> order_row \<Rightarrow> unit svc" where
  "reconcile_row w by_id row =
     stry
       (sbind sget (\<lambda>s.
        sbind (slift (reconcile_payload (view_of w s) by_id (o_order_id row))) (\<lambda>raw.
        sbind (slift (normalize_order raw)) (\<lambda>(status, matched).
          let status = (if status = ''matched'' \<and> o_size row \<le> matched then ''filled'' else status) in
          if status = ''terminal_unknown'' \<and> \<not> terminal (o_status row) \<and>
             wall_ts w - o_created_ts row < FRESH_ORDER_GRACE_SECONDS then sreturn ()
          else db_do (update_order (o_order_id row) status matched (JObj raw) (wall_ts w))))))
       (\<lambda>_. event w ''WARNING'' ''order_reconcile_failed'' (Some (o_slug row)))"

definition close_simulated :: "world \<Rightarrow> tracked \<Rightarrow> unit svc" where
  "close_simulated w t =
     swhen (m_end_ts (snd t) \<le> wall_ts w)
       (db_do (update_order (o_order_id (fst t)) ''expired'' 0 (JObj [(''dry_run'', JBool True)]) (wall_ts w)))"

definition read_open_rows :: "json list \<Rightarrow> exn + payload list" where
  "read_open_rows raws =
     rtraverse (\<lambda>j. if is_dict j then Return (as_dict j) else Raise (Raised ''AttributeError'' ''get'')) raws"

definition reconcile :: "world \<Rightarrow> unit svc" where
  "reconcile w =
     sbind sget (\<lambda>s.
     let tracked = tracked_open_orders (sv_db s);
         live_rows = map fst (filter (\<lambda>t. o_status (fst t) \<noteq> ''simulated'') tracked) in
     sthen (sfor (close_simulated w) (filter (\<lambda>t. o_status (fst t) = ''simulated'') tracked))
       (if live_rows \<noteq> [] \<and> has_exchange s then
          (case rbind (ov_open (view_of w s)) read_open_rows of
             Inl e \<Rightarrow> event w ''WARNING'' ''order_batch_reconcile_failed'' None
           | Inr rows \<Rightarrow>
               sthen (sfor (reconcile_row w (open_by_id rows)) live_rows) (exits_if w True))
        else exits_if w True))"

subsection \<open>What the methods keep\<close>

context follow_law
begin

lemma keeps_record_exit: "keeps L (record_exit w row p)"
  by (auto simp: record_exit_def intro!: law_intros)

lemma keeps_record_failed_exit: "keeps L (record_failed_exit w row price sz error)"
  by (auto simp: record_failed_exit_def intro!: law_intros)

lemma keeps_place_exit_rung: "keeps L (place_exit_rung w t price sz)"
  by (auto simp: place_exit_rung_def Let_def intro!: law_intros keeps_record_exit
      keeps_record_failed_exit split: prod.splits sum.splits option.splits)

lemma keeps_exit_loop: "keeps L (exit_loop w t min_size ts available)"
  by (induction w t min_size ts available rule: exit_loop.induct)
    (auto simp: Let_def intro!: law_intros keeps_place_exit_rung)

lemma keeps_exits_for_row: "keeps L (exits_for_row w now_ts t)"
  by (auto simp: exits_for_row_def Let_def intro!: law_intros keeps_exit_loop split: prod.splits)

lemma keeps_exits_if: "keeps L (exits_if w changed)"
  by (auto simp: exits_if_def place_missing_exits_def intro!: law_intros keeps_exits_for_row)

lemma keeps_report_foreign: "keeps L (report_foreign_order w mr)"
  by (auto simp: report_foreign_order_def intro!: law_intros)

lemma keeps_adopt_one: "keeps L (adopt_one w raw)"
  by (auto simp: adopt_one_def Let_def intro!: law_intros keeps_report_foreign
      split: option.splits prod.splits)

lemma keeps_adopt_unknown: "keeps L (adopt_unknown_open_orders w rows)"
  by (auto simp: adopt_unknown_open_orders_def intro!: law_intros keeps_adopt_one)

lemma keeps_apply_reconciled: "keeps L (apply_reconciled w result flags)"
  by (auto simp: apply_reconciled_def Let_def intro!: law_intros
      split: option.splits prod.splits bool.splits)

lemma keeps_apply_recon_update: "keeps L (apply_recon_update w u flags)"
  by (auto simp: apply_recon_update_def intro!: law_intros keeps_adopt_unknown keeps_apply_reconciled)

lemma keeps_drain_reconciliation: "keeps L (drain_reconciliation_updates w updates)"
  by (auto simp: drain_reconciliation_updates_def intro!: law_intros keeps_apply_recon_update
      keeps_exits_if split: prod.splits)

lemma keeps_apply_stream_update: "keeps L (apply_stream_update w u flags)"
  by (auto simp: apply_stream_update_def intro!: law_intros
      split: option.splits prod.splits user_update.splits)

lemma keeps_drain_user_stream: "keeps L (drain_user_stream_updates w updates)"
  by (auto simp: drain_user_stream_updates_def intro!: law_intros keeps_apply_stream_update keeps_exits_if)

lemma keeps_cancel_account: "keeps L (cancel_account w grp acc)"
  by (auto simp: cancel_account_def Let_def intro!: law_intros
      split: backend.splits sum.splits prod.splits)

lemma keeps_cancel_rows: "keeps L (cancel_rows w rows)"
  by (auto simp: cancel_rows_def Let_def intro!: law_intros keeps_cancel_account
      split: backend.splits prod.splits)

lemma keeps_cancel_due: "keeps L (cancel_due_orders w)"
  by (auto simp: cancel_due_orders_def Let_def intro!: law_intros keeps_cancel_rows
      split: option.splits prod.splits)

lemma keeps_cancel_tracked: "keeps L (cancel_tracked_orders w)"
  by (auto simp: cancel_tracked_orders_def Let_def intro!: law_intros keeps_cancel_rows split: prod.splits)

lemma keeps_reconcile_row: "keeps L (reconcile_row w by_id row)"
  by (auto simp: reconcile_row_def Let_def intro!: law_intros split: prod.splits)

lemma keeps_reconcile: "keeps L (reconcile w)"
  by (auto simp: reconcile_def close_simulated_def Let_def intro!: law_intros keeps_reconcile_row
      keeps_exits_if split: sum.splits)

lemmas order_law_intros = keeps_exits_if keeps_drain_reconciliation keeps_drain_user_stream
  keeps_cancel_due keeps_cancel_tracked keeps_reconcile

end

end
