(* ===== verification/Order_Following.thy ===== *)
theory Order_Following
  imports Service_Orders
begin

text \<open>
  What holds of the orders the service follows: reconciliation never turns an order back and
  never retires a fresh one, the deadline sweep cancels every due order at the account that owns
  it, and the exits placed for a filled entry stay within the shares held.
\<close>

subsection \<open>Reconciliation never turns an order back\<close>

definition advances :: "order_row \<Rightarrow> order_row \<Rightarrow> bool" where
  "advances r r' \<longleftrightarrow>
     o_matched_size r \<le> o_matched_size r' \<and> (terminal (o_status r) \<longrightarrow> terminal (o_status r')) \<and>
     r' = r\<lparr>o_status := o_status r', o_matched_size := o_matched_size r', o_raw := o_raw r',
            o_updated_ts := o_updated_ts r'\<rparr>"

lemma advances_refl: "advances r r"
  by (simp add: advances_def)

lemma advances_fields:
  "advances r r' \<Longrightarrow> o_matched_size r \<le> o_matched_size r' \<and> (terminal (o_status r) \<longrightarrow> terminal (o_status r')) \<and>
   (o_price r', o_size r', o_role r', o_slug r', o_account r') =
     (o_price r, o_size r, o_role r, o_slug r, o_account r)"
  by (cases r, cases r') (simp add: advances_def)

lemma advances_update:
  assumes "advances r0 r" "o_matched_size r \<le> m" "terminal (o_status r) \<longrightarrow> terminal st"
  shows "advances r0 (r\<lparr>o_status := st, o_matched_size := m, o_raw := raw, o_updated_ts := now\<rparr>)"
  using assms unfolding advances_def by (cases r0, cases r) (auto intro: order_trans)

definition advanced :: "string \<Rightarrow> order_row \<Rightarrow> service \<Rightarrow> bool" where
  "advanced k r s \<longleftrightarrow> (\<exists>r'. db_order k (sv_db s) = Some r' \<and> advances r r')"

lemma advanced_same: "db_order k db' = db_order k (sv_db s) \<Longrightarrow>
   advanced k r (s\<lparr>sv_db := db'\<rparr>) = advanced k r s"
  by (simp add: advanced_def)

lemma keeps_advanced_event: "keeps (advanced k r) (event w level type slug)"
  by (auto simp: keeps_def event_run advanced_def)

text \<open>What the code writes for a row never lowers its fill and never reopens it.\<close>

lemma reconciled_row_advances:
  assumes "reconciled_row now row sz payload = Some (status, matched)"
  shows "o_matched_size row \<le> matched \<and> (terminal (o_status row) \<longrightarrow> terminal status)"
  using assms by (auto simp: reconciled_row_def Let_def split: prod.splits if_splits)

lemma keeps_advanced_reconciled: "keeps (advanced k r) (apply_reconciled w result flags)"
  by (auto simp: apply_reconciled_def Let_def advanced_def db_order_update
      intro!: keeps_get_bind advances_update
      dest: reconciled_row_advances split: option.splits sum.splits prod.splits bool.splits)

text \<open>
  What a row we have no record of can become: nothing, a report, or a row of one of this run's
  markets, at the price we sign at and not terminal.
\<close>

definition adoptable :: "service \<Rightarrow> string \<Rightarrow> placed_order \<Rightarrow> bool" where
  "adoptable s slug p \<longleftrightarrow>
     db_order (po_order_id p) (sv_db s) = None \<and> po_price p = buy_price (plan_of s) \<and>
     \<not> terminal (po_status p) \<and>
     (\<exists>mr cond. market_for_condition cond (sv_run_id s) (sv_db s) = Some mr \<and> mr_slug mr = slug \<and>
        po_token_id p \<in> {m_up_token_id (mr_market mr), m_down_token_id (mr_market mr)})"

lemma adopt_outcome_token:
  "adopt_outcome mr asset = Some out \<Longrightarrow> asset \<in> {m_up_token_id (mr_market mr), m_down_token_id (mr_market mr)}"
  by (auto simp: adopt_outcome_def split: if_splits)

lemma adopt_known_market:
  assumes "truthy (open_row_id raw) \<and> db_order (py_str (open_row_id raw)) (sv_db s) = None"
    and "market_for_condition (py_str (por (pget ''market'' raw) (JStr []))) (sv_run_id s) (sv_db s) = Some mr"
    and "adopt_outcome mr (py_str (por (pget ''asset_id'' raw) (JStr []))) = Some out"
  shows "snd (adopt_one w raw s) = s \<or>
   (\<exists>level type slug. snd (adopt_one w raw s) =
      s\<lparr>sv_db := log_event (Some (sv_run_id s)) level type slug (wall_ts w) (sv_db s)\<rparr>) \<or>
   (\<exists>slug p db level type. adoptable s slug p \<and>
      add_order (sv_run_id s) slug p (wall_ts w) (sv_db s) = Return db \<and>
      snd (adopt_one w raw s) =
        s\<lparr>sv_db := log_event (Some (sv_run_id s)) level type (Some slug) (wall_ts w) db\<rparr>)"
proof -
  let ?oid = "py_str (open_row_id raw)" and ?asset = "py_str (por (pget ''asset_id'' raw) (JStr []))"
  have run: "adopt_one w raw s =
     (case adopt_price (plan_of s) raw of Inl e \<Rightarrow> (Raise e, s) | Inr price \<Rightarrow>
       if price \<noteq> buy_price (plan_of s) then report_foreign_order w mr s
       else case normalize_order raw of Inl e \<Rightarrow> (Raise e, s) | Inr (status, matched) \<Rightarrow>
       if terminal status then report_foreign_order w mr s
       else case dec_of (por (pget ''original_size'' raw) (por (pget ''size'' raw) (JStr ''0''))) of
         Inl e \<Rightarrow> (Raise e, s) | Inr sz \<Rightarrow>
       sthen (db_try (add_order (sv_run_id s) (mr_slug mr)
                (adopted_order ?oid out ?asset price sz status raw) (wall_ts w)))
         (sthen (event w ''WARNING'' ''order_adopted'' (Some (mr_slug mr))) (sreturn True)) s)"
    using assms by (simp add: adopt_one_def Let_def if_distribR split: sum.split prod.split)
  have foreign: "\<exists>level type slug. snd (report_foreign_order w mr s) =
      s\<lparr>sv_db := log_event (Some (sv_run_id s)) level type slug (wall_ts w) (sv_db s)\<rparr>"
    by (auto simp: report_foreign_order_def)
  have adopt: "snd (sthen (db_try (add_order (sv_run_id s) (mr_slug mr) p (wall_ts w)))
         (sthen (event w ''WARNING'' ''order_adopted'' (Some (mr_slug mr))) (sreturn True)) s) = s \<or>
     (\<exists>db. add_order (sv_run_id s) (mr_slug mr) p (wall_ts w) (sv_db s) = Return db \<and>
        snd (sthen (db_try (add_order (sv_run_id s) (mr_slug mr) p (wall_ts w)))
         (sthen (event w ''WARNING'' ''order_adopted'' (Some (mr_slug mr))) (sreturn True)) s) =
        s\<lparr>sv_db := log_event (Some (sv_run_id s)) ''WARNING'' ''order_adopted'' (Some (mr_slug mr)) (wall_ts w) db\<rparr>)"
    for p
    by (cases "add_order (sv_run_id s) (mr_slug mr) p (wall_ts w) (sv_db s)")
      (auto simp: sthen_def sbind_def db_try_def event_run)
  have ok: "adoptable s (mr_slug mr) (adopted_order ?oid out ?asset (buy_price (plan_of s)) sz status raw)"
    if "\<not> terminal status" for sz status
    using that assms adopt_outcome_token [OF assms(3)] unfolding adoptable_def
    by (auto simp: adopted_order_def Let_def)
  show ?thesis
  proof (cases "adopt_price (plan_of s) raw")
    case (Inl e) then show ?thesis by (simp add: run)
  next
    case price: (Inr price)
    show ?thesis
    proof (cases "price = buy_price (plan_of s)")
      case False then show ?thesis using foreign by (simp add: run price)
    next
      case True
      show ?thesis
      proof (cases "normalize_order raw")
        case (Inl e) then show ?thesis by (simp add: run price True)
      next
        case (Inr payload)
        obtain status matched where n: "normalize_order raw = Return (status, matched)"
          using Inr by (cases payload) simp
        show ?thesis
        proof (cases "terminal status")
          case t: True then show ?thesis using foreign by (simp add: run price True n)
        next
          case f: False
          show ?thesis
            using adopt [of "adopted_order ?oid out ?asset (buy_price (plan_of s)) _ status raw"] ok [OF f]
            by (cases "dec_of (por (pget ''original_size'' raw) (por (pget ''size'' raw) (JStr ''0'')))")
              (simp add: run price True n f, simp add: run price True n f, blast)
        qed
      qed
    qed
  qed
qed

lemma adopt_one_writes:
  "snd (adopt_one w raw s) = s \<or>
   (\<exists>level type slug. snd (adopt_one w raw s) =
      s\<lparr>sv_db := log_event (Some (sv_run_id s)) level type slug (wall_ts w) (sv_db s)\<rparr>) \<or>
   (\<exists>slug p db level type. adoptable s slug p \<and>
      add_order (sv_run_id s) slug p (wall_ts w) (sv_db s) = Return db \<and>
      snd (adopt_one w raw s) =
        s\<lparr>sv_db := log_event (Some (sv_run_id s)) level type (Some slug) (wall_ts w) db\<rparr>)"
proof -
  let ?oid = "py_str (open_row_id raw)" and ?asset = "py_str (por (pget ''asset_id'' raw) (JStr []))"
  show ?thesis
  proof (cases "truthy (open_row_id raw) \<and> db_order ?oid (sv_db s) = None")
    case False
    then have "snd (adopt_one w raw s) = s" by (auto simp: adopt_one_def Let_def)
    then show ?thesis by blast
  next
    case new: True
    show ?thesis
    proof (cases "market_for_condition (py_str (por (pget ''market'' raw) (JStr []))) (sv_run_id s) (sv_db s)")
      case None
      then have "snd (adopt_one w raw s) = s" using new by (simp add: adopt_one_def Let_def)
      then show ?thesis by blast
    next
      case mr: (Some mr)
      show ?thesis
      proof (cases "adopt_outcome mr ?asset")
        case None
        then have "snd (adopt_one w raw s) = s" using new mr by (simp add: adopt_one_def Let_def)
        then show ?thesis by blast
      next
        case (Some out)
        with new mr show ?thesis by (rule adopt_known_market)
      qed
    qed
  qed
qed

lemma keeps_advanced_adopt: "keeps (advanced k r) (adopt_one w raw)"
proof (rule keepsI)
  fix s assume "advanced k r s"
  moreover have "db_order k db = db_order k (sv_db s)"
    if "adoptable s slug p" "advanced k r s" "add_order (sv_run_id s) slug p (wall_ts w) (sv_db s) = Return db"
    for slug p db
    using that by (auto simp: adoptable_def advanced_def add_order_put order_store.get_put split: if_splits)
  ultimately show "advanced k r (snd (adopt_one w raw s))"
    using adopt_one_writes [of w raw s] by (auto simp: advanced_def)
qed

lemma keeps_advanced_update: "keeps (advanced k r) (apply_recon_update w u flags)"
  by (auto simp: apply_recon_update_def adopt_unknown_open_orders_def
      intro!: keeps_intros keeps_advanced_event keeps_advanced_adopt keeps_advanced_reconciled)

subsection \<open>Concrete services\<close>

definition example_config :: service_config where
  "example_config =
     \<lparr>sc_plan = example_plan, sc_max_reserved_usd = Some 100, sc_max_daily_filled_cost = None,
      sc_lookahead_minutes = 60, sc_placement_order = ''farthest-first'',
      sc_placement_interval_ms = 25, sc_entry_submission = ''single'', sc_knock_on_preview = False,
      sc_cancel_before_end_seconds = 60, sc_live = True, sc_order_poll_seconds = 5,
      sc_discovery_seconds = 5\<rparr>"

definition example_service :: service where
  "example_service =
     \<lparr>sv_config = example_config, sv_db = example_db, sv_backend = Solo exchange_init,
      sv_activation_updates = [], sv_placement_retries = [], sv_run_id = 1,
      sv_run_started_ts = 1700000000, sv_last_discovery = 0, sv_last_reconcile = 0,
      sv_wake = False, sv_sent = []\<rparr>"

definition example_row :: order_row where
  "example_row = order_row_of 1 (m_slug example_mkt) (example_order ''0x1'' ''up'') 1700000001"

definition example_service_order :: service where
  "example_service_order = example_service\<lparr>sv_db := example_db\<lparr>db_orders := [example_row]\<rparr>\<rparr>"

definition example_answers :: world where
  "example_answers =
     \<lparr>sw_wall = 1700000010, sw_finished = 1700000011, sw_venue = quiet_venue,
      sw_signing = (example_signing, 0), sw_fleet = example_world, sw_gamma = Return [], sw_nanos = 0\<rparr>"

lemma example_row_found: "db_order ''0x1'' (sv_db example_service_order) = Some example_row"
  by (simp add: example_service_order_def db_order_def table_find_def example_row_def)

text \<open>
  C7. Whatever the reconciliation worker delivers, and however the batch ends, an order that is
  on record keeps its fill and never leaves a terminal state: what is known of it only
  advances. Adopting orders from the venue's list does not touch it either.
\<close>

theorem reconciliation_never_regresses:
  assumes "db_order k (sv_db s) = Some r"
  shows "\<exists>r'. db_order k (sv_db (snd (sfold (apply_recon_update w) updates flags s))) = Some r' \<and>
    o_matched_size r \<le> o_matched_size r' \<and> (terminal (o_status r) \<longrightarrow> terminal (o_status r')) \<and>
    (o_price r', o_size r', o_role r', o_slug r', o_account r') =
      (o_price r, o_size r, o_role r, o_slug r, o_account r)"
proof -
  have "advanced k r s" using assms by (auto simp: advanced_def intro: advances_refl)
  then have "advanced k r (snd (sfold (apply_recon_update w) updates flags s))"
    by (rule keepsD [rotated]) (intro keeps_fold keeps_advanced_update)
  then show ?thesis by (auto simp: advanced_def dest: advances_fields)
qed

theorem reconciliation_never_regresses_witness:
  "\<exists>r'. db_order ''0x1'' (sv_db (snd (sfold (apply_recon_update example_answers)
       [\<lparr>ru_orders = [], ru_batch_error = Some ''down'', ru_open_rows = []\<rparr>] (False, False)
       example_service_order))) = Some r' \<and> o_price r' = o_price example_row"
  using reconciliation_never_regresses [OF example_row_found,
      of example_answers "[\<lparr>ru_orders = [], ru_batch_error = Some ''down'', ru_open_rows = []\<rparr>]" "(False, False)"]
  by auto

text \<open>
  The user stream has no such guard: what it delivers replaces the state and the fill of an
  order as they stand, so an old event turns a terminal order back.
\<close>

lemma stream_update_overwrites:
  assumes "db_order (uo_order_id up) (sv_db s) = Some r"
  shows "db_order (uo_order_id up) (sv_db (snd (apply_stream_update w (gating, OrderUpdate up) flags s))) =
    Some (r\<lparr>o_status := uo_status up, o_matched_size := uo_matched_size up, o_raw := uo_raw up,
            o_updated_ts := wall_ts w\<rparr>)"
  using assms by (simp add: apply_stream_update_def db_order_update swhen_def)

subsection \<open>A fresh order is not given up\<close>

lemma reconciled_row_fresh:
  assumes "reconciled_row now row sz payload = Some (status, matched)"
    and "\<not> terminal (o_status row)" "now - o_created_ts row < FRESH_ORDER_GRACE_SECONDS"
  shows "status \<noteq> ''terminal_unknown''"
  using assms by (auto simp: reconciled_row_def Let_def split: prod.splits if_splits)

text \<open>
  An order recorded less than a minute ago and not terminal is not given up: one result of
  the reconciliation worker, whatever it says, does not make the order \<open>terminal_unknown\<close>.
\<close>

theorem fresh_order_grace:
  assumes "db_order k (sv_db s) = Some r" "\<not> terminal (o_status r)"
    and "wall_ts w - o_created_ts r < 60"
  shows "\<exists>r'. db_order k (sv_db (snd (apply_reconciled w result flags s))) = Some r' \<and>
    o_status r' \<noteq> ''terminal_unknown''"
proof -
  have "o_status r \<noteq> ''terminal_unknown''"
    using assms(2) by (auto simp: terminal_def TERMINAL_ORDER_STATES_def)
  with assms show ?thesis
    by (auto simp: apply_reconciled_def Let_def db_order_update FRESH_ORDER_GRACE_SECONDS_def
        dest: reconciled_row_fresh split: option.splits sum.splits prod.splits bool.splits)
qed

theorem fresh_order_grace_witness:
  "\<exists>r'. db_order ''0x1'' (sv_db (snd (apply_reconciled example_answers
      \<lparr>rc_snapshot = \<lparr>sn_order_id = ''0x1'', sn_slug = [], sn_size = 10\<rparr>,
       rc_raw = Some (missing_payload ''0x1''), rc_error = None\<rparr> (False, False) example_service_order))) =
      Some r' \<and> o_status r' \<noteq> ''terminal_unknown''"
  by (rule fresh_order_grace [OF example_row_found])
    (simp_all add: example_row_def order_row_of_def terminal_def TERMINAL_ORDER_STATES_def
      wall_ts_def example_answers_def dtrunc_def)

subsection \<open>Adoption\<close>

definition adopted_row :: "service \<Rightarrow> order_row \<Rightarrow> bool" where
  "adopted_row s r \<longleftrightarrow>
     o_price r = buy_price (plan_of s) \<and> \<not> terminal (o_status r) \<and> o_run_id r = sv_run_id s \<and>
     (\<exists>mr cond. market_for_condition cond (sv_run_id s) (sv_db s) = Some mr \<and> mr_slug mr = o_slug r \<and>
        o_token_id r \<in> {m_up_token_id (mr_market mr), m_down_token_id (mr_market mr)})"

definition adopt_inv :: "service \<Rightarrow> service \<Rightarrow> bool" where
  "adopt_inv s0 s \<longleftrightarrow>
     sv_config s = sv_config s0 \<and> sv_run_id s = sv_run_id s0 \<and> db_markets (sv_db s) = db_markets (sv_db s0) \<and>
     (\<forall>k. db_order k (sv_db s) = db_order k (sv_db s0) \<or>
        db_order k (sv_db s0) = None \<and> (\<exists>r. db_order k (sv_db s) = Some r \<and> adopted_row s0 r))"

lemma adopt_inv_log: "adopt_inv s0 s \<Longrightarrow> adopt_inv s0 (s\<lparr>sv_db := log_event rid level type slug now (sv_db s)\<rparr>)"
  by (simp add: adopt_inv_def) (simp add: log_event_def)

lemma adoptable_row:
  assumes "adopt_inv s0 s" "adoptable s slug p"
  shows "adopted_row s0 (order_row_of (sv_run_id s) slug p now)"
  using assms by (auto simp: adopt_inv_def adoptable_def adopted_row_def order_row_of_def
      market_for_condition_def)

lemma adopt_inv_add:
  assumes "adopt_inv s0 s" "adoptable s slug p" "add_order (sv_run_id s) slug p now (sv_db s) = Return db"
  shows "adopt_inv s0 (s\<lparr>sv_db := db\<rparr>)"
proof -
  have db: "db = put_order (order_row_of (sv_run_id s) slug p now) (sv_db s)"
    using assms(3) by (simp add: add_order_put split: if_splits)
  have "db_order (po_order_id p) (sv_db s0) = None"
    using assms(1,2) unfolding adopt_inv_def adoptable_def by (metis option.distinct(1))
  moreover have "db_order k db = (if k = po_order_id p
      then Some (order_row_of (sv_run_id s) slug p now) else db_order k (sv_db s))" for k
    by (simp add: db order_store.get_put)
  moreover have "db_markets db = db_markets (sv_db s)" by (simp add: db put_order_def)
  ultimately show ?thesis
    using assms(1) adoptable_row [OF assms(1,2), of now]
    by (simp add: adopt_inv_def)
qed

lemma keeps_adopt_inv: "keeps (adopt_inv s0) (adopt_one w raw)"
proof (rule keepsI)
  fix s assume inv: "adopt_inv s0 s"
  then show "adopt_inv s0 (snd (adopt_one w raw s))"
    using adopt_one_writes [of w raw s]
  proof (elim disjE exE conjE)
    fix level type slug p db
    assume "adoptable s slug p" "add_order (sv_run_id s) slug p (wall_ts w) (sv_db s) = Return db"
      and w: "snd (adopt_one w raw s) =
        s\<lparr>sv_db := log_event (Some (sv_run_id s)) level type (Some slug) (wall_ts w) db\<rparr>"
    with inv have "adopt_inv s0 (s\<lparr>sv_db := db\<rparr>)" by (intro adopt_inv_add)
    from adopt_inv_log [OF this] show ?thesis unfolding w by simp
  qed (simp_all add: adopt_inv_log)
qed

text \<open>
  C30. Orders found in the venue's list are taken over only when they are ours: the rows on
  record stay as they are, and every new row has the price we sign at, is not terminal, and is
  for one of the two tokens of a market of this run.
\<close>

theorem adoption_guarded:
  "let db = sv_db s; db' = sv_db (snd (adopt_unknown_open_orders w rows s)) in
   case db_order k db of
     Some r \<Rightarrow> db_order k db' = Some r
   | None \<Rightarrow> (case db_order k db' of
       None \<Rightarrow> True
     | Some r \<Rightarrow> o_price r = buy_price (plan_of s) \<and> \<not> terminal (o_status r) \<and> o_run_id r = sv_run_id s \<and>
         (\<exists>mr cond. market_for_condition cond (sv_run_id s) db = Some mr \<and> mr_slug mr = o_slug r \<and>
            o_token_id r \<in> {m_up_token_id (mr_market mr), m_down_token_id (mr_market mr)}))"
proof -
  have "adopt_inv s s" by (simp add: adopt_inv_def)
  moreover have "keeps (adopt_inv s) (adopt_unknown_open_orders w rows)"
    unfolding adopt_unknown_open_orders_def
    by (intro keeps_intros keeps_adopt_inv) (auto simp: keeps_def event_run adopt_inv_log)
  ultimately have "adopt_inv s (snd (adopt_unknown_open_orders w rows s))" by (rule keepsD [rotated])
  then show ?thesis
    unfolding adopt_inv_def Let_def adopted_row_def
    by (elim conjE allE [of _ k]) (auto split: option.split)
qed

subsection \<open>The deadline sweep\<close>

lemma keeps_db_cancel_rows: "keeps (\<lambda>s. sv_db s = db \<and> sv_config s = c) (cancel_rows w rows)"
  by (auto simp: cancel_rows_def cancel_account_def Let_def send_def intro!: keeps_intros keeps_modify
      split: backend.splits sum.splits prod.splits)

text \<open>An order that is open on a market whose end is at or before the cutoff.\<close>

definition due_row :: "rat \<Rightarrow> bot_db \<Rightarrow> order_row \<Rightarrow> bool" where
  "due_row cutoff db r \<longleftrightarrow>
     o_status r \<in> {''open'', ''live'', ''delayed'', ''unmatched'', ''simulated''} \<and>
     (case table_find mr_slug (o_slug r) (db_markets db) of
        None \<Rightarrow> False | Some mr \<Rightarrow> of_int (m_end_ts (mr_market mr)) \<le> cutoff)"

text \<open>
  The account an order is cancelled at (the one account has no name), whether it is a member
  of the fleet, and what the venue of a request's account answers to it.
\<close>

definition owner_of :: "service \<Rightarrow> order_row \<Rightarrow> string" where
  "owner_of s r =
     (case sv_backend s of
        Many fl \<Rightarrow> (if o_account r = [] then fm_name (primary fl) else o_account r) | _ \<Rightarrow> [])"

definition unknown_owner :: "service \<Rightarrow> order_row \<Rightarrow> bool" where
  "unknown_owner s r \<longleftrightarrow>
     (case sv_backend s of Many fl \<Rightarrow> owner_of s r \<notin> set (fleet_names fl) | _ \<Rightarrow> False)"

definition cancel_answer :: "world \<Rightarrow> service \<Rightarrow> sent \<Rightarrow> exn + string list \<times> string list" where
  "cancel_answer w s x =
     (case x of
        CancelSent account ids \<Rightarrow>
          rbind (ve_cancel (case sv_backend s of
              Many _ \<Rightarrow> pw_venues (sw_fleet w) account | _ \<Rightarrow> sw_venue w) ids) cancel_outcome
      | _ \<Rightarrow> Return ([], []))"

text \<open>A cancel that names some of the given rows, at the account that owns them, and nothing else.\<close>

definition names_rows :: "service \<Rightarrow> order_row list \<Rightarrow> sent \<Rightarrow> bool" where
  "names_rows s rows x \<longleftrightarrow>
     (case x of
        CancelSent account ids \<Rightarrow> ids \<noteq> [] \<and>
          list_all (\<lambda>i. list_ex (\<lambda>r. o_order_id r = i \<and> owner_of s r = account) rows) ids
      | _ \<Rightarrow> False)"

definition cancels_row :: "service \<Rightarrow> order_row \<Rightarrow> sent \<Rightarrow> bool" where
  "cancels_row s r x \<longleftrightarrow>
     (case x of CancelSent account ids \<Rightarrow> account = owner_of s r \<and> o_order_id r \<in> set ids | _ \<Rightarrow> False)"

definition answered_status :: "string \<Rightarrow> (string list \<times> string list) list \<Rightarrow> string" where
  "answered_status k answers =
     (if list_ex (\<lambda>answer. k \<in> set (snd answer)) answers then ''terminal_unknown''
      else if list_ex (\<lambda>answer. k \<in> set (fst answer)) answers then ''cancelled''
      else ''cancel_requested'')"

lemma group_rows_get:
  "dict_get (group_rows p rows) a =
     (let ids = map o_order_id (filter (\<lambda>r. (if o_account r = [] then p else o_account r) = a) rows) in
      if ids = [] then None else Some ids)"
proof (induction rows rule: rev_induct)
  case Nil
  then show ?case by (simp add: group_rows_def)
next
  case (snoc r rows)
  then show ?case
    by (cases "(if o_account r = [] then p else o_account r) = a")
      (simp_all add: group_rows_def Let_def split: if_splits)
qed

lemma group_rows_distinct: "distinct (map fst (group_rows p rows))"
  by (induction rows rule: rev_induct) (simp_all add: group_rows_def Let_def)

lemma group_rows_in:
  assumes "(a, ids) \<in> set (group_rows p rows)"
  shows "ids = map o_order_id (filter (\<lambda>r. (if o_account r = [] then p else o_account r) = a) rows)" "ids \<noteq> []"
proof -
  have some: "(let ids = g in if ids = [] then None else Some ids) = Some i \<Longrightarrow> i = g \<and> i \<noteq> []"
    for g i :: "string list"
    by (simp add: Let_def split: if_splits)
  from some [OF dict_get_in [OF group_rows_distinct assms, unfolded group_rows_get]]
  show "ids = map o_order_id (filter (\<lambda>r. (if o_account r = [] then p else o_account r) = a) rows)" "ids \<noteq> []"
    by blast+
qed

definition group_request :: "string \<times> string list \<Rightarrow> sent" where
  "group_request g = CancelSent (fst g) (snd g)"

text \<open>The loop over the accounts sends one cancel each, until one fails.\<close>

lemma cancel_accounts_run:
  assumes "sv_backend s = Many fl" "\<forall>g \<in> set groups. snd g \<noteq> []"
  shows "\<exists>sent fl'. snd (sfold (cancel_account w) groups acc s) =
        s\<lparr>sv_sent := sv_sent s @ sent, sv_backend := Many fl'\<rparr> \<and>
      set sent \<subseteq> group_request ` set groups \<and>
      (case fst (sfold (cancel_account w) groups acc s) of
         Inl e \<Rightarrow> (\<exists>e. rtraverse (cancel_answer w s) sent = Raise e) \<or>
           (\<exists>g \<in> set groups. fst g \<notin> set (fleet_names fl))
       | Inr (c, t) \<Rightarrow> sent = map group_request groups \<and>
           (\<exists>answers. rtraverse (cancel_answer w s) sent = Return answers \<and>
              c = fst acc @ concat (map fst answers) \<and> t = snd acc @ concat (map snd answers)))"
  using assms
proof (induction groups arbitrary: acc s fl)
  case Nil
  have "s = s\<lparr>sv_sent := sv_sent s @ [], sv_backend := Many fl\<rparr>" using Nil by (cases s) simp
  then show ?case by (auto intro!: exI [of _ "[]"] exI [of _ fl] split: prod.split)
next
  case (Cons g groups)
  obtain a ids where g: "g = (a, ids)" by force
  obtain c0 t0 where acc: "acc = (c0, t0)" by force
  have ids: "ids \<noteq> []" using Cons.prems(2) g by auto
  show ?case
  proof (cases "fleet_find fl a")
    case (Inl e)
    have un: "a \<notin> set (fleet_names fl)"
      using Inl by (auto simp: fleet_find_def fleet_names_def find_None_iff split: option.splits)
    have "s = s\<lparr>sv_sent := sv_sent s @ [], sv_backend := Many fl\<rparr>" using Cons.prems(1) by (cases s) simp
    then show ?thesis using un
      by (auto simp: g acc cancel_account_def sbind_def sget_def sraise_def Cons.prems(1) Inl
          intro!: exI [of _ "[]"] exI [of _ fl])
  next
    case (Inr mb)
    obtain reply ex where c: "cancel_orders (pw_venues (sw_fleet w) a) ids (fm_exchange mb) = (reply, ex)"
      by force
    then have reply: "reply = ve_cancel (pw_venues (sw_fleet w) a) ids"
      using ids by (simp add: cancel_orders_def client_cancel_def)
    let ?s = "s\<lparr>sv_sent := sv_sent s @ [CancelSent a ids], sv_backend := Many (set_exchange a ex fl)\<rparr>"
    have same: "cancel_answer w ?s = cancel_answer w s"
      using Cons.prems(1) by (simp add: cancel_answer_def fun_eq_iff split: sent.split)
    have ans: "cancel_answer w s (CancelSent a ids) = rbind reply cancel_outcome"
      using Cons.prems(1) by (simp add: cancel_answer_def reply)
    show ?thesis
    proof (cases "rbind reply cancel_outcome")
      case (Inl e)
      then show ?thesis using ans
        by (auto simp: g acc cancel_account_def sbind_def sget_def slift_def sthen_def send_def smodify_def
            Cons.prems(1) \<open>fleet_find fl a = Inr mb\<close> c group_request_def
            intro!: exI [of _ "[CancelSent a ids]"] exI [of _ "set_exchange a ex fl"])
    next
      case (Inr ct)
      obtain c1 t1 where ct: "ct = (c1, t1)" by force
      have step: "sfold (cancel_account w) (g # groups) acc s = sfold (cancel_account w) groups (c0 @ c1, t0 @ t1) ?s"
        using Inr
        by (simp add: g acc ct cancel_account_def sbind_def sget_def slift_def sthen_def send_def smodify_def
            Cons.prems(1) \<open>fleet_find fl a = Inr mb\<close> c sreturn_def)
      have be: "sv_backend ?s = Many (set_exchange a ex fl)" by simp
      from Cons.IH [OF be, of "(c0 @ c1, t0 @ t1)", unfolded same] Cons.prems(2)
      obtain sent fl' where ih: "snd (sfold (cancel_account w) groups (c0 @ c1, t0 @ t1) ?s) =
            ?s\<lparr>sv_sent := sv_sent ?s @ sent, sv_backend := Many fl'\<rparr>"
          "set sent \<subseteq> group_request ` set groups"
        and out: "(case fst (sfold (cancel_account w) groups (c0 @ c1, t0 @ t1) ?s) of
           Inl e \<Rightarrow> (\<exists>e. rtraverse (cancel_answer w s) sent = Raise e) \<or>
             (\<exists>g \<in> set groups. fst g \<notin> set (fleet_names (set_exchange a ex fl)))
         | Inr (c, t) \<Rightarrow> sent = map group_request groups \<and>
             (\<exists>answers. rtraverse (cancel_answer w s) sent = Return answers \<and>
                c = fst (c0 @ c1, t0 @ t1) @ concat (map fst answers) \<and>
                t = snd (c0 @ c1, t0 @ t1) @ concat (map snd answers)))"
        by auto
      have "rtraverse (cancel_answer w s) (CancelSent a ids # sent) =
          rbind (rtraverse (cancel_answer w s) sent) (\<lambda>ys. Inr (ct # ys))"
        using ans Inr by simp
      with ih out show ?thesis unfolding step
        by (intro exI [of _ "CancelSent a ids # sent"] exI [of _ fl'])
          (auto simp: g acc ct group_request_def split: sum.splits)
    qed
  qed
qed

text \<open>Cancelling rows: every request names some of them, and all are named unless one fails.\<close>

lemma cancel_rows_run:
  assumes "has_exchange s" "rows \<noteq> []"
  obtains sent b where
    "snd (cancel_rows w rows s) = s\<lparr>sv_sent := sv_sent s @ sent, sv_backend := b\<rparr>"
    "list_all (names_rows s rows) sent"
    "case fst (cancel_rows w rows s) of
       Inl e \<Rightarrow> (\<exists>e. rtraverse (cancel_answer w s) sent = Raise e) \<or> list_ex (unknown_owner s) rows
     | Inr (c, t) \<Rightarrow> list_all (\<lambda>r. list_ex (cancels_row s r) sent) rows \<and>
         (\<exists>answers. rtraverse (cancel_answer w s) sent = Return answers \<and>
            c = concat (map fst answers) \<and> t = concat (map snd answers))"
proof (cases "sv_backend s")
  case DryRun
  then show ?thesis using assms by (simp add: has_exchange_def)
next
  case (Solo ex)
  let ?ids = "map o_order_id rows"
  have run: "cancel_rows w rows s = (rbind (ve_cancel (sw_venue w) ?ids) cancel_outcome,
      s\<lparr>sv_sent := sv_sent s @ [CancelSent [] ?ids],
        sv_backend := Solo (snd (cancel_orders (sw_venue w) ?ids ex))\<rparr>)"
    using assms(2) by (simp add: cancel_rows_def Solo cancel_orders_def client_cancel_def slift_def Let_def)
  have names: "names_rows s rows (CancelSent [] ?ids)"
    using assms(2) by (auto simp: names_rows_def owner_of_def Solo list_all_iff list_ex_iff)
  have ans: "cancel_answer w s (CancelSent [] ?ids) = rbind (ve_cancel (sw_venue w) ?ids) cancel_outcome"
    by (simp add: cancel_answer_def Solo)
  have all: "list_all (\<lambda>r. cancels_row s r (CancelSent [] ?ids)) rows"
    by (simp add: cancels_row_def owner_of_def Solo list_all_iff)
  show ?thesis
    by (rule that [of _ "[CancelSent [] ?ids]"])
      (use names ans all in \<open>simp_all add: run split: sum.split prod.split\<close>)
next
  case (Many fl)
  let ?groups = "group_rows (fm_name (primary fl)) rows"
  have own: "owner_of s r = (if o_account r = [] then fm_name (primary fl) else o_account r)" for r
    by (simp add: owner_of_def Many)
  have grp: "ids = map o_order_id (filter (\<lambda>r. owner_of s r = a) rows)" "ids \<noteq> []"
    if "(a, ids) \<in> set ?groups" for a ids
    using group_rows_in [OF that] unfolding own by blast+
  have run: "cancel_rows w rows s = sfold (cancel_account w) ?groups ([], []) s"
    by (simp add: cancel_rows_def Many)
  have "\<forall>g \<in> set ?groups. snd g \<noteq> []" using grp(2) by fastforce
  from cancel_accounts_run [OF Many this, of w "([], [])"]
  obtain sent fl' where s': "snd (cancel_rows w rows s) = s\<lparr>sv_sent := sv_sent s @ sent, sv_backend := Many fl'\<rparr>"
    and sub: "set sent \<subseteq> group_request ` set ?groups"
    and res: "case fst (cancel_rows w rows s) of
         Inl e \<Rightarrow> (\<exists>e. rtraverse (cancel_answer w s) sent = Raise e) \<or>
           (\<exists>g \<in> set ?groups. fst g \<notin> set (fleet_names fl))
       | Inr (c, t) \<Rightarrow> sent = map group_request ?groups \<and>
           (\<exists>answers. rtraverse (cancel_answer w s) sent = Return answers \<and>
              c = concat (map fst answers) \<and> t = concat (map snd answers))"
    unfolding run fst_conv snd_conv append_Nil by blast
  have "names_rows s rows x" if x: "x \<in> set sent" for x
  proof -
    obtain g where "x = group_request g" "g \<in> set ?groups" using sub x by blast
    then obtain a ids where g: "x = CancelSent a ids" "(a, ids) \<in> set ?groups"
      by (cases g) (simp add: group_request_def)
    from grp(2) [OF g(2)] show ?thesis unfolding g(1) grp(1) [OF g(2)]
      by (auto simp: names_rows_def list_all_iff list_ex_iff)
  qed
  then have names: "list_all (names_rows s rows) sent" by (simp add: list_all_iff)
  have named: "list_ex (cancels_row s r) (map group_request ?groups)" if "r \<in> set rows" for r
  proof -
    let ?ids = "map o_order_id (filter (\<lambda>x. owner_of s x = owner_of s r) rows)"
    have "r \<in> set (filter (\<lambda>x. owner_of s x = owner_of s r) rows)" using that by simp
    then have "dict_get ?groups (owner_of s r) = Some ?ids" "o_order_id r \<in> set ?ids"
      unfolding group_rows_get own [symmetric] Let_def by (auto simp: filter_empty_conv)
    then have "(owner_of s r, ?ids) \<in> set ?groups" "o_order_id r \<in> set ?ids" by (auto dest: dict_get_SomeD)
    then show ?thesis by (force simp: list_ex_iff cancels_row_def group_request_def)
  qed
  have unknown: "list_ex (unknown_owner s) rows" if g: "(a, ids) \<in> set ?groups" "a \<notin> set (fleet_names fl)" for a ids
  proof -
    obtain r where "r \<in> set rows" "owner_of s r = a"
      using grp [OF g(1)] by (auto simp: filter_empty_conv)
    with g(2) show ?thesis by (auto simp: list_ex_iff unknown_owner_def Many)
  qed
  show ?thesis
    by (rule that [OF s' names])
      (use res named unknown in \<open>fastforce simp: list_all_iff split: sum.splits\<close>)
qed

lemma names_rows_set: "set rows = set rows' \<Longrightarrow> names_rows s rows = names_rows s rows'"
  by (simp only: fun_eq_iff names_rows_def list_ex_iff simp_thms)

text \<open>Who owns a row and what a venue answers do not depend on the database.\<close>

lemma cancel_frame:
  "owner_of (s\<lparr>sv_db := d\<rparr>) = owner_of s" "unknown_owner (s\<lparr>sv_db := d\<rparr>) = unknown_owner s"
  "names_rows (s\<lparr>sv_db := d\<rparr>) = names_rows s" "cancels_row (s\<lparr>sv_db := d\<rparr>) = cancels_row s"
  "cancel_answer w (s\<lparr>sv_db := d\<rparr>) = cancel_answer w s" "has_exchange (s\<lparr>sv_db := d\<rparr>) = has_exchange s"
proof -
  show own: "owner_of (s\<lparr>sv_db := d\<rparr>) = owner_of s"
    by (simp add: fun_eq_iff owner_of_def cong: backend.case_cong)
  show "unknown_owner (s\<lparr>sv_db := d\<rparr>) = unknown_owner s" "names_rows (s\<lparr>sv_db := d\<rparr>) = names_rows s"
    "cancels_row (s\<lparr>sv_db := d\<rparr>) = cancels_row s"
    unfolding fun_eq_iff unknown_owner_def names_rows_def cancels_row_def own by simp_all
  show "cancel_answer w (s\<lparr>sv_db := d\<rparr>) = cancel_answer w s"
    by (simp add: fun_eq_iff cancel_answer_def split: sent.split)
qed (simp add: has_exchange_def)

text \<open>The query of the sweep selects the due rows.\<close>

lemma due_open_orders_rows:
  "set (map fst (due_open_orders cutoff db)) = {r \<in> set (db_orders db). due_row cutoff db r}"
  by (force simp: due_open_orders_def due_row_def open_states_def in_map_filter join_market_def
      split: option.splits)

lemma marked_answers:
  assumes "db_order k db = Some r" "o_status r = ''cancel_requested''"
  shows "\<exists>r'. db_order k (mark_orders (concat (map snd answers)) ''terminal_unknown'' now
       (mark_orders (concat (map fst answers)) ''cancelled'' now db)) = Some r' \<and>
     o_status r' = answered_status k answers"
proof -
  have "k \<in> set (concat (map f answers)) \<longleftrightarrow> list_ex (\<lambda>x. k \<in> set (f x)) answers"
    for f :: "string list \<times> string list \<Rightarrow> string list"
    by (auto simp: list_ex_iff)
  then show ?thesis using assms
    by (simp add: db_order_mark answered_status_def del: set_concat)
qed

text \<open>What the sweep does after its marks, by how the cancel of the rows ends.\<close>

definition finish_sweep :: "world \<Rightarrow> order_row list \<Rightarrow> unit svc" where
  "finish_sweep w rows =
     sbind (stry (sbind (cancel_rows w rows) (\<lambda>r. sreturn (Some r)))
            (\<lambda>e. sthen (event w ''ERROR'' ''deadline_cancel_failed'' None) (sreturn None)))
        (\<lambda>result. case result of
           None \<Rightarrow> sreturn ()
         | Some (canceled_ids, terminal_unknown_ids) \<Rightarrow>
             sthen (db_do (mark_orders canceled_ids ''cancelled'' (wall_ts w)))
             (sthen (db_do (mark_orders terminal_unknown_ids ''terminal_unknown'' (wall_ts w)))
               (event w ''INFO'' ''deadline_cancel'' None)))"

lemma finish_sweep_failed:
  "cancel_rows w rows s = (Inl e, s') \<Longrightarrow> finish_sweep w rows s =
     (Return (), s'\<lparr>sv_db := log_event (Some (sv_run_id s')) ''ERROR'' ''deadline_cancel_failed'' None
        (wall_ts w) (sv_db s')\<rparr>)"
  by (simp add: finish_sweep_def sbind_def stry_def)

lemma finish_sweep_answered:
  "cancel_rows w rows s = (Inr (c, t), s') \<Longrightarrow> finish_sweep w rows s =
     (Return (), s'\<lparr>sv_db := log_event (Some (sv_run_id s')) ''INFO'' ''deadline_cancel'' None (wall_ts w)
        (mark_orders t ''terminal_unknown'' (wall_ts w) (mark_orders c ''cancelled'' (wall_ts w) (sv_db s')))\<rparr>)"
  by (simp add: finish_sweep_def sbind_def stry_def event_run)

text \<open>
  C9. The deadline sweep deals with every order that is open on a market whose end is at most
  the margin away. Against a venue it is sent for cancellation to the account that owns it: every
  request names due orders of its account only, and where all of them are answered one names
  this order, which is then known to be gone or cancelled exactly where an answer says so of it,
  and is marked for reconciliation otherwise. Where a request fails, or an order belongs to an account that is
  not in the fleet, the order is marked and the failure is logged. In a dry run the order is
  closed and nothing is sent. The sweep itself never fails.
\<close>

theorem deadline_sweep_complete:
  assumes "sc_cancel_before_end_seconds (sv_config s) \<noteq> 0" "db_order k (sv_db s) = Some r"
    and "due_row (sw_wall w + of_int (sc_cancel_before_end_seconds (sv_config s))) (sv_db s) r"
  shows "let s' = snd (cancel_due_orders w s);
      due = filter (due_row (sw_wall w + of_int (sc_cancel_before_end_seconds (sv_config s))) (sv_db s))
        (db_orders (sv_db s)) in
    fst (cancel_due_orders w s) = Return () \<and>
    (\<exists>sent r'. sv_sent s' = sv_sent s @ sent \<and> db_order k (sv_db s') = Some r' \<and>
       (if \<not> has_exchange s then sent = [] \<and> o_status r' = ''simulated_closed''
        else list_all (names_rows s due) sent \<and>
          ((\<exists>answers. rtraverse (cancel_answer w s) sent = Return answers \<and>
              list_ex (cancels_row s r) sent \<and> o_status r' = answered_status k answers) \<or>
           (o_status r' = ''cancel_requested'' \<and>
              (ev_level (last (db_events (sv_db s'))), ev_type (last (db_events (sv_db s')))) =
                (''ERROR'', ''deadline_cancel_failed'') \<and>
              ((\<exists>e. rtraverse (cancel_answer w s) sent = Raise e) \<or> list_ex (unknown_owner s) due)))))"
proof -
  let ?cutoff = "sw_wall w + of_int (sc_cancel_before_end_seconds (sv_config s))"
  let ?rows = "map fst (due_open_orders ?cutoff (sv_db s))"
  let ?due = "filter (due_row ?cutoff (sv_db s)) (db_orders (sv_db s))"
  have same: "set ?rows = set ?due" using due_open_orders_rows by auto
  have key: "o_order_id r = k" "r \<in> set ?due"
    using assms(2,3) by (auto simp: db_order_def table_find_def find_Some_iff)
  then have r: "r \<in> set ?rows" "?rows \<noteq> []" "k \<in> set (map o_order_id ?rows)"
    unfolding set_map [of o_order_id] using same by auto
  show ?thesis
  proof (cases "has_exchange s")
    case False
    have "cancel_due_orders w s =
        (Return (), s\<lparr>sv_db := mark_orders (map o_order_id ?rows) ''simulated_closed'' (wall_ts w) (sv_db s)\<rparr>)"
      using False assms(1) r(2) by (simp add: cancel_due_orders_def Let_def db_do_def smodify_def)
    then show ?thesis using False r(3) assms(2) by (simp add: db_order_mark)
  next
    case True
    let ?s = "s\<lparr>sv_db := mark_orders (map o_order_id ?rows) ''cancel_requested'' (wall_ts w) (sv_db s)\<rparr>"
    have step: "cancel_due_orders w s = finish_sweep w ?rows ?s"
      using True assms(1) r(2) by (simp add: cancel_due_orders_def finish_sweep_def Let_def)
    obtain sent b where run: "snd (cancel_rows w ?rows ?s) = ?s\<lparr>sv_sent := sv_sent ?s @ sent, sv_backend := b\<rparr>"
      and names: "list_all (names_rows s ?rows) sent"
      and res: "case fst (cancel_rows w ?rows ?s) of
         Inl e \<Rightarrow> (\<exists>e. rtraverse (cancel_answer w s) sent = Raise e) \<or> list_ex (unknown_owner s) ?rows
       | Inr (c, t) \<Rightarrow> list_all (\<lambda>r. list_ex (cancels_row s r) sent) ?rows \<and>
           (\<exists>answers. rtraverse (cancel_answer w s) sent = Return answers \<and>
              c = concat (map fst answers) \<and> t = concat (map snd answers))"
      by (rule cancel_rows_run [of ?s ?rows w, unfolded cancel_frame]) (use True r(2) in auto)
    have names_due: "list_all (names_rows s ?due) sent"
      using names unfolding names_rows_set [OF same] .
    have marked: "db_order k (sv_db ?s) = Some (r\<lparr>o_status := ''cancel_requested'', o_updated_ts := wall_ts w\<rparr>)"
      using r(3) assms(2) by (simp add: db_order_mark)
    show ?thesis
    proof (cases "fst (cancel_rows w ?rows ?s)")
      case (Inl e)
      then have c: "cancel_rows w ?rows ?s = (Inl e, ?s\<lparr>sv_sent := sv_sent s @ sent, sv_backend := b\<rparr>)"
        using run by (simp add: prod_eq_iff)
      have "cancel_due_orders w s = (Return (), ?s\<lparr>sv_sent := sv_sent s @ sent, sv_backend := b,
          sv_db := log_event (Some (sv_run_id s)) ''ERROR'' ''deadline_cancel_failed'' None (wall_ts w) (sv_db ?s)\<rparr>)"
        unfolding step finish_sweep_failed [OF c] by simp
      then show ?thesis using True names_due marked res same Inl
        by (simp add: log_event_def list_ex_iff)
    next
      case (Inr ct)
      obtain ci ti where ct: "ct = (ci, ti)" by force
      with Inr res obtain answers where answers: "rtraverse (cancel_answer w s) sent = Return answers"
        "ci = concat (map fst answers)" "ti = concat (map snd answers)"
        and sent: "list_all (\<lambda>r. list_ex (cancels_row s r) sent) ?rows" by auto
      let ?db = "mark_orders ti ''terminal_unknown'' (wall_ts w) (mark_orders ci ''cancelled'' (wall_ts w) (sv_db ?s))"
      have c: "cancel_rows w ?rows ?s = (Inr (ci, ti), ?s\<lparr>sv_sent := sv_sent s @ sent, sv_backend := b\<rparr>)"
        using run Inr ct by (simp add: prod_eq_iff)
      have run': "cancel_due_orders w s = (Return (), ?s\<lparr>sv_sent := sv_sent s @ sent, sv_backend := b,
          sv_db := log_event (Some (sv_run_id s)) ''INFO'' ''deadline_cancel'' None (wall_ts w) ?db\<rparr>)"
        unfolding step finish_sweep_answered [OF c] by simp
      from marked_answers [OF marked]
      obtain r' where r': "db_order k ?db = Some r'" "o_status r' = answered_status k answers"
        unfolding answers(2,3) by auto
      have "list_ex (cancels_row s r) sent" using sent r(1) by (auto simp: list_all_iff)
      then show ?thesis unfolding run' Let_def
        using True names_due answers(1) r' by (intro conjI exI [of _ sent] exI [of _ r']) auto
    qed
  qed
qed

definition cancelling_venue :: venue where
  "cancelling_venue = quiet_venue\<lparr>ve_cancel := (\<lambda>ids. Return (JObj [(''canceled'', JArr (map JStr ids))]))\<rparr>"

definition last_minute :: world where
  "last_minute = example_answers\<lparr>sw_wall := of_int (m_end_ts example_mkt) - 30, sw_venue := cancelling_venue\<rparr>"

theorem deadline_sweep_complete_witness:
  "\<exists>r'. list_ex (cancels_row example_service_order example_row)
       (sv_sent (snd (cancel_due_orders last_minute example_service_order))) \<and>
     db_order ''0x1'' (sv_db (snd (cancel_due_orders last_minute example_service_order))) = Some r' \<and>
     o_status r' = ''cancelled''"
proof -
  let ?s = "example_service_order" and ?w = last_minute
  let ?g = "\<lambda>x. case x of CancelSent a ids \<Rightarrow> (ids, []) | _ \<Rightarrow> ([], [])"
  have s: "sv_config ?s = example_config" "sv_sent ?s = []" "sv_backend ?s = Solo exchange_init"
    by (simp_all add: example_service_order_def example_service_def)
  have due: "due_row (sw_wall ?w + of_int (sc_cancel_before_end_seconds (sv_config ?s))) (sv_db ?s) example_row"
    by (simp add: due_row_def last_minute_def example_config_def example_row_def order_row_of_def
        example_order_def example_service_order_def example_service_def table_find_def example_db_rows)
  have ans: "cancel_answer ?w ?s x = Return (?g x)" for x
    by (cases x) (simp_all add: cancel_answer_def s last_minute_def cancelling_venue_def cancel_outcome_def
        pget_list_def pget_def py_iter_def comp_def)
  have all: "rtraverse (cancel_answer ?w ?s) sent = Return (map ?g sent)" for sent
    by (induction sent) (simp_all add: ans)
  have unknown: "\<not> list_ex (unknown_owner ?s) rows" for rows
    by (simp add: unknown_owner_def s list_ex_iff)
  have id: "o_order_id example_row = ''0x1''"
    by (simp add: example_row_def order_row_of_def example_order_def)
  have said: "answered_status ''0x1'' (map ?g sent) = ''cancelled''" if a: "list_ex (cancels_row ?s example_row) sent" for sent
  proof -
    from a obtain x where x: "x \<in> set sent" "cancels_row ?s example_row x" by (auto simp: list_ex_iff)
    from x(2) have "''0x1'' \<in> set (fst (?g x))" by (simp add: cancels_row_def id split: sent.splits)
    with x(1) have "list_ex (\<lambda>answer. ''0x1'' \<in> set (fst answer)) (map ?g sent)" by (auto simp: list_ex_iff)
    moreover have "\<not> list_ex (\<lambda>answer. ''0x1'' \<in> set (snd answer)) (map ?g sent)"
      by (simp add: list_ex_iff split: sent.split)
    ultimately show ?thesis by (simp add: answered_status_def)
  qed
  have margin: "sc_cancel_before_end_seconds (sv_config ?s) \<noteq> 0" "has_exchange ?s"
    by (simp_all add: s example_config_def has_exchange_def)
  from deadline_sweep_complete [OF margin(1) example_row_found due, unfolded Let_def s(2) append_Nil]
  obtain sent r' where out: "sv_sent (snd (cancel_due_orders ?w ?s)) = sent"
    "db_order ''0x1'' (sv_db (snd (cancel_due_orders ?w ?s))) = Some r'"
    "list_ex (cancels_row ?s example_row) sent" "o_status r' = answered_status ''0x1'' (map ?g sent)"
    using margin(2) by (auto simp: all unknown)
  with said show ?thesis by simp
qed

subsection \<open>Exits stay within the shares held\<close>

text \<open>The exits the venue accepted among the requests, and their sizes.\<close>

definition accepted_sizes :: "sent list \<Rightarrow> rat list" where
  "accepted_sizes xs = List.map_filter (\<lambda>x. case x of ExitAccepted _ _ _ sz \<Rightarrow> Some sz | _ \<Rightarrow> None) xs"

lemma accepted_sizes_simps [simp]:
  "accepted_sizes [] = []"
  "accepted_sizes (ExitSent slug out price sz # xs) = accepted_sizes xs"
  "accepted_sizes (ExitAccepted slug out price sz # xs) = sz # accepted_sizes xs"
  "accepted_sizes (xs @ ys) = accepted_sizes xs @ accepted_sizes ys"
  by (simp_all add: accepted_sizes_def map_filter_simps List.map_filter_def)

lemma place_exit_sizes:
  "place_exit v m out token price sz = Return p \<Longrightarrow> po_price p = price \<and> po_size p = sz"
  by (auto simp: place_exit_def rbind_Inr_iff exit_order_def split: if_splits)

lemma reconcile_exit_sizes:
  assumes "reconcile_ambiguous_exit v m out token price sz = Return (Some p)"
  shows "po_price p = price \<and> po_size p = sz"
proof -
  obtain raws oos where oos: "(case filter (\<lambda>oo. oo_token_id oo = token \<and> is_ours ''SELL'' price sz oo) oos of
         [oo] \<Rightarrow> rbind (order_ref v (oo_raw oo)) (\<lambda>ref.
            Return (if truthy ref then Some (exit_order (py_str ref) out token price sz (oo_raw oo)) else None))
       | _ \<Rightarrow> Return None) = Return (Some p)"
    using assms unfolding reconcile_ambiguous_exit_def rbind_Inr_iff by blast
  then show ?thesis
    by (auto simp: rbind_Inr_iff exit_order_def split: list.split_asm if_split_asm)
qed

lemma record_exit_sent: "sv_sent (snd (record_exit w row p s)) =
    sv_sent s @ [ExitAccepted (o_slug row) (o_outcome row) (po_price p) (po_size p)] \<and>
    fst (record_exit w row p s) \<noteq> Return False"
  by (simp add: record_exit_def split: sum.split)

lemma record_failed_exit_sent: "sv_sent (snd (record_failed_exit w row price sz error s)) = sv_sent s \<and>
    fst (record_failed_exit w row price sz error s) \<noteq> Return True"
  by (simp add: record_failed_exit_def split: sum.split)

lemma place_exit_rung_sent:
  assumes "place_exit_rung w t price sz s = (r, s')"
  shows "\<exists>acc. sv_sent s' = sv_sent s @ ExitSent (o_slug (fst t)) (o_outcome (fst t)) price sz # acc \<and>
    (acc = [] \<and> r \<noteq> Return True \<or>
     acc = [ExitAccepted (o_slug (fst t)) (o_outcome (fst t)) price sz] \<and> r \<noteq> Return False)"
proof -
  let ?sent = "sv_sent s @ [ExitSent (o_slug (fst t)) (o_outcome (fst t)) price sz]"
  let ?s = "s\<lparr>sv_sent := ?sent\<rparr>"
  obtain row m where t: "t = (row, m)" by (cases t)
  let ?v = "venue_of w ?s" and ?m = "exit_market t"
  let ?place = "place_exit ?v ?m (o_outcome row) (o_token_id row) price sz"
  let ?look = "reconcile_ambiguous_exit ?v ?m (o_outcome row) (o_token_id row) price sz"
  have run: "place_exit_rung w t price sz s =
     (case ?place of Inr p \<Rightarrow> record_exit w row p ?s
      | Inl e \<Rightarrow> (case ?look of
          Inr (Some p) \<Rightarrow> record_exit w row p ?s
        | Inr None \<Rightarrow> record_failed_exit w row price sz (exn_text e) ?s
        | Inl e' \<Rightarrow> record_failed_exit w row price sz
            (''submission='' @ exn_text e @ ''; reconciliation='' @ exn_text e') ?s))"
    by (simp add: place_exit_rung_def t Let_def split: sum.split option.split)
  consider p where "place_exit_rung w t price sz s = record_exit w row p ?s" "po_price p = price" "po_size p = sz"
    | error where "place_exit_rung w t price sz s = record_failed_exit w row price sz error ?s"
  proof (cases ?place)
    case (Inr p)
    then show ?thesis using that(1) [of p] place_exit_sizes [OF Inr] by (simp add: run)
  next
    case e: (Inl e)
    show ?thesis
    proof (cases ?look)
      case (Inl e') then show ?thesis using that(2) e by (simp add: run)
    next
      case (Inr found)
      then show ?thesis
        using that(2) that(1) reconcile_exit_sizes e by (cases found) (auto simp: run)
    qed
  qed
  then show ?thesis
  proof cases
    case 1
    with assms have eq: "record_exit w row p ?s = (r, s')" by simp
    show ?thesis using record_exit_sent [of w row p ?s] 1(2,3) unfolding eq by (simp add: t)
  next
    case 2
    with assms have eq: "record_failed_exit w row price sz error ?s = (r, s')" by simp
    show ?thesis using record_failed_exit_sent [of w row price sz error ?s] unfolding eq by (simp add: t)
  qed
qed

text \<open>Requests for one entry: at or above the minimum, within what its rung misses.\<close>

definition rung_request :: "rat \<Rightarrow> (exit_target \<times> rat) list \<Rightarrow> sent \<Rightarrow> bool" where
  "rung_request min_size ts x =
     (case x of
        ExitSent _ _ price sz \<Rightarrow> min_size \<le> sz \<and> list_ex (\<lambda>(target, pending). et_price target = price \<and> sz \<le> pending) ts
      | ExitAccepted _ _ price sz \<Rightarrow> min_size \<le> sz
      | _ \<Rightarrow> False)"

lemma rung_request_mono: "rung_request min_size ts x \<Longrightarrow> rung_request min_size (tp # ts) x"
  by (cases x) (auto simp: rung_request_def)

lemma exit_loop_within:
  assumes "exit_loop w t min_size ts available s = (r, s')"
    and "0 \<le> min_size" "0 \<le> available" "available < 10 ^ 16" "on_grid 12 available"
    and "list_all (\<lambda>(target, pending). on_grid 12 pending) ts"
  shows "\<exists>new. sv_sent s' = sv_sent s @ new \<and> sum_list (accepted_sizes new) \<le> available \<and>
    list_all (rung_request min_size ts) new"
  using assms
proof (induction w t min_size ts available arbitrary: s rule: exit_loop.induct)
  case (1 w t min_size available)
  then show ?case by simp
next
  case (2 w t min_size target pending ts available)
  let ?sz = "min pending available"
  have mono: "list_all (rung_request min_size ts) new \<Longrightarrow>
      list_all (rung_request min_size ((target, pending) # ts)) new" for new
    by (simp add: list_all_iff rung_request_mono)
  show ?case
  proof (cases "?sz < min_size")
    case True
    with 2 show ?thesis
      by simp (metis (no_types, lifting) mono)
  next
    case False
    obtain r1 s1 where rung: "place_exit_rung w t (et_price target) ?sz s = (r1, s1)"
      by (cases "place_exit_rung w t (et_price target) ?sz s")
    obtain acc where acc: "sv_sent s1 = sv_sent s @
        ExitSent (o_slug (fst t)) (o_outcome (fst t)) (et_price target) ?sz # acc"
      "acc = [] \<and> r1 \<noteq> Return True \<or>
       acc = [ExitAccepted (o_slug (fst t)) (o_outcome (fst t)) (et_price target) ?sz] \<and> r1 \<noteq> Return False"
      using place_exit_rung_sent [OF rung] by blast
    let ?first = "ExitSent (o_slug (fst t)) (o_outcome (fst t)) (et_price target) ?sz # acc"
    have first: "list_all (rung_request min_size ((target, pending) # ts)) ?first"
      and within: "sum_list (accepted_sizes ?first) \<le> available" "0 \<le> sum_list (accepted_sizes ?first)"
      using acc(2) False "2.prems"(2,3) by (auto simp: rung_request_def)
    have stop: ?thesis if "s' = s1"
      using that acc(1) first within by auto
    have sub: "dsub available ?sz = available - ?sz" "on_grid 12 (available - ?sz)"
      using "2.prems" False on_grid_diff [of 12 available ?sz] on_grid_min [of 12 pending available]
        dround_grid [of 12 "available - ?sz"]
      by (auto simp: dsub_def)
    show ?thesis
    proof (cases r1)
      case (Inl e)
      then show ?thesis using "2.prems"(1) False rung stop by (simp add: Let_def sbind_def)
    next
      case (Inr placed)
      let ?left = "if placed then available - ?sz else available"
      have sum: "sum_list (accepted_sizes ?first) = (if placed then ?sz else 0)"
        using acc(2) Inr by auto
      show ?thesis
      proof (cases "?left < min_size")
        case True
        then show ?thesis using "2.prems"(1) False rung stop sub Inr by (auto simp: Let_def sbind_def split: if_splits)
      next
        case left: False
        have "exit_loop w t min_size ts ?left s1 = (r, s')"
          using "2.prems"(1) False rung sub Inr left by (auto simp: Let_def sbind_def split: if_splits)
        then obtain new where new: "sv_sent s' = sv_sent s1 @ new"
          "sum_list (accepted_sizes new) \<le> ?left" "list_all (rung_request min_size ts) new"
          using "2.IH"(2) [of ?sz ?left placed s1] False left sub "2.prems"(2-)
          by (cases placed) auto
        show ?thesis
          using new acc(1) first sum mono [OF new(3)] by (intro exI [of _ "?first @ new"]) auto
      qed
    qed
  qed
qed

text \<open>
  C2. The exits placed for a filled entry never sell more than is there to sell: the exits the
  venue accepts in a pass together stay within the token balance less what resting exits hold,
  and each request is at least the market's minimum, at the price of a rung, and no larger than
  what that rung still misses.
\<close>

theorem exits_never_oversell:
  assumes "exits_for_row w now t s = (r, s')"
    and "conditional_balance (venue_of w s) (o_token_id (fst t)) = Return balance"
    and "available = max 0 (dsub balance (active_exit_reserved_size (o_slug (fst t)) (o_outcome (fst t)) (sv_db s)))"
    and "on_grid 12 available" "available < 10 ^ 16" "0 \<le> m_min_size (snd t)"
    and "list_all (\<lambda>(target, pending). on_grid 12 pending) (pending_targets (plan_of s) (sv_db s) t)"
  shows "\<exists>new. sv_sent s' = sv_sent s @ new \<and> sum_list (accepted_sizes new) \<le> available \<and>
    list_all (rung_request (m_min_size (snd t)) (pending_targets (plan_of s) (sv_db s) t)) new"
proof -
  let ?ts = "pending_targets (plan_of s) (sv_db s) t"
  obtain row m where t: "t = (row, m)" by (cases t)
  have "s' = s \<or> exit_loop w t (m_min_size m) ?ts available s = (r, s')"
    using assms(1,2) unfolding assms(3) by (auto simp: exits_for_row_def t Let_def split: if_splits)
  then show ?thesis
  proof
    assume "s' = s"
    then show ?thesis using assms(3) by (intro exI [of _ "[]"]) simp
  next
    assume "exit_loop w t (m_min_size m) ?ts available s = (r, s')"
    from exit_loop_within [OF this] show ?thesis using assms(3-7) by (simp add: t)
  qed
qed

definition example_filled :: order_row where
  "example_filled = example_row\<lparr>o_matched_size := 10\<rparr>"

definition example_seller :: service where
  "example_seller = example_service\<lparr>sv_db := example_db\<lparr>db_orders := [example_filled]\<rparr>\<rparr>"

definition example_holder :: world where
  "example_holder = example_answers\<lparr>sw_venue := quiet_venue\<lparr>
     ve_balance := (\<lambda>_. Return (JObj [(''balance'', JStr ''7000000'')]))\<rparr>\<rparr>"

lemmas example_seller_defs = example_seller_def example_service_def example_config_def
  example_filled_def example_row_def order_row_of_def example_db_rows example_plan_def example_mkt_def

lemma example_pending:
  "pending_targets (plan_of example_seller) (sv_db example_seller) (example_filled, example_mkt) =
     [(\<lparr>et_price = 1/50, et_fraction = 1/2\<rparr>, 5)]"
  by (simp add: pending_targets_def example_seller_defs exit_handled_size_def dec_eval)

theorem exits_never_oversell_witness:
  "\<exists>new. sv_sent (snd (exits_for_row example_holder 1700000010 (example_filled, example_mkt) example_seller)) =
       sv_sent example_seller @ new \<and> sum_list (accepted_sizes new) \<le> 7"
proof -
  have b: "conditional_balance (venue_of example_holder example_seller) (o_token_id (fst (example_filled, example_mkt)))
      = Return 7" by code_simp
  have a: "7 = max 0 (dsub 7 (active_exit_reserved_size (o_slug (fst (example_filled, example_mkt)))
      (o_outcome (fst (example_filled, example_mkt))) (sv_db example_seller)))" by code_simp
  have g: "on_grid 12 7" "on_grid 12 5"
    using on_grid_of_int [of 12 7] on_grid_of_int [of 12 5] by simp_all
  have "0 \<le> m_min_size (snd (example_filled, example_mkt))" by (simp add: example_mkt_def)
  moreover have "list_all (\<lambda>(target, pending). on_grid 12 pending)
      (pending_targets (plan_of example_seller) (sv_db example_seller) (example_filled, example_mkt))"
    unfolding example_pending using g(2) by simp
  ultimately show ?thesis
    using exits_never_oversell [OF prod.collapse [symmetric] b a g(1)] by auto
qed

end
