(* ===== verification/Service_Place.thy ===== *)
theory Service_Place
  imports Service_Orders
begin

text \<open>
  How \<open>BotService\<close> turns a market into an entry: the guards of \<open>_consider_market\<close>, the
  placement of a dry run, of one account and of the fleet, retries, and skipped markets. A
  market comes with the times of its activation, where the activation worker found it.
\<close>

type_synonym trigger_details = "(int \<times> int) option"

definition activation_trigger :: string where
  "activation_trigger = ''market_parameters_activation''"

subsection \<open>Skipping a market\<close>

definition pop_retry :: "string \<Rightarrow> unit svc" where
  "pop_retry slug = smodify (\<lambda>s. s\<lparr>sv_placement_retries := dict_pop slug (sv_placement_retries s)\<rparr>)"

definition prepare_row :: "world \<Rightarrow> market \<Rightarrow> string \<Rightarrow> unit svc" where
  "prepare_row w m state =
     sbind sget (\<lambda>s. db_try (prepare_market (sv_run_id s) m state (wall_ts w)))"

definition skip_market :: "world \<Rightarrow> market \<Rightarrow> string \<Rightarrow> unit svc" where
  "skip_market w m reason =
     sthen (pop_retry (m_slug m))
     (sthen (prepare_row w m ''skipped'')
     (sthen (db_do (set_market_state (m_slug m) ''skipped'' (Some reason) (wall_ts w)))
       (event w ''WARNING'' ''market_skipped'' (Some (m_slug m)))))"

definition gave_up_reason :: "preview_seen option \<Rightarrow> rat option \<Rightarrow> string" where
  "gave_up_reason seen knock_until_ts =
     (case (seen, knock_until_ts) of
        (Some p, Some until) \<Rightarrow>
          if ps_seen_ms p \<notin> {None, Some 0} \<and>
             to_double (ps_anchor_ms p + PREVIEW_GIVE_UP_MS) < to_double (until * 1000)
          then ''no acceptance within 60 s of the record turning active''
          else ''no acceptance within 240 s of knocking''
      | _ \<Rightarrow> ''no acceptance within 240 s of knocking'')"

text \<open>Is the book there before we have knocked once? Unsure means knock.\<close>

definition door_already_open :: "world \<Rightarrow> market \<Rightarrow> bool svc" where
  "door_already_open w m =
     sbind sget (\<lambda>s.
       if \<not> has_exchange s then sreturn False
       else case order_books_ready (venue_of w s) m of
         Inr ready \<Rightarrow> sreturn ready
       | Inl e \<Rightarrow> sthen (event w ''ERROR'' ''orderbook_check_failed'' (Some (m_slug m))) (sreturn False))"

subsection \<open>Retries\<close>

definition new_retry :: "world \<Rightarrow> placement_result \<Rightarrow> retry_state" where
  "new_retry w result =
     \<lparr>rt_attempts = pr_attempts result, rt_first_started_ts_ms = wall_ms w,
      rt_last_finished_ts_ms = finished_ms w\<rparr>"

definition requeued :: "world \<Rightarrow> market \<Rightarrow> trigger_details \<Rightarrow> activation_update" where
  "requeued w m details =
     \<lparr>au_market = m,
      au_discovered_ts_ms = (case details of Some (discovered, _) \<Rightarrow> discovered | None \<Rightarrow> wall_ms w),
      au_detected_ts_ms = (case details of Some (_, detected) \<Rightarrow> detected | None \<Rightarrow> wall_ms w)\<rparr>"

definition set_retry :: "string \<Rightarrow> retry_state \<Rightarrow> unit svc" where
  "set_retry slug r = smodify (\<lambda>s. s\<lparr>sv_placement_retries := dict_set slug r (sv_placement_retries s)\<rparr>)"

definition requeue_placement ::
  "world \<Rightarrow> market \<Rightarrow> placement_result \<Rightarrow> retry_state option \<Rightarrow> trigger_details \<Rightarrow> bool svc" where
  "requeue_placement w m result retry details =
     (if \<not> pr_retryable result \<or> pr_orders result \<noteq> [] then sreturn False
      else sthen
        (case retry of
           None \<Rightarrow>
             sthen (set_retry (m_slug m) (new_retry w result))
             (sthen (db_do (set_market_state (m_slug m) ''placement_pending'' (pr_error result) (wall_ts w)))
               (event w ''INFO'' ''placement_retry_started'' (Some (m_slug m))))
         | Some r \<Rightarrow>
             set_retry (m_slug m) (r\<lparr>rt_attempts := rt_attempts r + pr_attempts result,
                rt_last_finished_ts_ms := finished_ms w\<rparr>))
        (sthen (smodify (\<lambda>s. s\<lparr>sv_activation_updates := sv_activation_updates s @ [requeued w m details],
                 sv_wake := True\<rparr>))
          (sreturn True)))"

definition placement_failed :: "world \<Rightarrow> market \<Rightarrow> string option \<Rightarrow> unit svc" where
  "placement_failed w m error =
     sthen (pop_retry (m_slug m))
     (sthen (db_do (set_market_state (m_slug m) ''error'' error (wall_ts w)))
       (event w ''ERROR'' ''placement_failed'' (Some (m_slug m))))"

definition placement_succeeded :: "world \<Rightarrow> market \<Rightarrow> unit svc" where
  "placement_succeeded w m =
     sthen (pop_retry (m_slug m))
     (sthen (db_do (set_market_state (m_slug m) ''active'' None (wall_ts w)))
       (event w ''INFO'' ''dual_orders_placed'' (Some (m_slug m))))"

definition record_orders :: "world \<Rightarrow> market \<Rightarrow> placed_order list \<Rightarrow> unit svc" where
  "record_orders w m orders =
     sfor (\<lambda>p. sbind sget (\<lambda>s. db_try (add_order (sv_run_id s) (m_slug m) p (wall_ts w)))) orders"

subsection \<open>Placing with one account\<close>

text \<open>
  The submission with its reconciliation: whatever happens, a result. A reconciled result is
  rebuilt with the orders, the error and the retry flag alone, so it expects two orders again.
\<close>

definition submit_dual ::
  "world \<Rightarrow> service_config \<Rightarrow> market \<Rightarrow> rat \<Rightarrow> exchange \<Rightarrow> placement_result \<times> exchange" where
  "submit_dual w c m until ex =
     (let plan = sc_plan c; v = sw_venue w in
      case place_dual v (fst (sw_signing w)) (snd (sw_signing w)) m (buy_price plan) (order_size plan)
             (Some (sc_placement_interval_ms c)) (Some until) (sw_wall w) ex of
        (Inr r, ex) \<Rightarrow> (r, ex)
      | (Inl (AmbiguousPlacement msg retryable attempts), ex) \<Rightarrow>
          (case reconcile_ambiguous_dual v m (buy_price plan) (order_size plan) retryable ex of
             (Inl e, ex) \<Rightarrow>
               ((placement [] (Some (''submission='' @ exn_text (AmbiguousPlacement msg retryable attempts) @
                    ''; reconciliation='' @ exn_text e)))
                  \<lparr>pr_retryable := retryable, pr_attempts := attempts\<rparr>, ex)
           | (Inr r, ex) \<Rightarrow>
               ((placement (pr_orders r) (pr_error r))
                  \<lparr>pr_retryable := pr_retryable r, pr_attempts := attempts\<rparr>, ex))
      | (Inl e, ex) \<Rightarrow> (placement [] (Some (exn_text e)), ex))"

definition place_solo ::
  "world \<Rightarrow> market \<Rightarrow> trigger_details \<Rightarrow> retry_state option \<Rightarrow> rat \<Rightarrow> exchange \<Rightarrow> unit svc" where
  "place_solo w m details retry until ex =
     sthen (send (EntrySent (m_slug m)))
     (sbind sget (\<lambda>s.
      case submit_dual w (sv_config s) m until ex of (result, ex) \<Rightarrow>
        sthen (smodify (\<lambda>s. s\<lparr>sv_backend := Solo ex\<rparr>))
        (sthen (record_orders w m (pr_orders result))
        (if complete result then placement_succeeded w m
         else if pr_gave_up result \<and> pr_orders result = [] then
           skip_market w m ''no acceptance within 240 s of knocking''
         else sbind (requeue_placement w m result retry details) (\<lambda>again.
           if again then sreturn () else placement_failed w m (pr_error result))))))"

subsection \<open>Placing with the fleet\<close>

definition fleet_result :: "fleet_placement \<Rightarrow> placement_result" where
  "fleet_result fp =
     (placement [] (fp_error fp))\<lparr>pr_retryable := fp_retryable fp, pr_attempts := fp_attempts fp\<rparr>"

definition place_with_fleet ::
  "world \<Rightarrow> market \<Rightarrow> trigger_details \<Rightarrow> retry_state option \<Rightarrow> rat \<Rightarrow> fleet \<Rightarrow> unit svc" where
  "place_with_fleet w m details retry until fl =
     sthen (send (EntrySent (m_slug m)))
     (sbind sget (\<lambda>s.
      case fleet_place (sw_fleet w) m (buy_price (plan_of s)) (sc_placement_interval_ms (sv_config s))
             (Some until) (if sc_knock_on_preview (sv_config s) then Some (preview_plan m) else None) fl of
        (answer, fl) \<Rightarrow>
        sthen (smodify (\<lambda>s. s\<lparr>sv_backend := Many fl\<rparr>))
        (case answer of
           Inl e \<Rightarrow> placement_failed w m (Some (exn_text e))
         | Inr fp \<Rightarrow>
             sthen (record_orders w m (fp_orders fp))
             (if fp_kept fp \<noteq> None then placement_succeeded w m
              else if fp_gave_up fp then skip_market w m (gave_up_reason (fp_preview fp) (Some until))
              else sbind (requeue_placement w m (fleet_result fp) retry details) (\<lambda>again.
                if again then sreturn () else placement_failed w m (fp_error fp))))))"

subsection \<open>Placing\<close>

definition dry_legs :: "string \<Rightarrow> market \<Rightarrow> (string \<times> string) list" where
  "dry_legs submission m =
     (if submission = ''solo-up'' then [(''up'', m_up_token_id m)]
      else if submission = ''solo-down'' then [(''down'', m_down_token_id m)]
      else [(''up'', m_up_token_id m), (''down'', m_down_token_id m)])"

definition dry_order :: "trade_plan \<Rightarrow> market \<Rightarrow> string \<times> string \<Rightarrow> placed_order" where
  "dry_order plan m leg =
     \<lparr>po_order_id = ''dry:'' @ m_slug m @ '':'' @ fst leg, po_outcome = fst leg, po_token_id = snd leg,
      po_price = buy_price plan, po_size = order_size plan, po_status = ''simulated'',
      po_raw = JObj [(''dry_run'', JBool True)], po_side = ''buy'', po_role = ''entry'', po_account = []\<rparr>"

definition place_dry :: "world \<Rightarrow> market \<Rightarrow> unit svc" where
  "place_dry w m =
     sbind sget (\<lambda>s.
       sthen (record_orders w m (map (dry_order (plan_of s) m) (dry_legs (sc_entry_submission (sv_config s)) m)))
         (db_do (set_market_state (m_slug m) ''active'' None (wall_ts w))))"

text \<open>The knocking budget, from the first attempt on.\<close>

definition knock_until :: "int \<Rightarrow> rat" where
  "knock_until first_started_ts_ms =
     to_double (to_double (of_int first_started_ts_ms / 1000) + KNOCK_SECONDS)"

definition first_started :: "world \<Rightarrow> retry_state option \<Rightarrow> int" where
  "first_started w retry = (case retry of Some r \<Rightarrow> rt_first_started_ts_ms r | None \<Rightarrow> wall_ms w)"

definition enter_market ::
  "world \<Rightarrow> market \<Rightarrow> trigger_details \<Rightarrow> retry_state option \<Rightarrow> rat \<Rightarrow> unit svc" where
  "enter_market w m details retry until =
     sthen (swhen (retry = None) (prepare_row w m ''placing''))
     (sbind sget (\<lambda>s.
        if \<not> sc_live (sv_config s) then place_dry w m
        else case sv_backend s of
          Many fl \<Rightarrow> place_with_fleet w m details retry until fl
        | Solo ex \<Rightarrow> place_solo w m details retry until ex
        | DryRun \<Rightarrow> placement_failed w m
            (Some (exn_text (Raised ''AttributeError'' ''place_dual'')))))"

definition place :: "world \<Rightarrow> market \<Rightarrow> string \<Rightarrow> trigger_details \<Rightarrow> unit svc" where
  "place w m trigger details =
     sbind sget (\<lambda>s.
     let retry = dict_get (sv_placement_retries s) (m_slug m);
         until = knock_until (first_started w retry) in
     if sc_live (sv_config s) \<and> trigger = activation_trigger then
       (if until \<le> sw_wall w then skip_market w m ''knocking budget of 240 s used up before its turn''
        else sbind (door_already_open w m) (\<lambda>ready.
          if ready then skip_market w m ''order book already open when its turn came''
          else enter_market w m details retry until))
     else enter_market w m details retry until)"

subsection \<open>Considering a market\<close>

text \<open>\<open>a % b\<close> as a condition.\<close>

definition off_tick :: "rat \<Rightarrow> rat \<Rightarrow> exn + bool" where
  "off_tick price tick =
     (case dmod price tick of None \<Rightarrow> Raise InvalidOperation | Some r \<Rightarrow> Return (r \<noteq> 0))"

fun any_off_tick :: "exit_target list \<Rightarrow> rat \<Rightarrow> exn + bool" where
  "any_off_tick [] tick = Return False"
| "any_off_tick (t # ts) tick =
     rbind (off_tick (et_price t) tick) (\<lambda>off. if off then Return True else any_off_tick ts tick)"

definition drop_expired_retry :: "world \<Rightarrow> market \<Rightarrow> unit svc" where
  "drop_expired_retry w m =
     sbind sget (\<lambda>s.
       case dict_get (sv_placement_retries s) (m_slug m) of
         None \<Rightarrow> sreturn ()
       | Some retry \<Rightarrow>
           sthen (pop_retry (m_slug m))
           (sthen (db_do (set_market_state (m_slug m) ''expired''
                (Some ''market ended before a complete order pair was accepted'') (wall_ts w)))
             (event w ''WARNING'' ''placement_retry_expired'' (Some (m_slug m)))))"

definition over_caps :: "world \<Rightarrow> service \<Rightarrow> bool" where
  "over_caps w s =
     ((case sc_max_daily_filled_cost (sv_config s) of
         None \<Rightarrow> False | Some cap \<Rightarrow> cap \<le> daily_filled_cost (wall_ts w) (sv_db s)) \<or>
      (case sc_max_reserved_usd (sv_config s) of
         None \<Rightarrow> False
       | Some cap \<Rightarrow> cap < dadd (active_reserved_usd (sv_db s)) (market_reserve (plan_of s))))"

definition check_books :: "world \<Rightarrow> market \<Rightarrow> bool \<Rightarrow> bool svc" where
  "check_books w m orderbook_ready =
     sbind sget (\<lambda>s.
       if has_exchange s \<and> \<not> orderbook_ready then
         (case order_books_ready (venue_of w s) m of
            Inr ready \<Rightarrow> sreturn ready
          | Inl e \<Rightarrow> sthen (event w ''ERROR'' ''orderbook_check_failed'' (Some (m_slug m))) (sreturn False))
       else sreturn True)"

text \<open>\<open>False\<close> ends the pass over the markets.\<close>

definition consider_market ::
  "world \<Rightarrow> market \<Rightarrow> int \<Rightarrow> string \<Rightarrow> bool \<Rightarrow> trigger_details \<Rightarrow> bool svc" where
  "consider_market w m now_ts trigger orderbook_ready details =
     sbind sget (\<lambda>s.
     if \<not> is_eligible m (sv_run_started_ts s) now_ts then
       sthen (drop_expired_retry w m) (sreturn True)
     else if \<not> can_start_entry_plan (m_slug m) (sv_db s) then sreturn True
     else sbind (slift (off_tick (buy_price (plan_of s)) (m_tick_size m))) (\<lambda>off.
     if off then sthen (skip_market w m ''buy price does not match market tick size'') (sreturn True)
     else sbind (slift (any_off_tick (exit_targets (plan_of s)) (m_tick_size m))) (\<lambda>off.
     if off then sthen (skip_market w m ''take-profit price does not match market tick size'') (sreturn True)
     else if order_size (plan_of s) < m_min_size m then
       sthen (skip_market w m ''configured order is below market minimum'') (sreturn True)
     else if over_caps w s then sreturn False
     else sbind (check_books w m orderbook_ready) (\<lambda>ready.
       if ready then sthen (place w m trigger details) (sreturn True) else sreturn True))))"

text \<open>
  The passes over several markets: \<open>ws i\<close> is what the outside answers while the \<open>i\<close>th market
  is considered, and \<open>now_ts\<close> is read once at the start. The queue is taken over whole.
\<close>

definition place_activated_markets :: "int \<Rightarrow> (nat \<Rightarrow> world) \<Rightarrow> unit svc" where
  "place_activated_markets now_ts ws =
     sbind sget (\<lambda>s.
     sthen (smodify (\<lambda>s. s\<lparr>sv_activation_updates := []\<rparr>))
       (swhile (\<lambda>(i, u). consider_market (ws i) (au_market u) now_ts activation_trigger True
            (Some (au_discovered_ts_ms u, au_detected_ts_ms u)))
          (enumerate 0 (sv_activation_updates s))))"

definition discover_and_place :: "world \<Rightarrow> (nat \<Rightarrow> world) \<Rightarrow> unit svc" where
  "discover_and_place w ws =
     (case sw_gamma w of
        Inl e \<Rightarrow> event w ''ERROR'' ''discovery_failed'' None
      | Inr markets \<Rightarrow>
          swhile (\<lambda>(i, m). consider_market (ws i) m (wall_ts w) ''gamma'' False None) (enumerate 0 markets))"

subsection \<open>Updates of the activation and geoblock workers\<close>

definition apply_activation_update :: "world \<Rightarrow> act_update \<Rightarrow> unit svc" where
  "apply_activation_update w u =
     (case u of
        ActState st \<Rightarrow>
          if as_healthy st then event w ''INFO'' ''market_activation_connected'' None
          else event w ''ERROR'' ''market_activation_disconnected'' None
      | Activated a \<Rightarrow> smodify (\<lambda>s. s\<lparr>sv_activation_updates := sv_activation_updates s @ [a]\<rparr>))"

definition drain_market_activation_updates :: "world \<Rightarrow> act_update list \<Rightarrow> unit svc" where
  "drain_market_activation_updates w updates =
     sbind sget (\<lambda>s. swhen (activation_probe s) (sfor (apply_activation_update w) updates))"

definition apply_geoblock_update :: "world \<Rightarrow> geoblock_update \<Rightarrow> unit svc" where
  "apply_geoblock_update w u =
     (if gu_blocked u then
        (let result = (case gu_result u of None \<Rightarrow> [] | Some kv \<Rightarrow> kv) in
         sthen (event w ''ERROR'' ''geoblocked'' None)
           (sraise (RuntimeError (''trading blocked in '' @ py_str (pget ''country'' result) @ '' '' @
             py_str (pget ''region'' result)))))
      else if gu_available u then
        swhen (gu_recovered u) (event w ''INFO'' ''geoblock_check_recovered'' None)
      else event w ''ERROR'' ''geoblock_check_failed'' None)"

definition drain_geoblock_updates :: "world \<Rightarrow> geoblock_update list \<Rightarrow> unit svc" where
  "drain_geoblock_updates w updates =
     sbind sget (\<lambda>s. swhen (has_exchange s) (sfor (apply_geoblock_update w) updates))"

subsection \<open>What the methods keep\<close>

context service_law
begin

lemma keeps_pop_retry: "keeps L (pop_retry slug)"
  by (simp add: pop_retry_def keeps_modify retries)

lemma keeps_prepare_row: "keeps L (prepare_row w m state)"
  by (auto simp: prepare_row_def intro!: law_intros)

lemma keeps_skip: "keeps L (skip_market w m reason)"
  by (auto simp: skip_market_def intro!: law_intros keeps_pop_retry keeps_prepare_row)

lemma keeps_door: "keeps L (door_already_open w m)"
  by (auto simp: door_already_open_def intro!: law_intros split: sum.splits)

lemma keeps_enqueue: "keeps L (smodify (\<lambda>s. s\<lparr>sv_activation_updates := sv_activation_updates s @ us, sv_wake := True\<rparr>))"
  using wake [OF queue] by (auto intro!: keeps_modify)

lemma keeps_requeue: "keeps L (requeue_placement w m result retry details)"
  by (auto simp: requeue_placement_def set_retry_def intro!: law_intros keeps_enqueue keeps_modify retries
      split: option.splits)

lemma keeps_failed: "keeps L (placement_failed w m error)"
  by (auto simp: placement_failed_def intro!: law_intros keeps_pop_retry)

lemma keeps_succeeded: "keeps L (placement_succeeded w m)"
  by (auto simp: placement_succeeded_def intro!: law_intros keeps_pop_retry)

lemma keeps_record: "keeps L (record_orders w m orders)"
  by (auto simp: record_orders_def intro!: law_intros)

lemma keeps_send_entry: "keeps L (send (EntrySent slug))"
  by (simp add: send_def keeps_modify entries)

lemmas place_intros = keeps_skip keeps_requeue keeps_failed keeps_succeeded keeps_record keeps_send_entry
  keeps_pop_retry keeps_prepare_row keeps_door law_intros

lemma keeps_place_solo: "keeps L (place_solo w m details retry until ex)"
  by (auto simp: place_solo_def intro!: place_intros split: prod.splits)

lemma keeps_fleet_answer: "keeps L
   (case answer of
      Inl e \<Rightarrow> placement_failed w m (Some (exn_text e))
    | Inr fp \<Rightarrow>
        sthen (record_orders w m (fp_orders fp))
        (if fp_kept fp \<noteq> None then placement_succeeded w m
         else if fp_gave_up fp then skip_market w m (gave_up_reason (fp_preview fp) (Some until))
         else sbind (requeue_placement w m (fleet_result fp) retry details) (\<lambda>again.
           if again then sreturn () else placement_failed w m (fp_error fp))))"
  by (cases answer) (auto intro!: place_intros)

lemma keeps_place_with_fleet: "keeps L (place_with_fleet w m details retry until fl)"
  unfolding place_with_fleet_def
  by (intro keeps_then keeps_bind keeps_get keeps_send_entry)
    (split prod.split, intro allI impI keeps_then keeps_set_backend keeps_fleet_answer)

lemma keeps_dry: "keeps L (place_dry w m)"
  by (auto simp: place_dry_def intro!: place_intros)

lemma keeps_enter: "keeps L (enter_market w m details retry until)"
  by (auto simp: enter_market_def intro!: place_intros keeps_place_solo keeps_place_with_fleet keeps_dry
      split: backend.splits)

lemma keeps_place: "keeps L (place w m trigger details)"
  by (auto simp: place_def Let_def intro!: place_intros keeps_enter)

lemma keeps_consider: "keeps L (consider_market w m now_ts trigger ready details)"
  by (auto simp: consider_market_def drop_expired_retry_def check_books_def
      intro!: place_intros keeps_place split: option.splits sum.splits)

lemma keeps_place_activated: "keeps L (place_activated_markets now_ts ws)"
  by (auto simp: place_activated_markets_def intro!: law_intros keeps_consider keeps_modify queue
      split: prod.splits)

lemma keeps_discover: "keeps L (discover_and_place w ws)"
  by (auto simp: discover_and_place_def intro!: law_intros keeps_consider split: sum.splits prod.splits)

lemma keeps_drain_activation: "keeps L (drain_market_activation_updates w updates)"
  by (auto simp: drain_market_activation_updates_def apply_activation_update_def
      intro!: law_intros keeps_modify queue split: act_update.splits)

end

context follow_law
begin

lemma keeps_drain_geoblock: "keeps L (drain_geoblock_updates w updates)"
  by (auto simp: drain_geoblock_updates_def apply_geoblock_update_def Let_def intro!: law_intros)

end

end
