(* ===== verification/Placement_Facts.thy ===== *)
theory Placement_Facts
  imports Service_Place Order_Following
begin

text \<open>
  What holds of placing: an entry is sent only for a market that passes every guard, within
  the caps and the knocking budget, and a market that was entered is not entered again unless
  nothing of it is on record and its retry is queued.
\<close>

subsection \<open>What does not send\<close>

definition framed :: "sent list \<Rightarrow> service_config \<Rightarrow> service \<Rightarrow> bool" where
  "framed xs c s \<longleftrightarrow> sv_sent s = xs \<and> sv_config s = c"

lemma framedI: "framed (sv_sent s) (sv_config s) s"
  by (simp add: framed_def)

lemma framed_event: "keeps (framed xs c) (event w level type slug)"
  by (simp add: keeps_def event_run framed_def)

lemma framed_db_do: "keeps (framed xs c) (db_do f)"
  by (rule keeps_db_do) (simp add: framed_def)

lemma framed_db_try: "keeps (framed xs c) (db_try f)"
  by (rule keeps_db_try) (simp add: framed_def)

lemma framed_modify:
  "(\<And>s. sv_sent (f s) = sv_sent s \<and> sv_config (f s) = sv_config s) \<Longrightarrow> keeps (framed xs c) (smodify f)"
  by (rule keeps_modify) (simp add: framed_def)

lemmas framed_intros = framed_event framed_db_do framed_db_try framed_modify keeps_intros

lemma framed_pop_retry: "keeps (framed xs c) (pop_retry slug)"
  by (simp add: pop_retry_def framed_modify)

lemma framed_skip: "keeps (framed xs c) (skip_market w m reason)"
  by (auto simp: skip_market_def prepare_row_def intro!: framed_intros framed_pop_retry)

lemma framed_requeue: "keeps (framed xs c) (requeue_placement w m result retry details)"
  by (auto simp: requeue_placement_def set_retry_def intro!: framed_intros split: option.splits)

lemma framed_failed: "keeps (framed xs c) (placement_failed w m error)"
  by (auto simp: placement_failed_def intro!: framed_intros framed_pop_retry)

lemma framed_succeeded: "keeps (framed xs c) (placement_succeeded w m)"
  by (auto simp: placement_succeeded_def intro!: framed_intros framed_pop_retry)

lemma framed_record: "keeps (framed xs c) (record_orders w m orders)"
  by (auto simp: record_orders_def intro!: framed_intros)

lemma framed_dry: "keeps (framed xs c) (place_dry w m)"
  by (auto simp: place_dry_def intro!: framed_intros framed_record)

lemma framed_expired: "keeps (framed xs c) (drop_expired_retry w m)"
  by (auto simp: drop_expired_retry_def intro!: framed_intros framed_pop_retry split: option.splits)

lemma framed_books: "keeps (framed xs c) (check_books w m ready)"
  by (auto simp: check_books_def intro!: framed_intros split: sum.splits)

lemma framed_door: "keeps (framed xs c) (door_already_open w m)"
  by (auto simp: door_already_open_def intro!: framed_intros split: sum.splits)

lemmas framed_methods = framed_skip framed_requeue framed_failed framed_succeeded framed_record
  framed_dry framed_expired framed_books framed_door framed_pop_retry framed_intros

text \<open>The two that send, send one entry.\<close>

lemma place_solo_sent: "framed (sv_sent s @ [EntrySent (m_slug m)]) (sv_config s)
    (snd (place_solo w m details retry until ex s))"
proof -
  have "keeps (framed xs c)
     (sbind sget (\<lambda>s.
      case submit_dual w (sv_config s) m until ex of (result, ex) \<Rightarrow>
        sthen (smodify (\<lambda>s. s\<lparr>sv_backend := Solo ex\<rparr>))
        (sthen (record_orders w m (pr_orders result))
        (if complete result then placement_succeeded w m
         else if pr_gave_up result \<and> pr_orders result = [] then
           skip_market w m ''no acceptance within 240 s of knocking''
         else sbind (requeue_placement w m result retry details) (\<lambda>again.
           if again then sreturn () else placement_failed w m (pr_error result))))))" for xs c
    by (auto intro!: framed_methods split: prod.splits)
  then show ?thesis
    unfolding place_solo_def sthen_send by (rule keepsD) (simp add: framed_def)
qed

lemma place_with_fleet_sent: "framed (sv_sent s @ [EntrySent (m_slug m)]) (sv_config s)
    (snd (place_with_fleet w m details retry until fl s))"
proof -
  have tail: "keeps (framed xs c)
        (sthen (smodify (\<lambda>s. s\<lparr>sv_backend := Many fl\<rparr>))
        (case answer of
           Inl e \<Rightarrow> placement_failed w m (Some (exn_text e))
         | Inr fp \<Rightarrow>
             sthen (record_orders w m (fp_orders fp))
             (if fp_kept fp \<noteq> None then placement_succeeded w m
              else if fp_gave_up fp then skip_market w m (gave_up_reason (fp_preview fp) (Some until))
              else sbind (requeue_placement w m (fleet_result fp) retry details) (\<lambda>again.
                if again then sreturn () else placement_failed w m (fp_error fp)))))" for xs c fl answer
    by (cases answer) (auto intro!: framed_methods)
  let ?s = "s\<lparr>sv_sent := sv_sent s @ [EntrySent (m_slug m)]\<rparr>"
  have "framed (sv_sent s @ [EntrySent (m_slug m)]) (sv_config s) ?s" by (simp add: framed_def)
  then show ?thesis
    unfolding place_with_fleet_def sthen_send sbind_get
    by (cases "fleet_place (sw_fleet w) m (buy_price (plan_of ?s)) (sc_placement_interval_ms (sv_config ?s))
        (Some until) (if sc_knock_on_preview (sv_config ?s) then Some (preview_plan m) else None) fl")
      (simp only: prod.case keepsD [OF tail])
qed

text \<open>Preparing the row may fail; otherwise a live service sends one entry.\<close>

lemma enter_market_run:
  "enter_market w m details retry until s =
     (case swhen (retry = None) (prepare_row w m ''placing'') s of
        (Inl e, s1) \<Rightarrow> (Raise e, s1)
      | (Inr _, s1) \<Rightarrow>
         (if \<not> sc_live (sv_config s1) then place_dry w m s1
          else case sv_backend s1 of
            Many fl \<Rightarrow> place_with_fleet w m details retry until fl s1
          | Solo ex \<Rightarrow> place_solo w m details retry until ex s1
          | DryRun \<Rightarrow> placement_failed w m (Some (exn_text (Raised ''AttributeError'' ''place_dual''))) s1))"
    by (simp add: enter_market_def sthen_def sbind_def sget_def split: prod.split sum.split backend.split)

lemma enter_market_sent:
  "framed (sv_sent s) (sv_config s) (snd (enter_market w m details retry until s)) \<or>
   sc_live (sv_config s) \<and>
   framed (sv_sent s @ [EntrySent (m_slug m)]) (sv_config s) (snd (enter_market w m details retry until s))"
proof -
  have keep: "keeps (framed (sv_sent s) (sv_config s)) (swhen (retry = None) (prepare_row w m ''placing''))"
    by (auto simp: prepare_row_def intro!: framed_intros)
  obtain r1 s1 where s1: "swhen (retry = None) (prepare_row w m ''placing'') s = (r1, s1)" by force
  then have f: "framed (sv_sent s) (sv_config s) s1" using keepsD [OF keep framedI] by simp
  show ?thesis
  proof (cases r1)
    case (Inl e)
    then show ?thesis using f by (simp add: enter_market_run s1)
  next
    case (Inr u)
    have fr: "framed (sv_sent s) (sv_config s) (snd (m1 s1))" if "keeps (framed (sv_sent s) (sv_config s)) m1"
      for m1 :: "unit svc" using keepsD [OF that f] .
    have eq: "sv_sent s1 = sv_sent s" "sv_config s1 = sv_config s" using f by (simp_all add: framed_def)
    show ?thesis
    proof (cases "sc_live (sv_config s)")
      case False
      then show ?thesis using fr [OF framed_dry] by (simp add: enter_market_run s1 Inr eq)
    next
      case True
      then show ?thesis
        using fr [OF framed_failed] place_solo_sent [of s1 m w details retry until]
          place_with_fleet_sent [of s1 m w details retry until]
        by (cases "sv_backend s1") (simp_all add: enter_market_run s1 Inr eq)
    qed
  qed
qed

subsection \<open>An entry passes every guard\<close>

definition on_tick :: "rat \<Rightarrow> rat \<Rightarrow> bool" where
  "on_tick price tick \<longleftrightarrow> off_tick price tick = Return False"

definition enterable :: "world \<Rightarrow> market \<Rightarrow> int \<Rightarrow> service \<Rightarrow> bool" where
  "enterable w m now_ts s \<longleftrightarrow>
     is_eligible m (sv_run_started_ts s) now_ts \<and> can_start_entry_plan (m_slug m) (sv_db s) \<and>
     on_tick (buy_price (plan_of s)) (m_tick_size m) \<and>
     list_all (\<lambda>t. on_tick (et_price t) (m_tick_size m)) (exit_targets (plan_of s)) \<and>
     m_min_size m \<le> order_size (plan_of s) \<and> \<not> over_caps w s"

lemma any_off_tick_False:
  "any_off_tick ts tick = Return False \<longleftrightarrow> list_all (\<lambda>t. on_tick (et_price t) tick) ts"
  by (induction ts) (auto simp: rbind_Inr_iff on_tick_def split: if_splits)

lemma check_books_True:
  "check_books w m ready s = (Return True, s1) \<Longrightarrow>
     s1 = s \<and> (has_exchange s \<longrightarrow> ready \<or> order_books_ready (venue_of w s) m = Return True)"
  by (auto simp: check_books_def split: if_splits sum.splits)

text \<open>A pass that changes what was sent went through every guard to the placement.\<close>

lemma consider_market_placed:
  assumes "consider_market w m now_ts trigger ready details s = (r, s')" "sv_sent s' \<noteq> sv_sent s"
  shows "enterable w m now_ts s \<and> s' = snd (place w m trigger details s) \<and>
    (\<forall>go. r = Return go \<longrightarrow> place w m trigger details s = (Return (), s')) \<and>
    (has_exchange s \<longrightarrow> ready \<or> order_books_ready (venue_of w s) m = Return True)"
proof -
  have same: False if "m s = (r, s')" "keeps (framed (sv_sent s) (sv_config s)) m" for m :: "bool svc"
    using keepsD [OF that(2) framedI] assms(2) that(1) by (simp add: framed_def)
  have skipped: "keeps (framed (sv_sent s) (sv_config s)) (sthen (skip_market w m reason) (sreturn True))" for reason
    by (auto intro!: framed_methods)
  have run: "consider_market w m now_ts trigger ready details s =
     (if \<not> is_eligible m (sv_run_started_ts s) now_ts then sthen (drop_expired_retry w m) (sreturn True) s
      else if \<not> can_start_entry_plan (m_slug m) (sv_db s) then (Return True, s)
      else case off_tick (buy_price (plan_of s)) (m_tick_size m) of Inl e \<Rightarrow> (Raise e, s) | Inr off \<Rightarrow>
        if off then sthen (skip_market w m ''buy price does not match market tick size'') (sreturn True) s
        else case any_off_tick (exit_targets (plan_of s)) (m_tick_size m) of Inl e \<Rightarrow> (Raise e, s) | Inr off \<Rightarrow>
        if off then sthen (skip_market w m ''take-profit price does not match market tick size'') (sreturn True) s
        else if order_size (plan_of s) < m_min_size m then
          sthen (skip_market w m ''configured order is below market minimum'') (sreturn True) s
        else if over_caps w s then (Return False, s)
        else sbind (check_books w m ready) (\<lambda>ready.
          if ready then sthen (place w m trigger details) (sreturn True) else sreturn True) s)"
    by (simp add: consider_market_def split: sum.split)
  have eligible: "is_eligible m (sv_run_started_ts s) now_ts"
    using assms(1) same [of "sthen (drop_expired_retry w m) (sreturn True)"]
    by (auto simp: run intro: framed_methods split: if_splits)
  have start: "can_start_entry_plan (m_slug m) (sv_db s)"
    using assms eligible by (auto simp: run split: if_splits)
  have buy: "off_tick (buy_price (plan_of s)) (m_tick_size m) = Return False"
    using assms eligible start same [OF _ skipped]
    by (cases "off_tick (buy_price (plan_of s)) (m_tick_size m)") (auto simp: run split: if_splits)
  have exits: "any_off_tick (exit_targets (plan_of s)) (m_tick_size m) = Return False"
    using assms eligible start buy same [OF _ skipped]
    by (cases "any_off_tick (exit_targets (plan_of s)) (m_tick_size m)") (auto simp: run split: if_splits)
  have size: "m_min_size m \<le> order_size (plan_of s)"
    using assms eligible start buy exits same [OF _ skipped] by (auto simp: run split: if_splits)
  have caps: "\<not> over_caps w s"
    using assms eligible start buy exits size by (auto simp: run split: if_splits)
  have last: "sbind (check_books w m ready) (\<lambda>ready.
          if ready then sthen (place w m trigger details) (sreturn True) else sreturn True) s = (r, s')"
    using assms(1) eligible start buy exits size caps by (simp add: run Let_def)
  obtain rb s1 where books: "check_books w m ready s = (rb, s1)" by force
  have "framed (sv_sent s) (sv_config s) (snd (check_books w m ready s))"
    by (rule keepsD [OF framed_books framedI])
  then have "framed (sv_sent s) (sv_config s) s1" by (simp add: books)
  then have "rb = Return True"
    using last assms(2) by (cases rb) (auto simp: sbind_def books framed_def split: if_splits)
  with books have b: "s1 = s" "has_exchange s \<longrightarrow> ready \<or> order_books_ready (venue_of w s) m = Return True"
    using check_books_True by blast+
  have "s' = snd (place w m trigger details s)"
    "\<forall>go. r = Return go \<longrightarrow> place w m trigger details s = (Return (), s')"
    using last \<open>rb = Return True\<close> b(1)
    by (auto simp: sbind_def books sthen_def split: prod.splits sum.splits)
  with eligible start buy exits size caps b(2) show ?thesis
    unfolding any_off_tick_False by (simp add: enterable_def) (simp add: on_tick_def)
qed

lemma place_run:
  assumes "sc_live (sv_config s)" "trigger = activation_trigger" "door_already_open w m s = (rd, s1)"
  shows "place w m trigger details s =
     (let retry = dict_get (sv_placement_retries s) (m_slug m); until = knock_until (first_started w retry) in
      if until \<le> sw_wall w then skip_market w m ''knocking budget of 240 s used up before its turn'' s
      else case rd of Inl e \<Rightarrow> (Raise e, s1) | Inr ready \<Rightarrow>
        if ready then skip_market w m ''order book already open when its turn came'' s1
        else enter_market w m details retry until s1)"
  using assms by (simp add: place_def Let_def sbind_def [of "door_already_open w m"] split: sum.split)

lemma place_sent:
  "framed (sv_sent s) (sv_config s) (snd (place w m trigger details s)) \<or>
   framed (sv_sent s @ [EntrySent (m_slug m)]) (sv_config s) (snd (place w m trigger details s)) \<and>
   sc_live (sv_config s) \<and>
   (trigger = activation_trigger \<longrightarrow>
      sw_wall w < knock_until (first_started w (dict_get (sv_placement_retries s) (m_slug m))) \<and>
      (has_exchange s \<longrightarrow> order_books_ready (venue_of w s) m \<noteq> Return True))"
proof -
  let ?retry = "dict_get (sv_placement_retries s) (m_slug m)"
  let ?until = "knock_until (first_started w ?retry)"
  show ?thesis
  proof (cases "sc_live (sv_config s) \<and> trigger = activation_trigger")
    case False
    then have "place w m trigger details s = enter_market w m details ?retry ?until s"
      by (auto simp: place_def Let_def)
    then show ?thesis using enter_market_sent [of s w m details ?retry ?until] False by auto
  next
    case live: True
    obtain rd s1 where door: "door_already_open w m s = (rd, s1)" by force
    have "framed (sv_sent s) (sv_config s) (snd (door_already_open w m s))"
      by (rule keepsD [OF framed_door framedI])
    then have f: "framed (sv_sent s) (sv_config s) s1" by (simp add: door)
    note run = place_run [OF conjunct1 [OF live] conjunct2 [OF live] door]
    have skip: "framed (sv_sent s) (sv_config s) (snd (skip_market w m reason s2))"
      if "framed (sv_sent s) (sv_config s) s2" for reason s2
      using keepsD [OF framed_skip that] .
    have shut: "rd = Return False \<Longrightarrow> has_exchange s \<longrightarrow> order_books_ready (venue_of w s) m \<noteq> Return True"
      using door by (auto simp: door_already_open_def split: if_splits sum.splits)
    show ?thesis
    proof (cases "?until \<le> sw_wall w")
      case True
      then show ?thesis using skip [OF framedI] by (simp add: run Let_def)
    next
      case budget: False
      show ?thesis
      proof (cases rd)
        case (Inl e) then show ?thesis using f budget by (simp add: run Let_def)
      next
        case (Inr ready)
        have eq: "sv_sent s1 = sv_sent s" "sv_config s1 = sv_config s" using f by (simp_all add: framed_def)
        show ?thesis
          unfolding run Let_def
          using enter_market_sent [of s1 w m details ?retry ?until] skip [OF f] budget shut Inr live
          by (cases ready) (simp_all add: eq)
      qed
    qed
  qed
qed

lemma entry_passes_guards:
  assumes "consider_market w m now_ts trigger ready details s = (r, s')" "sv_sent s' \<noteq> sv_sent s"
  shows "sv_sent s' = sv_sent s @ [EntrySent (m_slug m)] \<and> sc_live (sv_config s) \<and>
    is_eligible m (sv_run_started_ts s) now_ts \<and> can_start_entry_plan (m_slug m) (sv_db s) \<and>
    on_tick (buy_price (plan_of s)) (m_tick_size m) \<and>
    list_all (\<lambda>t. on_tick (et_price t) (m_tick_size m)) (exit_targets (plan_of s)) \<and>
    m_min_size m \<le> order_size (plan_of s) \<and> \<not> over_caps w s \<and>
    (has_exchange s \<longrightarrow> ready \<or> order_books_ready (venue_of w s) m = Return True) \<and>
    (trigger = activation_trigger \<longrightarrow>
       sw_wall w < knock_until (first_started w (dict_get (sv_placement_retries s) (m_slug m))) \<and>
       (has_exchange s \<longrightarrow> order_books_ready (venue_of w s) m \<noteq> Return True))"
proof -
  from consider_market_placed [OF assms] have e: "enterable w m now_ts s"
    and s': "s' = snd (place w m trigger details s)"
    and books: "has_exchange s \<longrightarrow> ready \<or> order_books_ready (venue_of w s) m = Return True"
    by blast+
  from place_sent [of s w m trigger details] assms(2) s'
  have "sv_sent s' = sv_sent s @ [EntrySent (m_slug m)] \<and> sc_live (sv_config s) \<and>
    (trigger = activation_trigger \<longrightarrow>
       sw_wall w < knock_until (first_started w (dict_get (sv_placement_retries s) (m_slug m))) \<and>
       (has_exchange s \<longrightarrow> order_books_ready (venue_of w s) m \<noteq> Return True))"
    by (auto simp: framed_def)
  with e books show ?thesis by (simp add: enterable_def)
qed

text \<open>
  C1. An entry is handed to the exchange only in a live run, for a market that passed every
  guard: it is eligible, can still be started, its tick fits the buy price and every
  take-profit price, the order is at least its minimum, neither cap is reached, its books are
  there where they are asked for, and, for an activation, the knocking budget counted from the
  first attempt is not used up and the book was not open already. One pass hands over one.
\<close>

theorem entry_passes_every_guard:
  assumes "consider_market w m now_ts trigger ready details s = (r, s')" "sv_sent s' \<noteq> sv_sent s"
  shows "sv_sent s' = sv_sent s @ [EntrySent (m_slug m)] \<and> sc_live (sv_config s) \<and>
    is_eligible m (sv_run_started_ts s) now_ts \<and> can_start_entry_plan (m_slug m) (sv_db s) \<and>
    on_tick (buy_price (plan_of s)) (m_tick_size m) \<and>
    list_all (\<lambda>t. on_tick (et_price t) (m_tick_size m)) (exit_targets (plan_of s)) \<and>
    m_min_size m \<le> order_size (plan_of s) \<and> \<not> over_caps w s \<and>
    (has_exchange s \<longrightarrow> ready \<or> order_books_ready (venue_of w s) m = Return True) \<and>
    (trigger = activation_trigger \<longrightarrow>
       sw_wall w < knock_until (first_started w (dict_get (sv_placement_retries s) (m_slug m))) \<and>
       (has_exchange s \<longrightarrow> order_books_ready (venue_of w s) m \<noteq> Return True))"
  by (rule entry_passes_guards [OF assms])

text \<open>A run without markets, at a venue whose books are not there yet.\<close>

definition example_start :: service where
  "example_start = example_service\<lparr>sv_db := example_db\<lparr>db_markets := []\<rparr>\<rparr>"

definition shut_door :: world where
  "shut_door = example_answers\<lparr>sw_venue := quiet_venue\<lparr>
     ve_order_book := (\<lambda>_. Raise (PolyApi (Some 404) (JStr ''orderbook does not exist'')))\<rparr>\<rparr>"

lemma shut_door_books: "order_books_ready (venue_of shut_door example_start) example_mkt = Return False"
  by code_simp

lemma knock_until_early: "1700000010 < knock_until 1700000010000"
  by code_simp

lemma example_start_simps [simp]:
  "sv_config example_start = example_config" "sv_placement_retries example_start = []"
  "sv_run_started_ts example_start = 1700000000" "sv_run_id example_start = 1"
  "sv_backend example_start = Solo exchange_init" "sv_sent example_start = []"
  by (simp_all add: example_start_def example_service_def)

lemma example_guards:
  "can_start_entry_plan (m_slug example_mkt) (sv_db example_start)" "\<not> over_caps shut_door example_start"
  "off_tick (buy_price example_plan) (m_tick_size example_mkt) = Return False"
  "any_off_tick (exit_targets example_plan) (m_tick_size example_mkt) = Return False"
  "\<not> order_size example_plan < m_min_size example_mkt"
  by code_simp+

lemma example_prepares:
  "\<exists>db. prepare_market 1 example_mkt ''placing'' t (sv_db example_start) = Return db"
  by (simp add: prepare_market_def add_market_def has_market_def has_run_def example_start_def
      example_db_rows table_find_def)

lemma example_enters_run:
  "\<exists>db. consider_market shut_door example_mkt 1700000010 activation_trigger True None example_start =
     (case place_solo shut_door example_mkt None None (knock_until 1700000010000) exchange_init
         (example_start\<lparr>sv_db := db\<rparr>) of
        (Inl e, s') \<Rightarrow> (Raise e, s') | (Inr _, s') \<Rightarrow> (Return True, s'))"
proof -
  let ?until = "knock_until 1700000010000"
  have plan: "plan_of example_start = example_plan" "sc_live (sv_config example_start)"
    by (simp_all add: example_config_def)
  have el: "is_eligible example_mkt 1700000000 1700000010" by (simp add: is_eligible_def example_mkt_def)
  have first: "first_started shut_door None = 1700000010000"
    by code_simp
  have early: "\<not> ?until \<le> sw_wall shut_door"
    using knock_until_early by (simp add: shut_door_def example_answers_def)
  have door: "door_already_open shut_door example_mkt example_start = (Return False, example_start)"
    by (simp add: door_already_open_def has_exchange_def shut_door_books)
  obtain db where db: "prepare_market 1 example_mkt ''placing'' (wall_ts shut_door) (sv_db example_start) = Return db"
    using example_prepares by blast
  have "consider_market shut_door example_mkt 1700000010 activation_trigger True None example_start =
      (case place_solo shut_door example_mkt None None ?until exchange_init (example_start\<lparr>sv_db := db\<rparr>) of
        (Inl e, s') \<Rightarrow> (Raise e, s') | (Inr _, s') \<Rightarrow> (Return True, s'))"
    using el example_guards plan early
    by (simp add: consider_market_def check_books_def place_def Let_def first door sthen_def sbind_def
        slift_def sget_def enter_market_def prepare_row_def db_try_def db split: prod.splits sum.splits)
  then show ?thesis by blast
qed

lemma example_enters:
  "sv_sent (snd (consider_market shut_door example_mkt 1700000010 activation_trigger True None example_start)) =
     [EntrySent (m_slug example_mkt)]"
proof -
  obtain db where "consider_market shut_door example_mkt 1700000010 activation_trigger True None example_start =
     (case place_solo shut_door example_mkt None None (knock_until 1700000010000) exchange_init
         (example_start\<lparr>sv_db := db\<rparr>) of
        (Inl e, s') \<Rightarrow> (Raise e, s') | (Inr _, s') \<Rightarrow> (Return True, s'))"
    using example_enters_run by blast
  moreover obtain r s2 where "place_solo shut_door example_mkt None None (knock_until 1700000010000)
      exchange_init (example_start\<lparr>sv_db := db\<rparr>) = (r, s2)" by force
  ultimately show ?thesis
    using place_solo_sent [of "example_start\<lparr>sv_db := db\<rparr>" example_mkt shut_door None None
      "knock_until 1700000010000" exchange_init]
    by (cases r) (simp_all add: framed_def)
qed

theorem entry_passes_every_guard_witness:
  "on_tick (buy_price example_plan) (m_tick_size example_mkt) \<and>
   sw_wall shut_door < knock_until (first_started shut_door None)"
  using entry_passes_every_guard [OF prod.collapse [symmetric], of shut_door example_mkt 1700000010
      activation_trigger True None example_start]
  by (simp add: example_enters example_config_def)

subsection \<open>A market is entered once\<close>

text \<open>
  What can_start_entry_plan reads of a market: its state and whether orders of it are on record.
\<close>

lemma can_start_cases:
  "can_start_entry_plan slug db \<longleftrightarrow>
     (\<forall>row. table_find mr_slug slug (db_markets db) = Some row \<longrightarrow>
        mr_state row = ''placement_pending'' \<and> list_all (\<lambda>r. o_slug r \<noteq> slug) (db_orders db))"
  by (auto simp: can_start_entry_plan_def list_all_iff list_ex_iff split: option.splits)

text \<open>The row of a market that is closed for entries: some state other than the pending one.\<close>

definition closed_entry :: "string \<Rightarrow> bot_db \<Rightarrow> bool" where
  "closed_entry slug db \<longleftrightarrow>
     (\<exists>row. table_find mr_slug slug (db_markets db) = Some row \<and> mr_state row \<noteq> ''placement_pending'')"

lemma closed_entry_not_start: "closed_entry slug db \<Longrightarrow> \<not> can_start_entry_plan slug db"
  by (auto simp: closed_entry_def can_start_entry_plan_def)

lemma closed_entry_log [simp]: "closed_entry slug (log_event rid level type sl now db) = closed_entry slug db"
  by (simp add: closed_entry_def log_event_def)

lemma has_market_set_state [simp]: "has_market slug (set_market_state sl state error now db) = has_market slug db"
  by (simp add: has_market_def set_market_state_def)

lemma has_market_log [simp]: "has_market slug (log_event rid level type sl now db) = has_market slug db"
  by (simp add: has_market_def log_event_def)

lemma has_market_add: "add_order rid sl p now db = Return db' \<Longrightarrow> has_market slug db' = has_market slug db"
  by (auto simp: add_order_put put_order_def has_market_def split: if_splits)

lemma has_market_prepare: "prepare_market rid m state now db = Return db' \<Longrightarrow> has_market (m_slug m) db'"
  by (auto simp: prepare_market_def add_market_def has_market_def mr_slug_def split: if_splits)

lemma closed_entry_set_state:
  "has_market slug db \<Longrightarrow> state \<noteq> ''placement_pending'' \<Longrightarrow>
     closed_entry slug (set_market_state slug state error now db)"
  by (auto simp: closed_entry_def has_market_def set_market_state_def)

subsection \<open>What holds when a method returns\<close>

definition returns :: "(service \<Rightarrow> bool) \<Rightarrow> 'a svc \<Rightarrow> ('a \<Rightarrow> service \<Rightarrow> bool) \<Rightarrow> bool" where
  "returns P m Q \<longleftrightarrow> (\<forall>s x s'. P s \<longrightarrow> m s = (Return x, s') \<longrightarrow> Q x s')"

lemma returnsD: "returns P m Q \<Longrightarrow> P s \<Longrightarrow> m s = (Return x, s') \<Longrightarrow> Q x s'"
  by (simp add: returns_def)

lemma returns_bind: "returns P m R \<Longrightarrow> (\<And>x. returns (R x) (f x) Q) \<Longrightarrow> returns P (sbind m f) Q"
  by (fastforce simp: returns_def sbind_def split: prod.splits sum.splits)

lemma returns_then: "returns P m (\<lambda>_. R) \<Longrightarrow> returns R n Q \<Longrightarrow> returns P (sthen m n) Q"
  unfolding sthen_def by (rule returns_bind)

lemma returns_keeps: "keeps P m \<Longrightarrow> returns P m (\<lambda>_. P)"
  unfolding keeps_def returns_def by (metis snd_conv)

lemma returns_return: "(\<And>s. P s \<Longrightarrow> Q x s) \<Longrightarrow> returns P (sreturn x) Q"
  by (simp add: returns_def)

abbreviation known :: "string \<Rightarrow> service \<Rightarrow> bool" where
  "known slug s \<equiv> has_market slug (sv_db s)"

abbreviation closed_at :: "string \<Rightarrow> service \<Rightarrow> bool" where
  "closed_at slug s \<equiv> closed_entry slug (sv_db s)"

lemma keeps_known_record: "keeps (known slug) (record_orders w m orders)"
  by (auto simp: record_orders_def has_market_add intro!: keeps_intros keeps_db_try)

lemma keeps_known_pop: "keeps (known slug) (pop_retry sl)"
  by (simp add: pop_retry_def keeps_modify)

lemma keeps_closed_event: "keeps (closed_at slug) (event w level type sl)"
  by (simp add: keeps_def event_run)

lemma returns_set_state:
  "state \<noteq> ''placement_pending'' \<Longrightarrow>
     returns (known slug) (db_do (set_market_state slug state error now)) (\<lambda>_. closed_at slug)"
  by (auto simp: returns_def db_do_def smodify_def closed_entry_set_state)

lemma closes_after_pop:
  assumes "state \<noteq> ''placement_pending''"
  shows "returns (known slug)
    (sthen (pop_retry slug) (sthen (db_do (set_market_state slug state error now)) (event w level type sl)))
    (\<lambda>_. closed_at slug)"
  by (intro returns_then [OF returns_keeps [OF keeps_known_pop]] returns_then [OF returns_set_state [OF assms]]
      returns_keeps keeps_closed_event)

lemma succeeded_closes: "returns (known (m_slug m)) (placement_succeeded w m) (\<lambda>_. closed_at (m_slug m))"
  unfolding placement_succeeded_def by (rule closes_after_pop) simp

lemma failed_closes: "returns (known (m_slug m)) (placement_failed w m error) (\<lambda>_. closed_at (m_slug m))"
  unfolding placement_failed_def by (rule closes_after_pop) simp

lemma prepare_row_known: "returns (\<lambda>_. True) (prepare_row w m state) (\<lambda>_. known (m_slug m))"
  by (auto simp: returns_def prepare_row_def db_try_def dest: has_market_prepare split: sum.splits)

lemma skip_closes: "returns P (skip_market w m reason) (\<lambda>_. closed_at (m_slug m))"
proof -
  have "returns P (pop_retry (m_slug m)) (\<lambda>_ _. True)" by (simp add: returns_def)
  moreover have "returns (known (m_slug m))
     (sthen (db_do (set_market_state (m_slug m) ''skipped'' (Some reason) (wall_ts w)))
       (event w ''WARNING'' ''market_skipped'' (Some (m_slug m)))) (\<lambda>_. closed_at (m_slug m))"
    by (rule returns_then [OF returns_set_state returns_keeps [OF keeps_closed_event]]) simp
  ultimately show ?thesis
    unfolding skip_market_def by (blast intro: returns_then prepare_row_known)
qed

text \<open>A requeued market: its retry is on record and its update is the last in the queue.\<close>

definition waits :: "market \<Rightarrow> service \<Rightarrow> bool" where
  "waits m s \<longleftrightarrow>
     known (m_slug m) s \<and> dict_get (sv_placement_retries s) (m_slug m) \<noteq> None \<and>
     sv_activation_updates s \<noteq> [] \<and> au_market (last (sv_activation_updates s)) = m"

lemma requeue_waits:
  "returns (known (m_slug m)) (requeue_placement w m result retry details)
     (\<lambda>again s. if again then waits m s else known (m_slug m) s)"
  by (auto simp: returns_def requeue_placement_def waits_def set_retry_def requeued_def sthen_def
      sbind_def smodify_def db_do_def event_run dict_simps split: option.splits)

lemma returns_get: "(\<And>s0. returns P (f s0) Q) \<Longrightarrow> returns P (sbind sget f) Q"
  by (simp add: returns_def)

lemma returns_weaken: "returns P m Q \<Longrightarrow> (\<And>x s. Q x s \<Longrightarrow> R x s) \<Longrightarrow> returns P m R"
  by (simp add: returns_def)

lemma keeps_known_send: "keeps (known slug) (send x)"
  by (simp add: send_def keeps_modify)

lemma keeps_known_backend: "keeps (known slug) (smodify (\<lambda>s. s\<lparr>sv_backend := b\<rparr>))"
  by (simp add: keeps_modify)

text \<open>How a placement that returns ends.\<close>

abbreviation ended :: "market \<Rightarrow> service \<Rightarrow> bool" where
  "ended m s \<equiv> closed_at (m_slug m) s \<or> waits m s"

lemma closes_ends: "returns P n (\<lambda>_. closed_at (m_slug m)) \<Longrightarrow> returns P n (\<lambda>_. ended m)"
  by (auto simp: returns_def)

lemmas ends_intros = closes_ends [OF succeeded_closes] closes_ends [OF failed_closes] closes_ends [OF skip_closes]

lemma requeue_or_fail:
  "returns (known (m_slug m))
     (sbind (requeue_placement w m result retry details) (\<lambda>again.
        if again then sreturn () else placement_failed w m error))
     (\<lambda>_. ended m)"
proof (rule returns_bind [OF requeue_waits])
  fix again
  show "returns (\<lambda>s. if again then waits m s else known (m_slug m) s)
     (if again then sreturn () else placement_failed w m error) (\<lambda>_. ended m)"
    using failed_closes by (cases again) (auto simp: returns_def)
qed

lemma place_solo_ends:
  "returns (known (m_slug m)) (place_solo w m details retry until ex) (\<lambda>_. ended m)"
proof -
  have tail: "returns (known (m_slug m))
        (if complete result then placement_succeeded w m
         else if pr_gave_up result \<and> pr_orders result = [] then
           skip_market w m ''no acceptance within 240 s of knocking''
         else sbind (requeue_placement w m result retry details) (\<lambda>again.
           if again then sreturn () else placement_failed w m (pr_error result)))
        (\<lambda>_. ended m)" for result
    by (simp add: ends_intros requeue_or_fail)
  show ?thesis
    unfolding place_solo_def
    by (intro returns_then [OF returns_keeps [OF keeps_known_send]] returns_get)
      (split prod.split, intro allI impI returns_then [OF returns_keeps [OF keeps_known_backend]]
        returns_then [OF returns_keeps [OF keeps_known_record]] tail)
qed

lemma place_with_fleet_ends:
  "returns (known (m_slug m)) (place_with_fleet w m details retry until fl)
     (\<lambda>_. ended m)"
proof -
  have kept: "returns (known (m_slug m))
     (sthen (record_orders w m (fp_orders fp))
             (if fp_kept fp \<noteq> None then placement_succeeded w m
              else if fp_gave_up fp then skip_market w m (gave_up_reason (fp_preview fp) (Some until))
              else sbind (requeue_placement w m (fleet_result fp) retry details) (\<lambda>again.
                if again then sreturn () else placement_failed w m (fp_error fp))))
        (\<lambda>_. ended m)" for fp
    by (rule returns_then [OF returns_keeps [OF keeps_known_record]]) (simp add: ends_intros requeue_or_fail)
  have "returns (known (m_slug m))
     (case answer of Inl e \<Rightarrow> placement_failed w m (Some (exn_text e))
         | Inr fp \<Rightarrow>
             sthen (record_orders w m (fp_orders fp))
             (if fp_kept fp \<noteq> None then placement_succeeded w m
              else if fp_gave_up fp then skip_market w m (gave_up_reason (fp_preview fp) (Some until))
              else sbind (requeue_placement w m (fleet_result fp) retry details) (\<lambda>again.
                if again then sreturn () else placement_failed w m (fp_error fp))))
        (\<lambda>_. ended m)" for answer
    using kept ends_intros(2) by (cases answer) simp_all
  then show ?thesis
    unfolding place_with_fleet_def
    by (intro returns_then [OF returns_keeps [OF keeps_known_send]] returns_get)
      (split prod.split, intro allI impI returns_then [OF returns_keeps [OF keeps_known_backend]])
qed

lemma place_dry_known: "keeps (known slug) (place_dry w m)"
  by (auto simp: place_dry_def intro!: keeps_intros keeps_known_record keeps_db_do)

lemma enter_market_ends:
  assumes "retry = None \<or> known (m_slug m) s" "sc_live (sv_config s)"
    and "enter_market w m details retry until s = (Return x, s')"
  shows "ended m s'"
proof -
  obtain r1 s1 where s1: "swhen (retry = None) (prepare_row w m ''placing'') s = (r1, s1)" by force
  have "keeps (framed (sv_sent s) (sv_config s)) (swhen (retry = None) (prepare_row w m ''placing''))"
    by (auto simp: prepare_row_def intro!: framed_intros)
  from keepsD [OF this framedI] have cfg: "sv_config s1 = sv_config s" by (simp add: s1 framed_def)
  from assms(3) obtain u where r1: "r1 = Return u"
    by (cases r1) (auto simp: enter_market_run s1)
  have k: "known (m_slug m) s1"
  proof (cases "retry = None")
    case True
    then show ?thesis using returnsD [OF prepare_row_known _ s1 [unfolded r1 True, simplified]] by simp
  next
    case False
    then show ?thesis using s1 assms(1) by (auto simp: swhen_def)
  qed
  show ?thesis
  proof (cases "sv_backend s1")
    case DryRun
    with assms(2,3) k show ?thesis
      using returnsD [OF ends_intros(2)] by (simp add: enter_market_run s1 r1 cfg)
  next
    case (Solo ex)
    with assms(2,3) k show ?thesis
      using returnsD [OF place_solo_ends] by (simp add: enter_market_run s1 r1 cfg)
  next
    case (Many fl)
    with assms(2,3) k show ?thesis
      using returnsD [OF place_with_fleet_ends] by (simp add: enter_market_run s1 r1 cfg)
  qed
qed

lemma keeps_known_door: "keeps (known slug) (door_already_open w m)"
  by (auto simp: door_already_open_def keeps_def event_run split: sum.splits)

lemma place_ends:
  assumes "place w m trigger details s = (Return (), s')" "sc_live (sv_config s)"
    and "dict_get (sv_placement_retries s) (m_slug m) = None \<or> known (m_slug m) s"
  shows "ended m s'"
proof (cases "trigger = activation_trigger")
  case False
  with assms(1) have "enter_market w m details (dict_get (sv_placement_retries s) (m_slug m))
      (knock_until (first_started w (dict_get (sv_placement_retries s) (m_slug m)))) s = (Return (), s')"
    by (simp add: place_def Let_def)
  then show ?thesis by (rule enter_market_ends [OF assms(3,2)])
next
  case True
  let ?retry = "dict_get (sv_placement_retries s) (m_slug m)"
  obtain rd s1 where door: "door_already_open w m s = (rd, s1)" by force
  have "framed (sv_sent s) (sv_config s) (snd (door_already_open w m s))"
    by (rule keepsD [OF framed_door framedI])
  then have live: "sc_live (sv_config s1)" using assms(2) by (simp add: door framed_def)
  have k: "?retry = None \<or> known (m_slug m) s1"
    using assms(3) keepsD [OF keeps_known_door, of "m_slug m" s w m] by (auto simp: door)
  show ?thesis
    using assms(1) returnsD [OF ends_intros(3)] enter_market_ends [OF k live]
    by (auto simp: place_run [OF assms(2) True door] Let_def split: if_splits sum.splits)
qed

text \<open>
  C6. A market is entered once: after a pass that handed an entry over and returned, the
  market either cannot be started again, or it waits as a retry, without any order on record
  and with its update at the end of the queue.
\<close>

theorem market_entered_once:
  assumes "consider_market w m now_ts trigger ready details s = (Return go, s')" "sv_sent s' \<noteq> sv_sent s"
    and "dict_get (sv_placement_retries s) (m_slug m) \<noteq> None \<longrightarrow> has_market (m_slug m) (sv_db s)"
  shows "\<not> can_start_entry_plan (m_slug m) (sv_db s') \<or>
    list_all (\<lambda>r. o_slug r \<noteq> m_slug m) (db_orders (sv_db s')) \<and>
    dict_get (sv_placement_retries s') (m_slug m) \<noteq> None \<and>
    sv_activation_updates s' \<noteq> [] \<and> au_market (last (sv_activation_updates s')) = m"
proof -
  have "place w m trigger details s = (Return (), s')" and live: "sc_live (sv_config s)"
    using consider_market_placed [OF assms(1,2)] entry_passes_guards [OF assms(1,2)] by blast+
  from place_ends [OF this(1) live] assms(3) have "ended m s'" by blast
  then show ?thesis
  proof
    assume "closed_at (m_slug m) s'"
    then show ?thesis by (simp add: closed_entry_not_start)
  next
    assume "waits m s'"
    moreover from this obtain row where "table_find mr_slug (m_slug m) (db_markets (sv_db s')) = Some row"
      by (auto simp: waits_def has_market_def)
    ultimately show ?thesis
      by (cases "can_start_entry_plan (m_slug m) (sv_db s')") (simp_all add: waits_def can_start_cases)
  qed
qed

lemma example_submit:
  "\<exists>ex. submit_dual shut_door example_config example_mkt until exchange_init =
     (placement [] (Some (exn_text (IndexError ''list index out of range''))), ex)"
  by (simp add: submit_dual_def place_dual_def prepare_entry_def exchange_init_def prime_tick_size_def
      shut_door_def example_answers_def example_signs entry_from_def entry_specifications_def Let_def
      example_config_def quiet_venue_def)

lemma example_enters_returns:
  "fst (consider_market shut_door example_mkt 1700000010 activation_trigger True None example_start) = Return True"
proof -
  let ?until = "knock_until 1700000010000"
  obtain ex where sub: "submit_dual shut_door example_config example_mkt ?until exchange_init =
     (placement [] (Some (exn_text (IndexError ''list index out of range''))), ex)"
    using example_submit by blast
  have "fst (place_solo shut_door example_mkt None None ?until exchange_init (example_start\<lparr>sv_db := db\<rparr>)) = Return ()" for db
    by (simp add: place_solo_def sub record_orders_def complete_def requeue_placement_def
        placement_failed_def pop_retry_def event_run)
  moreover obtain db where "consider_market shut_door example_mkt 1700000010 activation_trigger True None example_start =
     (case place_solo shut_door example_mkt None None ?until exchange_init (example_start\<lparr>sv_db := db\<rparr>) of
        (Inl e, s') \<Rightarrow> (Raise e, s') | (Inr _, s') \<Rightarrow> (Return True, s'))"
    using example_enters_run by blast
  moreover obtain r s2 where "place_solo shut_door example_mkt None None ?until exchange_init
      (example_start\<lparr>sv_db := db\<rparr>) = (r, s2)" by force
  ultimately show ?thesis by (metis (no_types, lifting) fst_conv old.sum.simps(6) prod.case)
qed

theorem market_entered_once_witness:
  "\<exists>s'. consider_market shut_door example_mkt 1700000010 activation_trigger True None example_start = (Return True, s') \<and>
     (\<not> can_start_entry_plan (m_slug example_mkt) (sv_db s') \<or> sv_activation_updates s' \<noteq> [])"
proof -
  obtain s' where s': "consider_market shut_door example_mkt 1700000010 activation_trigger True None example_start =
      (Return True, s')"
    using example_enters_returns by (metis prod.collapse)
  have "sv_sent s' \<noteq> sv_sent example_start" using example_enters by (simp add: s')
  from market_entered_once [OF s' this] s' show ?thesis by auto
qed

subsection \<open>A reconciled single-leg entry\<close>

text \<open>
  C36. A run that trades one leg and loses the reply: reconciliation finds the one order on the
  book and reports it complete, but the service rebuilds the result without the number of
  orders it expects, takes it for half of a pair, and marks the market as failed although the
  accepted order is on record.
\<close>

theorem solo_reconciled_entry_marked_failed:
  assumes "place_dual (sw_venue w) (fst (sw_signing w)) (snd (sw_signing w)) m (buy_price (sc_plan c))
      (order_size (sc_plan c)) (Some (sc_placement_interval_ms c)) (Some until) (sw_wall w) ex =
      (Raise (AmbiguousPlacement msg retryable attempts), ex1)"
    and "reconcile_ambiguous_dual (sw_venue w) m (buy_price (sc_plan c)) (order_size (sc_plan c)) retryable ex1 =
      (Return found, ex2)"
    and "pr_orders found = [p]" "complete found"
    and "sv_config s = c" "known (m_slug m) s" "has_run (sv_run_id s) (sv_db s)"
  shows "\<exists>s'. place_solo w m details retry until ex s = (Return (), s') \<and>
    db_order (po_order_id p) (sv_db s') = Some (order_row_of (sv_run_id s) (m_slug m) p (wall_ts w)) \<and>
    map_option mr_state (table_find mr_slug (m_slug m) (db_markets (sv_db s'))) = Some ''error''"
proof -
  have found: "pr_error found = None" using assms(4) by (simp add: complete_def)
  have sub: "submit_dual w c m until ex =
     ((placement [p] None)\<lparr>pr_retryable := pr_retryable found, pr_attempts := attempts\<rparr>, ex2)"
    using assms(1-3) found by (simp add: submit_dual_def Let_def)
  let ?row = "order_row_of (sv_run_id s) (m_slug m) p (wall_ts w)"
  have add: "add_order (sv_run_id s) (m_slug m) p (wall_ts w) (sv_db s) = Return (put_order ?row (sv_db s))"
    using assms(6,7) by (simp add: add_order_put)
  obtain s' where run: "place_solo w m details retry until ex s = (Return (), s')"
    and db: "sv_db s' = log_event (Some (sv_run_id s)) ''ERROR'' ''placement_failed'' (Some (m_slug m)) (wall_ts w)
        (set_market_state (m_slug m) ''error'' None (wall_ts w) (put_order ?row (sv_db s)))"
    by (auto simp: place_solo_def assms(5) sub record_orders_def add complete_def requeue_placement_def
        placement_failed_def pop_retry_def event_run)
  have "db_order (po_order_id p) (sv_db s') = Some ?row"
    by (simp add: db) (simp add: db_order_def set_market_state_def order_store.get_put [unfolded db_order_def])
  moreover have "table_find mr_slug (m_slug m) (db_markets (put_order ?row (sv_db s))) \<noteq> None"
    using assms(6) by (simp add: has_market_def put_order_def)
  then have "map_option mr_state (table_find mr_slug (m_slug m) (db_markets (sv_db s'))) = Some ''error''"
    by (auto simp: db log_event_def set_market_state_def)
  ultimately show ?thesis using run by blast
qed

subsection \<open>A full cap drops activated markets\<close>

text \<open>
  C37. While a cap is reached, the markets the activation worker announced are not kept: the
  first one that passes the other guards ends the pass, and neither it nor those behind it are
  in the queue afterwards.
\<close>

theorem full_cap_drops_activations:
  assumes "sv_activation_updates s = u # us" "over_caps (ws 0) s"
    and "is_eligible (au_market u) (sv_run_started_ts s) now_ts"
    and "can_start_entry_plan (m_slug (au_market u)) (sv_db s)"
    and "on_tick (buy_price (plan_of s)) (m_tick_size (au_market u))"
    and "list_all (\<lambda>t. on_tick (et_price t) (m_tick_size (au_market u))) (exit_targets (plan_of s))"
    and "m_min_size (au_market u) \<le> order_size (plan_of s)"
  shows "place_activated_markets now_ts ws s = (Return (), s\<lparr>sv_activation_updates := []\<rparr>)"
proof -
  let ?s = "s\<lparr>sv_activation_updates := []\<rparr>"
  have "any_off_tick (exit_targets (plan_of s)) (m_tick_size (au_market u)) = Return False"
    using assms(6) unfolding any_off_tick_False .
  moreover have "over_caps (ws 0) ?s" using assms(2) by (simp add: over_caps_def split: option.splits)
  ultimately have "consider_market (ws 0) (au_market u) now_ts activation_trigger True details ?s = (Return False, ?s)"
    for details
    using assms(3-7) by (simp add: consider_market_def on_tick_def)
  then show ?thesis
    by (simp add: place_activated_markets_def assms(1)) (simp add: sbind_def)
qed

text \<open>A capped run, and a run that trades the Up leg alone and loses a reply.\<close>

definition example_capped :: service where
  "example_capped = example_start\<lparr>sv_config := example_config\<lparr>sc_max_reserved_usd := Some 1\<rparr>,
     sv_activation_updates := [\<lparr>au_market = example_mkt, au_discovered_ts_ms = 0, au_detected_ts_ms = 1\<rparr>]\<rparr>"

theorem full_cap_drops_activations_witness:
  "sv_activation_updates (snd (place_activated_markets 1700000010 (\<lambda>_. shut_door) example_capped)) = []"
proof -
  have c: "sv_config example_capped = example_config\<lparr>sc_max_reserved_usd := Some 1\<rparr>"
    "sv_db example_capped = sv_db example_start" "sv_run_started_ts example_capped = 1700000000"
    by (simp_all add: example_capped_def)
  have plan: "plan_of example_capped = example_plan" by (simp add: c example_config_def)
  have caps: "over_caps shut_door example_capped" by code_simp
  have el: "is_eligible example_mkt 1700000000 1700000010" by (simp add: is_eligible_def example_mkt_def)
  have u: "sv_activation_updates example_capped =
      [\<lparr>au_market = example_mkt, au_discovered_ts_ms = 0, au_detected_ts_ms = 1\<rparr>]"
    by (simp add: example_capped_def)
  show ?thesis
    using full_cap_drops_activations [OF u, of "\<lambda>_. shut_door" 1700000010] caps el example_guards
    unfolding any_off_tick_False by (simp add: c plan on_tick_def example_config_def)
qed

definition lost_reply :: member_outcome where
  "lost_reply =
     \<lparr>mo_account = ''primary'', mo_attempts = 7, mo_held_back = 0, mo_registered_ms = None,
      mo_accepted = [], mo_ambiguous = [KnockText ''timeout''], mo_errors = [], mo_gave_up = False\<rparr>"

definition losing_venue :: venue where
  "losing_venue = quiet_venue\<lparr>ve_knock := (\<lambda>_. Return [lost_reply]),
     ve_open_orders := (\<lambda>_. Return [example_open ''0xa'' ''111''])\<rparr>"

definition losing_world :: world where
  "losing_world = example_answers\<lparr>sw_venue := losing_venue\<rparr>"

definition solo_config :: service_config where
  "solo_config = example_config\<lparr>sc_plan := \<lparr>buy_price = 1/2, exit_targets = [], usd_per_side = 5\<rparr>,
     sc_entry_submission := ''solo-up''\<rparr>"

definition solo_exchange :: exchange where
  "solo_exchange = exchange_init\<lparr>ex_entry_submission := ''solo-up''\<rparr>"

definition solo_service :: service where
  "solo_service = example_service\<lparr>sv_config := solo_config, sv_backend := Solo solo_exchange\<rparr>"

lemma solo_size: "order_size (sc_plan solo_config) = 10" "buy_price (sc_plan solo_config) = 1/2"
  by (simp_all add: solo_config_def order_size_def dec_eval)

lemma solo_knock:
  "\<exists>msg ex1. place_dual losing_venue example_signing 0 example_mkt (1/2) 10 (Some 25) (Some until) 1700000010
       solo_exchange = (Raise (AmbiguousPlacement msg True 7), ex1) \<and> ex_entry_submission ex1 = ''solo-up''"
  by (simp add: place_dual_def prepare_entry_def solo_exchange_def exchange_init_def prime_tick_size_def
      example_signs entry_from_def entry_specifications_def Let_def losing_venue_def settle_entry_def
      settle_result_def lost_reply_def)

lemma solo_reconcile:
  assumes "ex_entry_submission ex1 = ''solo-up''"
  shows "\<exists>found p ex2. reconcile_ambiguous_dual losing_venue example_mkt (1/2) 10 True ex1 = (Return found, ex2) \<and>
    pr_orders found = [p] \<and> complete found \<and> po_order_id p = ''0xa''"
proof -
  have specs: "entry_specifications ex1 example_mkt = [(''up'', ''111'')]"
    using assms by (simp add: entry_specifications_def example_mkt_def)
  have ref: "order_ref losing_venue (example_open oid token) = Return (JStr oid)" for oid token
    by (simp add: order_ref_def order_id_of_def losing_venue_def quiet_venue_def example_open_def pget_def)
  have opn: "ve_open_orders losing_venue c = Return [example_open ''0xa'' ''111'']" for c
    by (simp add: losing_venue_def)
  have ms: "dual_matches [(''111'', ''up'')] (1/2) 10 [example_read ''0xa'' ''111''] =
      [(''111'', [example_open ''0xa'' ''111''])]"
    by (simp add: dual_matches_def is_ours_def example_read_def)
  have d: "dict_of_pairs [(''111'', ''up'')] = [(''111'', ''up'')]"
    by (simp add: dict_of_pairs_def dict_set_def)
  show ?thesis
    by (simp add: reconcile_ambiguous_dual_def specs opn example_open_reads d ms ref Let_def complete_def)
qed

theorem solo_reconciled_entry_marked_failed_witness:
  "\<exists>s' p. place_solo losing_world example_mkt None None 1700000250 solo_exchange solo_service = (Return (), s') \<and>
     db_order ''0xa'' (sv_db s') \<noteq> None \<and>
     map_option mr_state (table_find mr_slug (m_slug example_mkt) (db_markets (sv_db s'))) = Some ''error''"
proof -
  obtain msg ex1 where k: "place_dual losing_venue example_signing 0 example_mkt (1/2) 10 (Some 25) (Some 1700000250)
      1700000010 solo_exchange = (Raise (AmbiguousPlacement msg True 7), ex1)"
    and e: "ex_entry_submission ex1 = ''solo-up''" using solo_knock by blast
  obtain found p ex2 where r: "reconcile_ambiguous_dual losing_venue example_mkt (1/2) 10 True ex1 = (Return found, ex2)"
    and p: "pr_orders found = [p]" "complete found" "po_order_id p = ''0xa''" using solo_reconcile [OF e] by blast
  have w: "sw_venue losing_world = losing_venue" "sw_signing losing_world = (example_signing, 0)"
    "sw_wall losing_world = 1700000010" "sc_placement_interval_ms solo_config = 25"
    by (simp_all add: losing_world_def example_answers_def solo_config_def example_config_def)
  have s: "sv_config solo_service = solo_config" "known (m_slug example_mkt) solo_service"
    "has_run (sv_run_id solo_service) (sv_db solo_service)"
    by (simp_all add: solo_service_def example_service_def has_market_def has_run_def example_db_rows
        table_find_def mr_slug_def)
  from solo_reconciled_entry_marked_failed [of losing_world example_mkt solo_config, unfolded w solo_size fst_conv snd_conv,
      OF k r p(1,2) s] p(3)
  show ?thesis by force
qed

end
