(* ===== verification/Service.thy ===== *)
theory Service
  imports Service_Place Order_Following
begin

text \<open>
  \<open>BotService\<close> as a whole: its construction, one tick of the loop, the run and its shutdown.
  A tick is given what each worker's queue holds when it is drained, the health flags as they
  are read later in the tick, the state of the reconciliation worker when a batch is submitted,
  and what the outside answers in each of its stages.
\<close>

subsection \<open>Construction\<close>

text \<open>
  \<open>knock_library\<close> is the outcome of loading the knock library, \<open>fresh\<close> the exchange made
  from the configuration.
\<close>

definition submit_as :: "string \<Rightarrow> fleet \<Rightarrow> fleet" where
  "submit_as submission fl = fl\<lparr>fl_members := map (\<lambda>m. m\<lparr>fm_exchange :=
     (fm_exchange m)\<lparr>ex_entry_submission := submission\<rparr>\<rparr>) (fl_members fl)\<rparr>"

definition init_backend :: "service_config \<Rightarrow> fleet option \<Rightarrow> exchange \<Rightarrow> exn + backend" where
  "init_backend c fl fresh =
     (if \<not> sc_live c then Return DryRun
      else case fl of
        Some fl \<Rightarrow>
          if \<not> buy_only (sc_plan c) then Raise (ValueError ''fleet mode supports buy-only plans for now'')
          else Return (Many (submit_as (sc_entry_submission c) fl))
      | None \<Rightarrow> Return (Solo (fresh\<lparr>ex_entry_submission := sc_entry_submission c\<rparr>)))"

definition service_init ::
  "service_config \<Rightarrow> bot_db \<Rightarrow> fleet option \<Rightarrow> exchange \<Rightarrow> exn + unit \<Rightarrow> world \<Rightarrow> exn + service" where
  "service_init c db fl fresh knock_library w =
     rbind (if sc_live c then knock_library else Return ()) (\<lambda>_.
     rbind (init_backend c fl fresh) (\<lambda>b.
       Return \<lparr>sv_config = c, sv_db = db, sv_backend = b, sv_activation_updates = [],
         sv_placement_retries = [], sv_run_id = 0, sv_run_started_ts = wall_ts w,
         sv_last_discovery = 0, sv_last_reconcile = 0, sv_wake = False, sv_sent = []\<rparr>))"

text \<open>The clock the fleet is given: the first stream that knows when the order registered.\<close>

fun registration_clock :: "user_stream list \<Rightarrow> string \<Rightarrow> int option" where
  "registration_clock [] oid = None"
| "registration_clock (u # us) oid =
     (case registered_ts_ms u oid of Some stamp \<Rightarrow> Some stamp | None \<Rightarrow> registration_clock us oid)"

subsection \<open>One tick\<close>

record tick_input =
  tk_now :: rat
  tk_activation :: "act_update list"
  tk_recon :: "recon_update list"
  tk_stream :: "user_update list"
  tk_member_streams :: "user_update list list"
  tk_geoblock :: "geoblock_update list"
  tk_geoblock_healthy :: bool
  tk_stream_healthy :: bool
  tk_recon_worker :: recon_worker
  tk_follow :: world
  tk_place_now_ts :: int
  tk_place :: "nat \<Rightarrow> world"
  tk_discovery :: world
  tk_discovered :: "nat \<Rightarrow> world"
  tk_interrupted :: bool

definition stream_updates :: "user_update list \<Rightarrow> user_update list list \<Rightarrow> (bool \<times> user_update) list" where
  "stream_updates main members = map (Pair True) main @ map (Pair False) (concat members)"

text \<open>The rows of a batch: everything tracked that is not simulated.\<close>

definition batch :: "tracked list \<Rightarrow> snapshot list" where
  "batch rows = map (\<lambda>(r, m). \<lparr>sn_order_id = o_order_id r, sn_slug = o_slug r, sn_size = o_size r\<rparr>)
     (filter (\<lambda>(r, m). o_status r \<noteq> ''simulated'') rows)"

definition set_last_reconcile :: "rat \<Rightarrow> unit svc" where
  "set_last_reconcile now = smodify (\<lambda>s. s\<lparr>sv_last_reconcile := now\<rparr>)"

text \<open>The poll of the orders; the value is the reconciliation worker as it is left.\<close>

definition poll_orders :: "tick_input \<Rightarrow> bool \<Rightarrow> recon_worker svc" where
  "poll_orders t recovered =
     sbind sget (\<lambda>s.
     if \<not> (recovered \<or> sc_order_poll_seconds (sv_config s) \<le> tk_now t - sv_last_reconcile s) then
       sreturn (tk_recon_worker t)
     else if has_exchange s then
       (case submit (batch (tracked_open_orders (sv_db s))) (tk_recon_worker t) of (taken, worker) \<Rightarrow>
          sthen (swhen taken (set_last_reconcile (tk_now t))) (sreturn worker))
     else sthen (reconcile (tk_follow t))
       (sthen (set_last_reconcile (tk_now t)) (sreturn (tk_recon_worker t))))"

definition follow_orders :: "tick_input \<Rightarrow> recon_worker svc" where
  "follow_orders t =
     sbind sget (\<lambda>s.
     sthen (swhen (has_exchange s) (drain_reconciliation_updates (tk_follow t) (tk_recon t)))
     (sbind (if sc_live (sv_config s)
             then drain_user_stream_updates (tk_follow t) (stream_updates (tk_stream t) (tk_member_streams t))
             else sreturn False) (\<lambda>recovered.
     sthen (drain_geoblock_updates (tk_follow t) (tk_geoblock t))
     (sthen (cancel_due_orders (tk_follow t)) (poll_orders t recovered)))))"

definition tick_healthy :: "tick_input \<Rightarrow> service \<Rightarrow> bool" where
  "tick_healthy t s \<longleftrightarrow>
     \<not> sc_live (sv_config s) \<or> (\<not> has_exchange s \<or> tk_geoblock_healthy t) \<and> tk_stream_healthy t"

definition place_entries :: "tick_input \<Rightarrow> unit svc" where
  "place_entries t =
     sbind sget (\<lambda>s.
     sthen (swhen (tick_healthy t s) (place_activated_markets (tk_place_now_ts t) (tk_place t)))
     (sbind sget (\<lambda>s'.
       swhen (tick_healthy t s \<and> \<not> activation_probe s' \<and>
              sc_discovery_seconds (sv_config s') \<le> tk_now t - sv_last_discovery s')
         (sthen (discover_and_place (tk_discovery t) (tk_discovered t))
           (smodify (\<lambda>s. s\<lparr>sv_last_discovery := tk_now t\<rparr>))))))"

definition tick :: "tick_input \<Rightarrow> recon_worker svc" where
  "tick t =
     sthen (drain_market_activation_updates (tk_follow t) (tk_activation t))
     (sbind (follow_orders t) (\<lambda>worker.
       sthen (place_entries t) (sreturn worker)))"

subsection \<open>The run\<close>

text \<open>
  The loop over ticks: \<open>None\<close> while it goes on, else how it was left: by the exception of a
  tick, or by Ctrl+C, held during a knock or arriving in the wait.
\<close>

fun run_loop :: "tick_input list \<Rightarrow> service \<Rightarrow> ((exn + unit) \<times> service) option" where
  "run_loop [] s = None"
| "run_loop (t # ts) s =
     (case tick t (s\<lparr>sv_wake := False\<rparr>) of
        (Inl e, s') \<Rightarrow> Some (Raise e, s')
      | (Inr _, s') \<Rightarrow> if tk_interrupted t then Some (Return (), s') else run_loop ts s')"

definition begin_run :: "world \<Rightarrow> service \<Rightarrow> service" where
  "begin_run w s =
     (case start_run (if sc_live (sv_config s) then ''live'' else ''dry-run'') (wall_ts w) (sv_db s) of
        (rid, db) \<Rightarrow> snd (event w ''INFO'' ''run_started'' None (s\<lparr>sv_run_id := rid, sv_db := db\<rparr>)))"

definition record_failure :: "world \<Rightarrow> exn \<Rightarrow> unit svc" where
  "record_failure w e =
     sbind sget (\<lambda>s.
     sthen (db_do (stop_run (sv_run_id s) ''failed'' (Some (exn_text e)) (wall_ts w)))
       (event w ''ERROR'' ''run_failed'' None))"

definition close_run_row :: "world \<Rightarrow> unit svc" where
  "close_run_row w =
     sbind sget (\<lambda>s.
       case table_find r_id (sv_run_id s) (db_runs (sv_db s)) of
         None \<Rightarrow> sreturn ()
       | Some row \<Rightarrow> swhen (r_status row = ''running'')
           (db_do (stop_run (sv_run_id s) ''stopped'' None (wall_ts w))))"

text \<open>The \<open>finally\<close> block: what the stopped workers left is drained, then orders are cancelled.\<close>

definition finish_run :: "tick_input \<Rightarrow> bool \<Rightarrow> unit svc" where
  "finish_run t cancel_on_shutdown =
     sbind sget (\<lambda>s.
     sthen (drain_market_activation_updates (tk_follow t) (tk_activation t))
     (sthen (swhen (has_exchange s) (drain_reconciliation_updates (tk_follow t) (tk_recon t)))
     (sthen (swhen (sc_live (sv_config s))
        (sthen (drain_user_stream_updates (tk_follow t)
           (stream_updates (tk_stream t) (tk_member_streams t))) (sreturn ())))
     (sthen (swhen cancel_on_shutdown (cancel_tracked_orders (tk_follow t)))
       (close_run_row (tk_follow t))))))"

definition run :: "world \<Rightarrow> tick_input list \<Rightarrow> tick_input \<Rightarrow> service \<Rightarrow> ((exn + unit) \<times> service) option" where
  "run w ticks last_drain s =
     (case run_loop ticks (begin_run w s) of
        None \<Rightarrow> None
      | Some (outcome, s) \<Rightarrow>
          (case sthen (case outcome of Inl e \<Rightarrow> record_failure (tk_follow last_drain) e | Inr _ \<Rightarrow> sreturn ())
                  (finish_run last_drain (outcome = Return ())) s of
             (Inl e, s') \<Rightarrow> Some (Raise e, s')
           | (Inr _, s') \<Rightarrow> Some (outcome, s')))"

text \<open>The shutdown without its last step, which closes the row of the run.\<close>

definition finish_work :: "tick_input \<Rightarrow> bool \<Rightarrow> unit svc" where
  "finish_work t cancel_on_shutdown =
     sbind sget (\<lambda>s.
     sthen (drain_market_activation_updates (tk_follow t) (tk_activation t))
     (sthen (swhen (has_exchange s) (drain_reconciliation_updates (tk_follow t) (tk_recon t)))
     (sthen (swhen (sc_live (sv_config s))
        (sthen (drain_user_stream_updates (tk_follow t)
           (stream_updates (tk_stream t) (tk_member_streams t))) (sreturn ())))
       (swhen cancel_on_shutdown (cancel_tracked_orders (tk_follow t))))))"

lemma finish_run_split: "finish_run t cancel = sthen (finish_work t cancel) (close_run_row (tk_follow t))"
  by (simp add: fun_eq_iff finish_run_def finish_work_def)

subsection \<open>What the loop keeps\<close>

context service_law
begin

lemma keeps_last_reconcile: "keeps L (set_last_reconcile now)"
  by (simp add: set_last_reconcile_def keeps_modify reconciled)

lemma keeps_poll: "keeps L (poll_orders t recovered)"
  by (auto simp: poll_orders_def intro!: law_intros keeps_last_reconcile keeps_reconcile split: prod.splits)

lemma keeps_follow: "keeps L (follow_orders t)"
  by (auto simp: follow_orders_def intro!: order_law_intros keeps_drain_geoblock keeps_poll law_intros)

lemma keeps_entries: "keeps L (place_entries t)"
  by (auto simp: place_entries_def intro!: law_intros keeps_place_activated keeps_discover)

lemma keeps_tick: "keeps L (tick t)"
  by (auto simp: tick_def intro!: keeps_drain_activation keeps_follow keeps_entries law_intros)

lemma keeps_run_loop:
  "run_loop ts s = Some (r, s') \<Longrightarrow> L s \<Longrightarrow> L s'"
proof (induction ts arbitrary: s)
  case Nil
  then show ?case by simp
next
  case (Cons t ts)
  have "L (snd (tick t (s\<lparr>sv_wake := False\<rparr>)))" by (rule keepsD [OF keeps_tick wake [OF Cons.prems(2)]])
  with Cons show ?case by (auto split: prod.splits sum.splits if_splits)
qed

lemma keeps_finish_work: "keeps L (finish_work t cancel)"
  by (auto simp: finish_work_def intro!: order_law_intros keeps_drain_activation law_intros)

end

context run_law
begin

lemma keeps_finish: "keeps L (finish_run t cancel)"
  by (auto simp: finish_run_split close_run_row_def intro!: keeps_finish_work keeps_stop_run law_intros
      split: option.splits)

lemma keeps_record_failure: "keeps L (record_failure w e)"
  by (auto simp: record_failure_def intro!: keeps_stop_run law_intros)

end

subsection \<open>The database through a run\<close>

lemma begin_run_db:
  "sv_db (begin_run w s) = db_exec (LogEvent (Some (sv_run_id (begin_run w s))) ''INFO'' ''run_started'' None, wall_ts w)
     (db_exec (StartRun (if sc_live (sv_config s) then ''live'' else ''dry-run''), wall_ts w) (sv_db s))"
  by (simp add: begin_run_def event_run split: prod.split)

context db_law
begin

lemma run_keeps:
  assumes "run w ticks last_drain s = Some (r, s')" "P (sv_db s)"
  shows "P (sv_db s')"
proof -
  have b: "P (sv_db (begin_run w s))" unfolding begin_run_db by (intro db_exec assms(2))
  obtain outcome s1 where l: "run_loop ticks (begin_run w s) = Some (outcome, s1)"
    using assms(1) by (auto simp: run_def split: option.splits)
  let ?m = "sthen (case outcome of Inl e \<Rightarrow> record_failure (tk_follow last_drain) e | Inr _ \<Rightarrow> sreturn ())
      (finish_run last_drain (outcome = Return ()))"
  have "keeps (\<lambda>s. P (sv_db s)) ?m"
    by (auto intro!: keeps_then keeps_finish keeps_record_failure keeps_intros split: sum.splits)
  from keepsD [OF this keeps_run_loop [OF l b]] have "P (sv_db (snd (?m s1)))" .
  moreover have "s' = snd (?m s1)" using assms(1) l by (auto simp: run_def split: prod.splits sum.splits)
  ultimately show ?thesis by simp
qed

end

text \<open>
  A whole run, from its start to its shutdown, with any interleaving of what the workers
  deliver and whatever the venue answers, keeps the keys of the database and loses no order:
  every order on record before is on record after.
\<close>

lemma run_keeps_database:
  assumes "run w ticks last_drain s = Some (r, s')" "db_ok (sv_db s)"
  shows "db_ok (sv_db s') \<and> (db_order k (sv_db s) \<noteq> None \<longrightarrow> db_order k (sv_db s') \<noteq> None)"
  using integrity.run_keeps [OF assms] kept.run_keeps [OF assms(1)] by blast

subsection \<open>An unhealthy tick places nothing\<close>

text \<open>The entries handed over so far, and what the health of a tick reads of the service.\<close>

definition entries_sent :: "service \<Rightarrow> sent list" where
  "entries_sent s = filter is_entry (sv_sent s)"

definition quiet :: "sent list \<Rightarrow> service_config \<Rightarrow> service \<Rightarrow> bool" where
  "quiet xs c s \<longleftrightarrow> entries_sent s = xs \<and> sv_config s = c \<and> has_exchange s"

interpretation quiet: follow_law "quiet xs c" for xs c
  by unfold_locales (simp_all add: quiet_def entries_sent_def has_exchange_def)

lemma quiet_queue: "quiet xs c (s\<lparr>sv_activation_updates := us\<rparr>) = quiet xs c s"
  by (simp add: quiet_def entries_sent_def has_exchange_def)

lemma quiet_reconcile: "quiet xs c (s\<lparr>sv_last_reconcile := us\<rparr>) = quiet xs c s"
  by (simp add: quiet_def entries_sent_def has_exchange_def)

lemma quiet_activation: "keeps (quiet xs c) (drain_market_activation_updates w updates)"
  by (auto simp: drain_market_activation_updates_def apply_activation_update_def quiet_queue
      intro!: quiet.law_intros keeps_modify split: act_update.splits)

lemma quiet_follow: "keeps (quiet xs c) (follow_orders t)"
  by (auto simp: follow_orders_def poll_orders_def set_last_reconcile_def quiet_reconcile
      intro!: quiet.order_law_intros quiet.keeps_drain_geoblock quiet.law_intros keeps_modify
        quiet.keeps_reconcile split: prod.splits)

text \<open>
  C4. A live tick hands no entry to the exchange unless both the geoblock check and the user
  stream are healthy: with either of them out, whatever the queues hold and whatever the venue
  answers, it only follows the orders that are there.
\<close>

theorem unhealthy_tick_places_nothing:
  assumes "sc_live (sv_config s)" "has_exchange s"
    and "\<not> tk_geoblock_healthy t \<or> \<not> tk_stream_healthy t"
  shows "filter is_entry (sv_sent (snd (tick t s))) = filter is_entry (sv_sent s)"
proof -
  let ?q = "quiet (entries_sent s) (sv_config s)"
  have q: "?q s" using assms(2) by (simp add: quiet_def)
  have still: "keeps ?q (place_entries t)"
  proof (rule keepsI)
    fix s' assume s': "?q s'"
    then have "\<not> tick_healthy t s'" using assms by (auto simp: tick_healthy_def quiet_def)
    then show "?q (snd (place_entries t s'))" using s' by (simp add: place_entries_def swhen_def)
  qed
  have "keeps ?q (tick t)"
    unfolding tick_def by (intro keeps_then keeps_bind quiet_activation quiet_follow still keeps_return)
  from keepsD [OF this q] show ?thesis by (simp add: quiet_def entries_sent_def)
qed

text \<open>
  Where the geoblock check found trading blocked, the drain of its updates raises, and with it the
  tick, before anything is placed.
\<close>

lemma blocked_drain:
  assumes "has_exchange s" "list_ex gu_blocked us"
  shows "\<exists>e s'. drain_geoblock_updates w us s = (Raise e, s')"
proof -
  have "\<exists>e s'. sfor (apply_geoblock_update w) us s = (Raise e, s')" using assms(2)
  proof (induction us arbitrary: s)
    case (Cons u us)
    show ?case
    proof (cases "gu_blocked u")
      case True
      then show ?thesis
        by (simp add: apply_geoblock_update_def Let_def sthen_def sbind_def event_run)
    next
      case False
      obtain r s1 where u: "apply_geoblock_update w u s = (r, s1)" by force
      show ?thesis using Cons False u by (cases r) (auto simp: sthen_def sbind_def)
    qed
  qed simp
  then show ?thesis using assms(1) by (simp add: drain_geoblock_updates_def)
qed

lemma blocked_follow:
  assumes q: "quiet xs c s" and b: "list_ex gu_blocked (tk_geoblock t)"
  shows "\<exists>e s'. follow_orders t s = (Raise e, s')"
proof -
  let ?q = "quiet xs c" and ?w = "tk_follow t"
  let ?recon = "swhen (has_exchange s) (drain_reconciliation_updates ?w (tk_recon t))"
  let ?stream = "if sc_live (sv_config s)
      then drain_user_stream_updates ?w (stream_updates (tk_stream t) (tk_member_streams t)) else sreturn False"
  let ?rest = "sthen (cancel_due_orders ?w) \<circ> poll_orders t"
  obtain r1 s1 where r1: "?recon s = (r1, s1)" by force
  have "keeps ?q ?recon" by (auto intro!: quiet.order_law_intros quiet.law_intros)
  from keepsD [OF this q] have q1: "?q s1" unfolding r1 by simp
  obtain r2 s2 where r2: "?stream s1 = (r2, s2)" by force
  have "keeps ?q ?stream" by (auto intro!: quiet.order_law_intros quiet.law_intros)
  from keepsD [OF this q1] have "has_exchange s2" unfolding r2 by (simp add: quiet_def)
  from blocked_drain [OF this b] obtain e s3 where
    r3: "drain_geoblock_updates ?w (tk_geoblock t) s2 = (Raise e, s3)" by blast
  have "follow_orders t s = sthen ?recon (sbind ?stream (\<lambda>r. sthen (drain_geoblock_updates ?w (tk_geoblock t)) (?rest r))) s"
    by (simp add: follow_orders_def comp_def)
  also have "\<dots> = (case r1 of Inl e \<Rightarrow> (Raise e, s1) | Inr _ \<Rightarrow>
      (case r2 of Inl e \<Rightarrow> (Raise e, s2) | Inr _ \<Rightarrow> (Raise e, s3)))"
    unfolding sthen_def sbind_def [of ?recon] r1 sbind_def [of ?stream] sbind_def [of "drain_geoblock_updates _ _"]
    by (cases r1; cases r2) (simp_all only: r2 r3 prod.case sum.case)
  finally show ?thesis by (cases r1; cases r2) simp_all
qed

lemma blocked_tick:
  assumes "has_exchange s" "list_ex gu_blocked (tk_geoblock t)"
  shows "\<exists>e s'. tick t s = (Raise e, s') \<and> filter is_entry (sv_sent s') = filter is_entry (sv_sent s)"
proof -
  let ?q = "quiet (entries_sent s) (sv_config s)" and ?w = "tk_follow t"
  have q: "?q s" using assms(1) by (simp add: quiet_def)
  obtain r1 s1 where r1: "drain_market_activation_updates ?w (tk_activation t) s = (r1, s1)" by force
  have q1: "?q s1" using keepsD [OF quiet_activation q, of ?w "tk_activation t"] r1 by simp
  obtain r2 s2 where r2: "follow_orders t s1 = (r2, s2)" by force
  have q2: "?q s2" using keepsD [OF quiet_follow q1, of t] r2 by simp
  have "\<exists>e s'. tick t s = (Raise e, s') \<and> ?q s'"
    using blocked_follow [OF q1 assms(2)] r2 q1 q2
    by (cases r1) (auto simp: tick_def sthen_def sbind_def r1)
  then show ?thesis by (auto simp: quiet_def entries_sent_def)
qed

text \<open>
  C29. Trading stops where it is not allowed: a tick that finds an update that says the location is
  blocked ends with an exception, which ends the run, whatever else the queues hold and whatever
  else is healthy, and it hands no entry to the exchange.
\<close>

theorem blocked_tick_stops:
  assumes "has_exchange s" "list_ex gu_blocked (tk_geoblock t)"
  shows "\<exists>e s'. run_loop (t # ts) s = Some (Raise e, s') \<and>
    filter is_entry (sv_sent s') = filter is_entry (sv_sent s)"
proof -
  have "has_exchange (s\<lparr>sv_wake := False\<rparr>)" using assms(1) by (simp add: has_exchange_def)
  from blocked_tick [OF this assms(2)] show ?thesis by auto
qed

definition example_tick :: tick_input where
  "example_tick =
     \<lparr>tk_now = 0, tk_activation = [Activated \<lparr>au_market = example_mkt, au_discovered_ts_ms = 0, au_detected_ts_ms = 1\<rparr>],
      tk_recon = [], tk_stream = [], tk_member_streams = [], tk_geoblock = [],
      tk_geoblock_healthy = True, tk_stream_healthy = False, tk_recon_worker = recon_init,
      tk_follow = example_answers, tk_place_now_ts = 1700000010, tk_place = (\<lambda>_. example_answers),
      tk_discovery = example_answers, tk_discovered = (\<lambda>_. example_answers), tk_interrupted = True\<rparr>"

theorem unhealthy_tick_places_nothing_witness:
  "filter is_entry (sv_sent (snd (tick example_tick example_service))) = []"
  using unhealthy_tick_places_nothing [of example_service example_tick]
  by (simp add: example_service_def example_config_def has_exchange_def example_tick_def)

subsection \<open>A run that is stopped\<close>

text \<open>No order of a known market is in an open state.\<close>

definition none_open :: "bot_db \<Rightarrow> bool" where
  "none_open db \<longleftrightarrow>
     list_all (\<lambda>r. o_status r \<in> set open_states \<longrightarrow> \<not> has_market (o_slug r) db) (db_orders db)"

lemma none_open_mark:
  assumes "none_open db" "status \<notin> set open_states"
  shows "none_open (mark_orders ids status now db)"
  using assms by (auto simp: none_open_def mark_orders_def list_all_iff has_market_def)

lemma none_open_mark_tracked:
  assumes "status \<notin> set open_states"
  shows "none_open (mark_orders (map (o_order_id \<circ> fst) (tracked_open_orders db)) status now db)"
proof -
  have tracked: "o_order_id r \<in> (o_order_id \<circ> fst) ` set (tracked_open_orders db)"
    if rows: "r \<in> set (db_orders db)" "o_status r \<in> set open_states" and known: "has_market (o_slug r) db" for r
  proof -
    obtain m where m: "join_market db r = Some (r, m)"
      using known by (auto simp: has_market_def join_market_def)
    then have "(r, m) \<in> set (tracked_open_orders db)"
      using rows by (force simp: tracked_open_orders_def in_map_filter tracked_states_def)
    then show ?thesis by force
  qed
  have "o_status r \<notin> set open_states \<or> \<not> has_market (o_slug r) db \<or>
      o_order_id r \<in> set (map (o_order_id \<circ> fst) (tracked_open_orders db))" if "r \<in> set (db_orders db)" for r
    using tracked [OF that] by auto
  then show ?thesis
    using assms by (auto simp: none_open_def mark_orders_def list_all_iff) (auto simp: has_market_def)
qed

lemma none_open_log [simp]: "none_open (log_event rid level type slug now db) = none_open db"
  by (simp add: none_open_def log_event_def has_market_def)

lemma none_open_stop [simp]: "none_open (stop_run rid status error now db) = none_open db"
  by (simp add: none_open_def stop_run_def has_market_def)

lemma cancel_tracked_closes: "none_open (sv_db (snd (cancel_tracked_orders w s)))"
proof -
  let ?none = "\<lambda>s. none_open (sv_db s)" and ?rows = "map fst (tracked_open_orders (sv_db s))"
  have keep_mark: "keeps ?none (db_do (mark_orders ids status now))" if "status \<notin> set open_states"
    for ids status now using that by (intro keeps_db_do) (simp add: none_open_mark)
  have keep_rows: "keeps ?none (cancel_rows w rows)" for rows
    using keeps_db_cancel_rows by (fastforce simp: keeps_def)
  have keep_event: "keeps ?none (event w level type slug)" for level type slug
    by (simp add: keeps_def event_run)
  have rest: "keeps ?none (stry
         (sbind (cancel_rows w ?rows) (\<lambda>(canceled_ids, terminal_unknown_ids).
            sthen (db_do (mark_orders canceled_ids ''cancelled'' (wall_ts w)))
            (sthen (db_do (mark_orders terminal_unknown_ids ''terminal_unknown'' (wall_ts w)))
              (event w ''INFO'' ''shutdown_cancel'' None))))
         (\<lambda>_. sreturn ()))"
    by (auto intro!: keeps_intros keep_mark keep_rows keep_event simp: open_states_def split: prod.splits)
  show ?thesis
  proof (cases "?rows = []")
    case True
    then show ?thesis
      using none_open_mark_tracked [of "''cancelled''" "sv_db s" 0]
      by (simp add: cancel_tracked_orders_def Let_def mark_orders_def open_states_def)
  next
    case False
    then show ?thesis
      using none_open_mark_tracked [of "''simulated_closed''" "sv_db s"]
        none_open_mark_tracked [of "''cancel_requested''" "sv_db s"] keepsD [OF rest]
      by (cases "has_exchange s")
        (simp_all add: cancel_tracked_orders_def Let_def db_do_def smodify_def open_states_def)
  qed
qed

text \<open>The run's own row is never touched by what follows orders, so it is there to be closed.\<close>

lemma has_run_stop: "has_run rid (stop_run rid' status error now db) = has_run rid db"
  by (simp add: has_run_def stop_run_def)

lemma run_ids_stop [simp]: "r_id ` set (db_runs (stop_run rid' status error now db)) = r_id ` set (db_runs db)"
  using has_run_stop [of _ rid' status error now db] by (auto simp: has_run_iff)

lemma has_run_exec: "has_run rid db \<Longrightarrow> has_run rid (db_exec op db)"
  by (induction op db rule: db_exec.induct)
    (auto simp: has_run_iff start_run_def log_event_def add_market_def prepare_market_def
      set_market_state_def add_order_def update_order_def mark_orders_def or_unchanged_def set_update
      Let_def split: if_splits)

interpretation same_run: run_law "\<lambda>s. sv_run_id s = rid \<and> has_run rid (sv_db s)" for rid
  by unfold_locales (simp_all add: has_run_exec has_run_stop)

lemma sthen_cases: "sthen m n s = (case m s of (Inl e, s') \<Rightarrow> (Raise e, s') | (Inr _, s') \<Rightarrow> n s')"
  by (simp add: sthen_def sbind_def)

lemma close_run_row_closes:
  assumes "has_run (sv_run_id s) (sv_db s)" "close_run_row w s = (r, s')"
  shows "none_open (sv_db s') = none_open (sv_db s) \<and>
    (case table_find r_id (sv_run_id s') (db_runs (sv_db s')) of
       None \<Rightarrow> False | Some row \<Rightarrow> r_status row \<noteq> ''running'')"
  using assms
  by (auto simp: close_run_row_def has_run_def swhen_def db_do_def smodify_def split: if_splits)
    (auto simp: stop_run_def)

lemma finish_run_closes:
  assumes "finish_run t True s = (Return (), s')" "has_run (sv_run_id s) (sv_db s)"
  shows "none_open (sv_db s') \<and>
    (case table_find r_id (sv_run_id s') (db_runs (sv_db s')) of
       None \<Rightarrow> False | Some row \<Rightarrow> r_status row \<noteq> ''running'')"
proof -
  let ?drain = "sthen (drain_market_activation_updates (tk_follow t) (tk_activation t))
     (sthen (swhen (has_exchange s) (drain_reconciliation_updates (tk_follow t) (tk_recon t)))
      (swhen (sc_live (sv_config s))
        (sthen (drain_user_stream_updates (tk_follow t)
           (stream_updates (tk_stream t) (tk_member_streams t))) (sreturn ()))))"
  let ?here = "\<lambda>s'. sv_run_id s' = sv_run_id s \<and> has_run (sv_run_id s) (sv_db s')"
  obtain r1 s1 where d: "?drain s = (r1, s1)" by force
  obtain r2 s2 where c: "cancel_tracked_orders (tk_follow t) s1 = (r2, s2)" by force
  have run: "finish_run t True s = (case r1 of Inl e \<Rightarrow> (Raise e, s1) | Inr _ \<Rightarrow>
      (case r2 of Inl e \<Rightarrow> (Raise e, s2) | Inr _ \<Rightarrow> close_run_row (tk_follow t) s2))"
  proof -
    have "finish_run t True s = sthen ?drain (sthen (cancel_tracked_orders (tk_follow t)) (close_run_row (tk_follow t))) s"
      by (simp add: finish_run_def)
    then show ?thesis
      unfolding sthen_cases [of ?drain] d by (simp add: sthen_cases c split: sum.split)
  qed
  have "keeps ?here ?drain"
    by (auto intro!: same_run.keeps_drain_activation same_run.order_law_intros same_run.law_intros)
  then have "?here (snd (?drain s))" by (rule keepsD) (simp add: assms(2))
  then have h1: "?here s1" unfolding d by simp
  have h2: "?here s2" using keepsD [OF same_run.keeps_cancel_tracked h1, of "tk_follow t"] c by simp
  have n2: "none_open (sv_db s2)" using cancel_tracked_closes [of "tk_follow t" s1] c by simp
  from run assms(1) have "close_run_row (tk_follow t) s2 = (Return (), s')"
    by (auto split: sum.splits)
  from close_run_row_closes [OF _ this] h2 n2 show ?thesis by simp
qed

text \<open>
  C5. A run stopped by Ctrl+C closes cleanly: when its shutdown ends, no order of a known
  market is left in an open state, whatever the venue answered to the cancels, and the row of
  the run is there and no longer says it is running.
\<close>

theorem stopped_run_leaves_nothing_open:
  assumes "run w ticks last_drain s = Some (Return (), s')"
  shows "list_all (\<lambda>r. o_status r \<in> set open_states \<longrightarrow> \<not> has_market (o_slug r) (sv_db s')) (db_orders (sv_db s')) \<and>
    (case table_find r_id (sv_run_id s') (db_runs (sv_db s')) of
       None \<Rightarrow> False | Some row \<Rightarrow> r_status row \<noteq> ''running'')"
proof -
  obtain s1 where l: "run_loop ticks (begin_run w s) = Some (Return (), s1)"
    and f: "finish_run last_drain True s1 = (Return (), s')"
    using assms by (auto simp: run_def split: option.splits prod.splits sum.splits)
  have "has_run (sv_run_id (begin_run w s)) (sv_db (begin_run w s))"
    by (simp add: begin_run_def event_run start_run_def Let_def has_run_iff log_event_def)
  then have "has_run (sv_run_id s1) (sv_db s1)"
    using same_run.keeps_run_loop [OF l, of "sv_run_id (begin_run w s)"] by simp
  from finish_run_closes [OF f this] show ?thesis by (simp add: none_open_def)
qed

text \<open>A run with nothing to follow, stopped after its first tick.\<close>

definition idle_input :: "tick_input \<Rightarrow> bool" where
  "idle_input t \<longleftrightarrow> tk_activation t = [] \<and> tk_recon t = [] \<and> tk_stream t = [] \<and>
     tk_member_streams t = [] \<and> tk_geoblock t = []"

lemma idle_drains:
  assumes "idle_input t"
  shows "drain_market_activation_updates w (tk_activation t) s = (Return (), s)"
    "drain_reconciliation_updates w (tk_recon t) s = (Return (), s)"
    "drain_user_stream_updates w (stream_updates (tk_stream t) (tk_member_streams t)) s = (Return False, s)"
    "drain_geoblock_updates w (tk_geoblock t) s = (Return (), s)"
  using assms
  by (simp_all add: idle_input_def drain_market_activation_updates_def drain_reconciliation_updates_def
      drain_user_stream_updates_def drain_geoblock_updates_def stream_updates_def exits_if_def swhen_def)

lemma no_orders:
  assumes "db_orders (sv_db s) = []"
  shows "cancel_due_orders w s = (Return (), s)" "cancel_tracked_orders w s = (Return (), s)"
  using assms by (simp_all add: cancel_due_orders_def cancel_tracked_orders_def due_open_orders_def
      tracked_open_orders_def List.map_filter_def Let_def)

lemma idle_tick:
  assumes "idle_input t" "db_orders (sv_db s) = []" "\<not> tick_healthy t s"
    and "tk_now t - sv_last_reconcile s < sc_order_poll_seconds (sv_config s)"
  shows "tick t s = (Return (tk_recon_worker t), s)"
proof -
  have follow: "follow_orders t s = (Return (tk_recon_worker t), s)"
    using assms(4)
    by (cases "has_exchange s"; cases "sc_live (sv_config s)")
      (simp_all add: follow_orders_def poll_orders_def sthen_cases sbind_def sget_def
        idle_drains [OF assms(1)] no_orders [OF assms(2)])
  have place: "place_entries t s = (Return (), s)"
    using assms(3) by (simp add: place_entries_def swhen_def)
  show ?thesis
    by (simp add: tick_def sthen_cases idle_drains [OF assms(1)] sbind_def follow place)
qed

lemma idle_finish:
  assumes "idle_input t" "db_orders (sv_db s) = []"
  shows "\<exists>s'. finish_run t True s = (Return (), s')"
  by (auto simp: finish_run_def sthen_cases swhen_def idle_drains [OF assms(1)] no_orders [OF assms(2)]
      close_run_row_def db_do_def smodify_def split: option.split)

definition idle_tick_input :: tick_input where
  "idle_tick_input = example_tick\<lparr>tk_activation := []\<rparr>"

lemma example_run:
  "\<exists>s'. run example_answers [idle_tick_input] idle_tick_input example_service = Some (Return (), s')"
proof -
  let ?s = "begin_run example_answers example_service" and ?t = idle_tick_input
  have s: "db_orders (sv_db ?s) = []" "sv_config ?s = example_config" "sv_last_reconcile ?s = 0"
    "sv_backend ?s = Solo exchange_init"
    by (simp_all add: begin_run_def start_run_def event_run Let_def log_event_def example_service_def
        example_db_rows)
  have idle: "idle_input ?t" by (simp add: idle_input_def idle_tick_input_def example_tick_def)
  have "tick ?t (?s\<lparr>sv_wake := False\<rparr>) = (Return (tk_recon_worker ?t), ?s\<lparr>sv_wake := False\<rparr>)"
    by (rule idle_tick [OF idle])
      (simp_all add: s tick_healthy_def example_config_def idle_tick_input_def example_tick_def)
  then have "run_loop [?t] ?s = Some (Return (), ?s\<lparr>sv_wake := False\<rparr>)"
    by (simp add: idle_tick_input_def example_tick_def)
  moreover obtain s' where "finish_run ?t True (?s\<lparr>sv_wake := False\<rparr>) = (Return (), s')"
    using idle_finish [OF idle] s(1) by force
  ultimately show ?thesis by (simp add: run_def)
qed

theorem stopped_run_leaves_nothing_open_witness:
  "\<exists>s'. run example_answers [idle_tick_input] idle_tick_input example_service = Some (Return (), s') \<and>
     table_find r_id (sv_run_id s') (db_runs (sv_db s')) \<noteq> None"
proof -
  obtain s' where r: "run example_answers [idle_tick_input] idle_tick_input example_service = Some (Return (), s')"
    using example_run by blast
  from stopped_run_leaves_nothing_open [OF r] r show ?thesis by (auto split: option.splits)
qed

subsection \<open>How a run ends on record\<close>

text \<open>Only the run itself writes the rows of the runs, and events are never taken back.\<close>

definition runs_are :: "run_row list \<Rightarrow> int \<Rightarrow> service \<Rightarrow> bool" where
  "runs_are rs rid s \<longleftrightarrow> db_runs (sv_db s) = rs \<and> sv_run_id s = rid"

lemma db_runs_exec: "\<not> is_run_op (fst op) \<Longrightarrow> db_runs (db_exec op db) = db_runs db"
  by (induction op db rule: db_exec.induct)
    (auto simp: is_run_op_def log_event_def add_market_def prepare_market_def set_market_state_def
      add_order_def update_order_def mark_orders_def or_unchanged_def split: sum.splits)

interpretation same_runs: service_law "runs_are rs rid" for rs rid
  by unfold_locales (simp_all add: runs_are_def db_runs_exec)

lemma event_exec: "ev \<in> set (db_events db) \<Longrightarrow> ev \<in> set (db_events (db_exec op db))"
  by (induction op db rule: db_exec.induct)
    (auto simp: start_run_def stop_run_def log_event_def add_market_def prepare_market_def
      set_market_state_def add_order_def update_order_def mark_orders_def or_unchanged_def Let_def
      split: sum.splits)

interpretation logged: db_law "\<lambda>db. ev \<in> set (db_events db)" for ev
  by unfold_locales (rule event_exec)

text \<open>The row of a run as it is started, and stopping the last of the runs.\<close>

definition started_row :: "world \<Rightarrow> service \<Rightarrow> run_row" where
  "started_row w s =
     \<lparr>r_id = sv_run_id (begin_run w s), r_started_ts = wall_ts w, r_stopped_ts = None,
      r_mode = (if sc_live (sv_config s) then ''live'' else ''dry-run''),
      r_status = ''running'', r_last_error = None\<rparr>"

lemma begin_run_runs:
  assumes "db_ok (sv_db s)"
  shows "runs_are (db_runs (sv_db s) @ [started_row w s]) (sv_run_id (begin_run w s)) (begin_run w s)"
    "sv_run_id (begin_run w s) \<notin> r_id ` set (db_runs (sv_db s))"
proof -
  show "runs_are (db_runs (sv_db s) @ [started_row w s]) (sv_run_id (begin_run w s)) (begin_run w s)"
    by (simp add: runs_are_def started_row_def begin_run_def start_run_def event_run log_event_def Let_def)
  have "r_id ` set (db_runs (sv_db s)) = set (map int [1..<Suc (length (db_runs (sv_db s)))])"
    using assms by (metis db_ok_def list.set_map)
  then show "sv_run_id (begin_run w s) \<notin> r_id ` set (db_runs (sv_db s))"
    by (auto simp: begin_run_def start_run_def event_run Let_def)
qed

lemma stop_last_run:
  assumes "r_id row = rid" "rid \<notin> r_id ` set rs" "db_runs db = rs @ [row]"
  shows "db_runs (stop_run rid status error now db) =
    rs @ [row\<lparr>r_stopped_ts := Some now, r_status := status, r_last_error := error\<rparr>]"
proof -
  have "map (\<lambda>r. if r_id r = rid then f r else r) rs = rs" for f
    using assms(2) by (intro map_idI) auto
  then show ?thesis using assms(1,3) by (simp add: stop_run_def table_update_def)
qed

text \<open>Closing the row touches it only where it still says that the run is running.\<close>

lemma close_last_run:
  assumes "runs_are (rs @ [row]) (r_id row) s" "r_id row \<notin> r_id ` set rs" "close_run_row w s = (out, s')"
  shows "out = Return () \<and> db_runs (sv_db s') = rs @
    [if r_status row = ''running''
     then row\<lparr>r_stopped_ts := Some (wall_ts w), r_status := ''stopped'', r_last_error := None\<rparr> else row]"
proof -
  have "table_find r_id (r_id row) rs = None" using assms(2) by (simp add: table_find_None)
  then have "table_find r_id (r_id row) (rs @ [row]) = Some row" by simp
  then show ?thesis using assms(1,3) stop_last_run [OF refl assms(2)]
    by (auto simp: close_run_row_def runs_are_def swhen_def db_do_def smodify_def split: if_splits)
qed

lemma finish_run_row:
  assumes "runs_are (rs @ [row]) (r_id row) s" "r_id row \<notin> r_id ` set rs" "finish_run t cancel s = (out, s')"
  shows "db_runs (sv_db s') = rs @
    [if r_status row = ''running'' \<and> out = Return ()
     then row\<lparr>r_stopped_ts := Some (wall_ts (tk_follow t)), r_status := ''stopped'', r_last_error := None\<rparr>
     else row]"
proof -
  obtain r1 s1 where w: "finish_work t cancel s = (r1, s1)" by force
  have "runs_are (rs @ [row]) (r_id row) s1"
    using keepsD [OF same_runs.keeps_finish_work assms(1), of t cancel] w by simp
  then show ?thesis using assms(3) close_last_run [OF _ assms(2)]
    by (cases r1) (auto simp: finish_run_split sthen_cases w runs_are_def)
qed

text \<open>
  C12. How a run ended is on record. A run that a tick's exception ended is recorded as failed,
  with the text of that exception and the time, and the failure is in the event log: the shutdown
  that follows, whether or not it goes through, does not call the run stopped. A run stopped by
  Ctrl+C is recorded as stopped exactly if its shutdown goes through. The row is the run's own,
  with its start and its mode, and the rows of earlier runs are as they were.
\<close>

theorem run_end_recorded:
  assumes "run w ticks last_drain s = Some (r, s')" "db_ok (sv_db s)"
    and "run_loop ticks (begin_run w s) = Some (outcome, s1)"
  shows "let now = wall_ts (tk_follow last_drain);
      started = \<lparr>r_id = int (length (db_runs (sv_db s))) + 1, r_started_ts = wall_ts w, r_stopped_ts = None,
        r_mode = (if sc_live (sv_config s) then ''live'' else ''dry-run''),
        r_status = ''running'', r_last_error = None\<rparr> in
    (case outcome of
       Inl e \<Rightarrow> r \<noteq> Return () \<and>
         db_runs (sv_db s') = db_runs (sv_db s) @
           [started\<lparr>r_stopped_ts := Some now, r_status := ''failed'',
              r_last_error := Some (exn_class e @ '': '' @ exn_str e)\<rparr>] \<and>
         \<lparr>ev_run_id = Some (r_id started), ev_ts = now, ev_level = ''ERROR'', ev_type = ''run_failed'',
           ev_slug = None\<rparr> \<in> set (db_events (sv_db s'))
     | Inr _ \<Rightarrow>
         db_runs (sv_db s') = db_runs (sv_db s) @
           [if r = Return () then started\<lparr>r_stopped_ts := Some now, r_status := ''stopped''\<rparr> else started])"
proof -
  let ?rs = "db_runs (sv_db s)" and ?row = "started_row w s" and ?w = "tk_follow last_drain"
  have row: "?row = \<lparr>r_id = int (length ?rs) + 1, r_started_ts = wall_ts w, r_stopped_ts = None,
        r_mode = (if sc_live (sv_config s) then ''live'' else ''dry-run''),
        r_status = ''running'', r_last_error = None\<rparr>"
    by (simp add: started_row_def begin_run_def start_run_def event_run Let_def)
  have rid: "r_id ?row = sv_run_id (begin_run w s)" by (simp add: started_row_def)
  note b = begin_run_runs [OF assms(2), of w, folded rid]
  have s1: "runs_are (?rs @ [?row]) (r_id ?row) s1"
    by (rule same_runs.keeps_run_loop [OF assms(3) b(1)])
  show ?thesis
  proof (cases outcome)
    case (Inl e)
    let ?failed = "?row\<lparr>r_stopped_ts := Some (wall_ts ?w), r_status := ''failed'', r_last_error := Some (exn_text e)\<rparr>"
    let ?ev = "\<lparr>ev_run_id = Some (r_id ?row), ev_ts = wall_ts ?w, ev_level = ''ERROR'',
      ev_type = ''run_failed'', ev_slug = None\<rparr>"
    obtain s2 where f: "record_failure ?w e s1 = (Return (), s2)"
      by (simp add: record_failure_def event_run)
    then have s2: "runs_are (?rs @ [?failed]) (r_id ?failed) s2" "?ev \<in> set (db_events (sv_db s2))"
      using s1 stop_last_run [OF refl b(2)]
      by (auto simp: record_failure_def event_run runs_are_def log_event_def)
    obtain out s3 where fin: "finish_run last_drain False s2 = (out, s3)" by force
    have "db_runs (sv_db s3) = ?rs @ [?failed]"
      using finish_run_row [OF s2(1) _ fin] b(2) by simp
    moreover have "?ev \<in> set (db_events (sv_db s3))"
      using keepsD [OF logged.keeps_finish s2(2), of last_drain False] fin by simp
    moreover have "s' = s3" "r \<noteq> Return ()"
      using assms(1) fin by (auto simp: run_def assms(3) Inl sthen_cases f split: sum.splits)
    ultimately show ?thesis by (simp add: Inl row exn_text_def Let_def)
  next
    case (Inr u)
    obtain out s3 where fin: "finish_run last_drain True s1 = (out, s3)" by force
    then have "s' = s3" "r = out"
      using assms(1) by (auto simp: run_def assms(3) Inr split: sum.splits)
    with finish_run_row [OF s1 b(2) fin] show ?thesis by (simp add: Inr row Let_def)
  qed
qed

text \<open>A run that the geoblock check ends: trading is blocked where the bot runs.\<close>

definition blocked_tick :: tick_input where
  "blocked_tick = example_tick\<lparr>tk_activation := [], tk_geoblock :=
     [\<lparr>gu_available = True, gu_blocked = True, gu_changed = True, gu_recovered = False,
       gu_result = Some [(''country'', JStr ''US''), (''region'', JStr ''NY'')], gu_error = None\<rparr>]\<rparr>"

lemma blocked_run:
  "\<exists>e s1 r s'. run_loop [blocked_tick] (begin_run example_answers example_service) = Some (Raise e, s1) \<and>
     run example_answers [blocked_tick] idle_tick_input example_service = Some (r, s')"
proof -
  let ?s = "begin_run example_answers example_service\<lparr>sv_wake := False\<rparr>" and ?t = blocked_tick
  have x: "has_exchange ?s"
    by (simp add: has_exchange_def begin_run_def start_run_def event_run Let_def example_service_def)
  have t: "tk_activation ?t = []" "tk_recon ?t = []" "tk_stream ?t = []" "tk_member_streams ?t = []"
    by (simp_all add: blocked_tick_def example_tick_def)
  obtain u where u: "tk_geoblock ?t = [u]" "gu_blocked u" by (simp add: blocked_tick_def)
  obtain e s' where g: "drain_geoblock_updates (tk_follow ?t) [u] ?s = (Raise e, s')"
    using blocked_drain [OF x, of "[u]" "tk_follow ?t"] u(2) by auto
  have drains: "drain_market_activation_updates w [] s = (Return (), s)"
    "drain_reconciliation_updates w [] s = (Return (), s)"
    "drain_user_stream_updates w (stream_updates [] []) s = (Return False, s)" for w s
    by (simp_all add: drain_market_activation_updates_def drain_reconciliation_updates_def
        drain_user_stream_updates_def stream_updates_def exits_if_def swhen_def)
  have "follow_orders ?t ?s = (Raise e, s')"
    using x by (simp add: follow_orders_def t u(1) sthen_cases sbind_def sget_def drains g)
  then have "tick ?t ?s = (Raise e, s')"
    by (simp add: tick_def t sthen_cases drains sbind_def)
  then have l: "run_loop [?t] (begin_run example_answers example_service) = Some (Raise e, s')" by simp
  then have "\<exists>r s'. run example_answers [?t] idle_tick_input example_service = Some (r, s')"
    by (auto simp: run_def split: prod.split sum.split)
  with l show ?thesis by blast
qed

theorem blocked_tick_stops_witness:
  "\<exists>e s'. run_loop [blocked_tick, idle_tick_input] example_service = Some (Raise e, s') \<and>
     filter is_entry (sv_sent s') = []"
proof -
  have "has_exchange example_service" "list_ex gu_blocked (tk_geoblock blocked_tick)"
    "sv_sent example_service = []"
    by (simp_all add: has_exchange_def example_service_def blocked_tick_def)
  then show ?thesis using blocked_tick_stops [of example_service blocked_tick "[idle_tick_input]"] by simp
qed

theorem run_end_recorded_witness:
  "\<exists>r s' row. run example_answers [blocked_tick] idle_tick_input example_service = Some (r, s') \<and>
     db_runs (sv_db s') = db_runs example_db @ [row] \<and> r_status row = ''failed''"
proof -
  obtain e s1 r s' where l: "run_loop [blocked_tick] (begin_run example_answers example_service) = Some (Raise e, s1)"
    and r: "run example_answers [blocked_tick] idle_tick_input example_service = Some (r, s')"
    using blocked_run by blast
  have "db_ok (sv_db example_service)"
    unfolding example_service_def example_db_def by (simp only: service.select_convs fold_db_exec_ok db_ok_empty)
  from run_end_recorded [OF r this l] r show ?thesis by (auto simp: Let_def example_service_def)
qed

subsection \<open>A payload the shutdown cannot read\<close>

definition one_result :: "snapshot \<Rightarrow> payload \<Rightarrow> recon_update list" where
  "one_result sn raw = [\<lparr>ru_orders = [\<lparr>rc_snapshot = sn, rc_raw = Some raw, rc_error = None\<rparr>],
     ru_batch_error = None, ru_open_rows = []\<rparr>]"

text \<open>
  C38. The shutdown drains the reconciliation worker before it cancels, and reads the payloads
  outside any handler: a payload of a tracked order that cannot be read ends the shutdown of a
  stopped run there, with no cancel sent, no order marked and the run still called running.
\<close>

theorem shutdown_unreadable_payload:
  assumes "has_exchange s" "tk_activation t = []" "tk_recon t = one_result sn raw"
    and "db_order (sn_order_id sn) (sv_db s) \<noteq> None" "normalize_order raw = Raise e"
  shows "finish_run t True s = (Raise e, s)"
proof -
  have act: "drain_market_activation_updates (tk_follow t) (tk_activation t) s = (Return (), s)"
    using assms(2) by (simp add: drain_market_activation_updates_def swhen_def)
  have "drain_reconciliation_updates (tk_follow t) (tk_recon t) s = (Raise e, s)"
    using assms(3-5)
    by (auto simp: drain_reconciliation_updates_def one_result_def apply_recon_update_def
        apply_reconciled_def sbind_def sget_def slift_def Let_def)
  then show ?thesis
    using assms(1) by (simp add: finish_run_def sthen_cases act)
qed

definition bad_payload :: payload where
  "bad_payload = [(''id'', JStr ''0x1''), (''size_matched'', JStr ''n/a'')]"

theorem shutdown_unreadable_payload_witness:
  "finish_run (idle_tick_input\<lparr>tk_recon := one_result \<lparr>sn_order_id = ''0x1'', sn_slug = [], sn_size = 10\<rparr> bad_payload\<rparr>)
     True example_service_order = (Raise InvalidOperation, example_service_order)"
proof -
  have "normalize_order bad_payload = Raise InvalidOperation" by code_simp
  then show ?thesis
    by (intro shutdown_unreadable_payload)
      (simp_all add: example_row_found idle_tick_input_def example_tick_def has_exchange_def
        example_service_order_def example_service_def, simp add: example_row_found [unfolded example_service_order_def example_service_def, simplified])
qed

end
