(* ===== verification/Decimal_Text.thy ===== *)
theory Decimal_Text
  imports Py_Values
begin

text \<open>
  \<open>format(value.normalize(), "f")\<close>: a decimal rounded to 28 digits, without an exponent and
  without trailing zeros. \<open>decimal_places\<close> counts the decimal places it needs; it spends one
  unit of fuel per place, and the binary length of the denominator is enough, because a
  step with \<open>x \<mapsto> 10 * x\<close> at least halves it (\<open>decimal_places_adequate\<close>). Reading the text
  back gives the rounded value (\<open>py_decimal_decimal_text\<close>), so the text identifies it.
\<close>

subsection \<open>How many decimal places\<close>

definition is_integral :: "rat \<Rightarrow> bool" where
  "is_integral x \<longleftrightarrow> of_int \<lfloor>x\<rfloor> = x"

fun decimal_places :: "nat \<Rightarrow> rat \<Rightarrow> nat" where
  "decimal_places 0 x = 0"
| "decimal_places (Suc n) x = (if is_integral x then 0 else Suc (decimal_places n (10 * x)))"

definition places_fuel :: "rat \<Rightarrow> nat" where
  "places_fuel x = nlog 2 (snd (quotient_of x))"

lemma is_integral_iff: "is_integral x \<longleftrightarrow> (\<exists>n. x = of_int n)"
  unfolding is_integral_def by (metis floor_of_int)

lemma decimal_places_step:
  fixes d :: int
  assumes d: "0 < d" "d dvd 10 ^ j" "d < 2 ^ Suc (Suc n)"
    and x: "x = of_int p / of_int d" "\<not> is_integral x"
  shows "\<exists>p' d'. 0 < d' \<and> d' dvd 10 ^ j \<and> d' < 2 ^ Suc n \<and> 10 * x = of_int p' / of_int d'"
proof -
  define g where "g = gcd d 10"
  have g0: "0 < g" by (simp add: g_def)
  have "g \<noteq> 1"
  proof
    assume "g = 1"
    then have "coprime d 10" by (simp only: g_def coprime_iff_gcd_eq_1)
    then have "coprime d (10 ^ j)" by simp
    then have "is_unit d" using d(2) coprime_absorb_left by blast
    then have "d = 1" using d(1) by simp
    then show False using x by (auto simp: is_integral_iff)
  qed
  then have g2: "2 \<le> g" using g0 by simp
  obtain e where e: "d = g * e" unfolding g_def by (meson dvdE gcd_dvd1)
  obtain f where f: "10 = g * f" unfolding g_def by (meson dvdE gcd_dvd2)
  have e0: "0 < e" using d(1) g0 by (simp add: e zero_less_mult_iff)
  have "2 * e \<le> d" using g2 e0 by (simp add: e)
  then have "e < 2 ^ Suc n" using d(3) by simp
  moreover have "e dvd 10 ^ j" using d(2) by (auto simp: e intro: dvd_mult_right)
  moreover have "10 * x = of_int (f * p) / of_int e"
  proof -
    have "10 * x = of_int (g * f) * of_int p / of_int (g * e)" using f by (simp add: x e)
    then show ?thesis using g0 by simp
  qed
  ultimately show ?thesis using e0 by blast
qed

lemma decimal_places_integral:
  fixes d :: int
  assumes "0 < d" "d dvd 10 ^ j" "d < 2 ^ Suc n" "x = of_int p / of_int d"
  shows "is_integral (x * 10 ^ decimal_places n x)"
  using assms
proof (induction n arbitrary: x p d)
  case 0
  then have "d = 1" by simp
  with 0 show ?case by (auto simp: is_integral_iff)
next
  case (Suc n)
  show ?case
  proof (cases "is_integral x")
    case True
    then show ?thesis by simp
  next
    case False
    from decimal_places_step [OF Suc.prems False] obtain p' d'
      where "0 < d'" "d' dvd 10 ^ j" "d' < 2 ^ Suc n" "10 * x = of_int p' / of_int d'" by blast
    from Suc.IH [OF this] show ?thesis using False by (simp add: mult_ac)
  qed
qed

lemma decimal_places_adequate:
  assumes "on_grid j x"
  shows "is_integral (x * 10 ^ decimal_places (places_fuel x) x)"
proof -
  obtain p d where q: "quotient_of x = (p, d)" by force
  have d: "0 < d" "coprime p d" "x = of_int p / of_int d"
    using quotient_of_denom_pos [OF q] quotient_of_coprime [OF q] quotient_of_div [OF q] by auto
  from assms obtain m where "x * 10 ^ j = of_int m" by (auto simp: on_grid_def Ints_def)
  then have "(of_int (p * 10 ^ j) :: rat) = of_int (m * d)" using d by (simp add: field_simps)
  then have "p * 10 ^ j = m * d" by (simp only: of_int_eq_iff)
  then have "d dvd p * 10 ^ j" by simp
  then have "d dvd 10 ^ j" using d(2) by (simp add: coprime_commute coprime_dvd_mult_right_iff)
  moreover have "d < 2 ^ Suc (nlog 2 d)" using nlog_bounds [of 2 d] d(1) by simp
  ultimately show ?thesis using decimal_places_integral [OF d(1) _ _ d(3)] by (simp only: places_fuel_def q snd_conv)
qed

text \<open>Every decimal of 28 digits lies on some grid.\<close>

lemma drep_grid:
  assumes "drep x" shows "\<exists>j. on_grid j x"
proof -
  from assms obtain m i where x: "x = of_int m * 10 powi i" by (auto simp: drep_def sig_rep_def)
  show ?thesis
  proof (cases "0 \<le> i")
    case True
    then have "x = of_int (m * 10 ^ nat i)" by (simp add: x power_int_def)
    then show ?thesis by (intro exI [of _ 0]) (simp add: on_grid_def)
  next
    case False
    then have "x * 10 ^ nat (- i) = of_int m" by (simp add: x power_int_def field_simps)
    then show ?thesis by (intro exI [of _ "nat (- i)"]) (simp add: on_grid_def)
  qed
qed

subsection \<open>The text\<close>

definition pad_zeros :: "nat \<Rightarrow> string \<Rightarrow> string" where
  "pad_zeros n s = replicate (n - length s) CHR ''0'' @ s"

definition fixed_text :: "nat \<Rightarrow> int \<Rightarrow> string" where
  "fixed_text k n =
     (let ds = pad_zeros (Suc k) (show_pos n); i = length ds - k
      in take i ds @ (if k = 0 then [] else CHR ''.'' # drop i ds))"

definition decimal_text :: "rat \<Rightarrow> string" where
  "decimal_text value =
     (let d = dround value; k = decimal_places (places_fuel d) d; n = \<lfloor>\<bar>d\<bar> * 10 ^ k\<rfloor>
      in (if d < 0 then [CHR ''-''] else []) @ fixed_text k n)"

subsection \<open>Reading it back\<close>

lemma digits_value_zeros: "digits_value (replicate n CHR ''0'' @ s) = digits_value s"
  by (induction n) (simp_all add: digits_value_def digit_value_def)

lemma digits_value_pad [simp]: "digits_value (pad_zeros n s) = digits_value s"
  by (simp add: pad_zeros_def digits_value_zeros)

lemma pad_zeros_digits:
  assumes "0 \<le> n" "c \<in> set (pad_zeros k (show_pos n))" shows "is_digit c"
  using assms show_pos_digits [of n c] by (auto simp: pad_zeros_def is_digit_def split: if_splits)

lemma length_pad_zeros: "n \<le> length (pad_zeros n s)"
  by (simp add: pad_zeros_def)

lemma digit_not_sign: "is_digit c \<Longrightarrow> c \<noteq> CHR ''_'' \<and> c \<noteq> CHR ''-'' \<and> c \<noteq> CHR ''+'' \<and> c \<noteq> CHR ''.''"
  by auto

text \<open>A sign, some digits, and perhaps a point with more digits, as \<open>Decimal\<close> reads them.\<close>

lemma py_decimal_fixed:
  assumes ip: "ip \<noteq> []" "\<forall>c \<in> set ip. is_digit c"
    and fp: "\<forall>c \<in> set fp. is_digit c"
    and s: "s = (if neg then [CHR ''-''] else []) @ ip @ (if fp = [] then [] else CHR ''.'' # fp)"
  shows "py_decimal s =
    Some ((if neg then - 1 else 1) * (of_int (digits_value (ip @ fp)) / 10 ^ length fp))"
proof -
  let ?r = "if fp = [] then [] else CHR ''.'' # fp"
  have lastd: "is_digit (last (ip @ ?r))" using ip fp by auto
  have hdd: "is_digit (hd ip)" using ip by simp
  have minus: "\<not> is_space CHR ''-''" by (simp add: is_space_def Let_def)
  have st: "strip s = s"
  proof (rule strip_id)
    show "s \<noteq> []" using ip by (simp add: s)
    show "\<not> is_space (hd s)" using ip hdd minus by (auto simp: s is_digit_not_space)
    show "\<not> is_space (last s)" using lastd ip by (auto simp: s is_digit_not_space)
  qed
  have us: "filter (\<lambda>c. c \<noteq> CHR ''_'') s = s"
    using ip fp digit_not_sign by (intro filter_True) (auto simp: s split: if_splits)
  have hs: "hd ip \<noteq> CHR ''-''" "hd ip \<noteq> CHR ''+''" using hdd by auto
  have tw: "takeWhile is_digit ip = ip" "dropWhile is_digit ip = []"
      "takeWhile is_digit fp = fp" "dropWhile is_digit fp = []"
    using ip fp by auto
  have ta: "takeWhile is_digit (ip @ CHR ''.'' # fp) = ip"
      "dropWhile is_digit (ip @ CHR ''.'' # fp) = CHR ''.'' # fp"
    using ip by (simp_all add: takeWhile_append dropWhile_append)
  show ?thesis
    unfolding py_decimal_def st us unfolding s using ip(1)
    by (cases neg; cases "fp = []")
      (simp_all add: hs tw ta Let_def parse_exponent_def power_int_minus divide_inverse
        power_int_of_nat)
qed

lemma py_decimal_decimal_text: "py_decimal (decimal_text x) = Some (dround x)"
proof -
  define d where "d = dround x"
  define k where "k = decimal_places (places_fuel d) d"
  define n where "n = \<lfloor>\<bar>d\<bar> * 10 ^ k\<rfloor>"
  define ds where "ds = pad_zeros (Suc k) (show_pos n)"
  define i where "i = length ds - k"
  obtain j where "on_grid j d" using drep_grid [of d] by (auto simp: d_def)
  then have "is_integral (d * 10 ^ k)" unfolding k_def by (rule decimal_places_adequate)
  then obtain m where m: "d * 10 ^ k = of_int m" by (auto simp: is_integral_iff)
  have "\<bar>d\<bar> * 10 ^ k = \<bar>d * 10 ^ k\<bar>" by (simp add: abs_mult)
  also have "\<dots> = of_int \<bar>m\<bar>" by (simp add: m)
  finally have ad: "\<bar>d\<bar> * 10 ^ k = of_int \<bar>m\<bar>" .
  have n: "n = \<bar>m\<bar>" unfolding n_def ad by (rule floor_of_int)
  have n0: "0 \<le> n" by (simp add: n)
  have len: "Suc k \<le> length ds" unfolding ds_def by (rule length_pad_zeros)
  have dig: "\<forall>c \<in> set ds. is_digit c" using pad_zeros_digits [OF n0] by (auto simp: ds_def)
  have t: "decimal_text x = (if d < 0 then [CHR ''-''] else []) @
      take i ds @ (if drop i ds = [] then [] else CHR ''.'' # drop i ds)"
    using len by (auto simp: decimal_text_def fixed_text_def Let_def d_def k_def n_def ds_def i_def)
  have "py_decimal (decimal_text x) =
      Some ((if d < 0 then - 1 else 1) * (of_int (digits_value (take i ds @ drop i ds)) / 10 ^ length (drop i ds)))"
  proof (rule py_decimal_fixed [OF _ _ _ t])
    show "take i ds \<noteq> []" using len by (auto simp: i_def)
    show "\<forall>c \<in> set (take i ds). is_digit c" "\<forall>c \<in> set (drop i ds). is_digit c"
      using dig by (auto dest: in_set_takeD in_set_dropD)
  qed
  moreover have "digits_value ds = n" using n0 by (simp add: ds_def)
  moreover have "length (drop i ds) = k" using len by (simp add: i_def)
  moreover have "(if d < 0 then - 1 else 1) * (of_int n / 10 ^ k) = d"
    using ad by (auto simp: n field_simps split: if_splits)
  ultimately show ?thesis by (simp add: d_def)
qed

lemma decimal_text_inject: "decimal_text x = decimal_text y \<longleftrightarrow> dround x = dround y"
  by (metis decimal_text_def option.inject py_decimal_decimal_text)

lemma decimal_text_chars:
  "set (decimal_text x) \<subseteq> {c. is_digit c \<or> c = CHR ''-'' \<or> c = CHR ''.''}"
proof -
  have nn: "0 \<le> \<lfloor>\<bar>d\<bar> * (10 :: rat) ^ k\<rfloor>" for d k by simp
  have "set (fixed_text k n) \<subseteq> {c. is_digit c \<or> c = CHR ''.''}" if "0 \<le> n" for k n
    using pad_zeros_digits [OF that]
    by (auto simp: fixed_text_def Let_def dest: in_set_takeD in_set_dropD split: if_splits)
  from this [OF nn] show ?thesis by (auto simp: decimal_text_def Let_def)
qed

end
