(* ===== verification/Paper_Fill.thy ===== *)
theory Paper_Fill
  imports Decimal_Text
begin

text \<open>
  The arithmetic of the paper simulator (\<open>polymarket_bot/paper.py\<close>): the queue ahead in a
  public book, the evidence in the public trades, the FIFO fill and the result of a market.
  A trade and a book are decoded JSON objects; an exception is the left side of a result, and
  the wording of Python's own exceptions is abbreviated. The abstract side is a price level
  as a queue of resting orders which incoming volume consumes from the front
  (\<open>match_level\<close>); \<open>fifo_fill_refines_level\<close> shows that the closed formula of the code gives
  what that queue gives the order at our position, whatever rests behind it.
\<close>

subsection \<open>The queue ahead\<close>

text \<open>\<open>Decimal(str(d.get(key) or "0"))\<close>.\<close>

definition dec_field :: "string \<Rightarrow> payload \<Rightarrow> exn + rat" where
  "dec_field key d = dec_of (por (pget key d) (JStr ''0''))"

text \<open>The size of a level of the book at the price, if it is one.\<close>

definition level_size :: "rat \<Rightarrow> json \<Rightarrow> exn + rat list" where
  "level_size price level =
     (if \<not> is_dict level then Raise (Raised ''AttributeError'' ''get'')
      else rbind (dec_field ''price'' (as_dict level)) (\<lambda>p.
        if p = price then rbind (dec_field ''size'' (as_dict level)) (\<lambda>s. Return [s]) else Return []))"

definition queue_at_price :: "payload \<Rightarrow> rat \<Rightarrow> exn + rat" where
  "queue_at_price book price =
     rbind (py_iter (por (pget ''bids'' book) (JArr []))) (\<lambda>levels.
     rbind (rtraverse (level_size price) levels) (\<lambda>sizes. Return (dsum (concat sizes))))"

subsection \<open>Evidence of execution\<close>

record evidence_event =
  xe_timestamp :: json
  xe_transaction_hash :: json
  xe_asset_id :: string
  xe_side :: string
  xe_price :: rat
  xe_size :: rat
  xe_direct :: bool
  xe_through :: bool

record evidence =
  ee_boundary_volume :: rat
  ee_crossed :: bool
  ee_events :: "evidence_event list"

definition no_evidence :: evidence where
  "no_evidence = \<lparr>ee_boundary_volume = 0, ee_crossed = False, ee_events = []\<rparr>"

text \<open>What one trade is, read against our order: \<open>None\<close> where it does not reach it.\<close>

definition read_trade :: "string \<Rightarrow> string \<Rightarrow> rat \<Rightarrow> payload \<Rightarrow> exn + evidence_event option" where
  "read_trade token_id opposite_token_id price trade =
     (let asset_id = py_str (por (pget ''asset'' trade) (por (pget ''asset_id'' trade) (JStr [])));
          side = upper (py_str (por (pget ''side'' trade) (JStr [])))
      in rbind (dec_field ''price'' trade) (\<lambda>p. rbind (dec_field ''size'' trade) (\<lambda>s.
         let direct = (asset_id = token_id \<and> side = ''SELL'');
             complementary = (asset_id = opposite_token_id \<and> side = ''BUY'');
             threshold = (if direct then price else dsub 1 price);
             through = (if direct then p < threshold else threshold < p)
         in if \<not> direct \<and> \<not> complementary then Return None
            else if \<not> through \<and> p \<noteq> threshold then Return None
            else Return (Some \<lparr>xe_timestamp = pget ''timestamp'' trade,
                   xe_transaction_hash = pget ''transactionHash'' trade, xe_asset_id = asset_id,
                   xe_side = side, xe_price = p, xe_size = s, xe_direct = direct,
                   xe_through = through\<rparr>))))"

definition count_event :: "evidence_event \<Rightarrow> evidence \<Rightarrow> evidence" where
  "count_event x ev =
     (if xe_through x then ev\<lparr>ee_crossed := True\<rparr>
      else ev\<lparr>ee_boundary_volume := dadd (ee_boundary_volume ev) (xe_size x)\<rparr>)
     \<lparr>ee_events := ee_events ev @ [x]\<rparr>"

fun take_trades :: "string \<Rightarrow> string \<Rightarrow> rat \<Rightarrow> payload list \<Rightarrow> evidence \<Rightarrow> exn + evidence" where
  "take_trades tok opp price [] ev = Return ev"
| "take_trades tok opp price (trade # trades) ev =
     rbind (read_trade tok opp price trade) (\<lambda>x.
       take_trades tok opp price trades (case x of None \<Rightarrow> ev | Some e \<Rightarrow> count_event e ev))"

definition execution_evidence :: "payload list \<Rightarrow> string \<Rightarrow> string \<Rightarrow> rat \<Rightarrow> exn + evidence" where
  "execution_evidence trades token_id opposite_token_id price =
     take_trades token_id opposite_token_id price trades no_evidence"

definition fifo_fill :: "rat \<Rightarrow> rat \<Rightarrow> evidence \<Rightarrow> rat" where
  "fifo_fill queue_ahead sz ev =
     (if ee_crossed ev then sz else min sz (max 0 (dsub (ee_boundary_volume ev) queue_ahead)))"

subsection \<open>The result of a market\<close>

record paper_result =
  px_winner :: string
  px_up_evidence :: evidence
  px_down_evidence :: evidence
  px_up_fill :: rat
  px_down_fill :: rat
  px_gross_cost :: rat
  px_gross_payout :: rat
  px_pnl :: rat

definition calculate_result ::
  "string \<Rightarrow> payload list \<Rightarrow> string \<Rightarrow> string \<Rightarrow> rat \<Rightarrow> rat \<Rightarrow> rat \<Rightarrow> rat \<Rightarrow> exn + paper_result" where
  "calculate_result winner_outcome trades up_token_id down_token_id price sz up_queue down_queue =
     (let winner = lower winner_outcome in
      if winner \<noteq> ''up'' \<and> winner \<noteq> ''down'' then
        Raise (ValueError (''unsupported winning outcome: '' @ winner_outcome))
      else rbind (execution_evidence trades up_token_id down_token_id price) (\<lambda>up.
        rbind (execution_evidence trades down_token_id up_token_id price) (\<lambda>down.
        let up_fill = fifo_fill up_queue sz up; down_fill = fifo_fill down_queue sz down;
            cost = dmul price (dadd up_fill down_fill);
            payout = (if winner = ''up'' then up_fill else down_fill)
        in Return \<lparr>px_winner = winner, px_up_evidence = up, px_down_evidence = down,
             px_up_fill = up_fill, px_down_fill = down_fill, px_gross_cost = cost,
             px_gross_payout = payout, px_pnl = dsub payout cost\<rparr>)))"

subsection \<open>The level as a queue\<close>

text \<open>Volume that arrives at a level takes from the orders in it, front first.\<close>

fun match_level :: "rat \<Rightarrow> rat list \<Rightarrow> rat list" where
  "match_level v [] = []"
| "match_level v (q # qs) = (q - min v q) # match_level (v - min v q) qs"

definition level_fill :: "rat list \<Rightarrow> rat list \<Rightarrow> rat \<Rightarrow> rat list \<Rightarrow> rat" where
  "level_fill volumes ahead sz behind =
     sz - fold match_level volumes (ahead @ sz # behind) ! length ahead"

lemma match_level_0 [simp]: "(\<And>q. q \<in> set qs \<Longrightarrow> 0 \<le> q) \<Longrightarrow> match_level 0 qs = qs"
  by (induction qs) auto

text \<open>One arrival: what is left ahead, and what is left of the order behind it.\<close>

lemma match_level_split:
  assumes "0 \<le> v" "\<And>q. q \<in> set ahead \<Longrightarrow> 0 \<le> q"
  shows "\<exists>ahead'. match_level v (ahead @ rest) = ahead' @ match_level (v - min v (sum_list ahead)) rest
    \<and> length ahead' = length ahead \<and> (\<forall>q \<in> set ahead'. 0 \<le> q)
    \<and> sum_list ahead' = sum_list ahead - min v (sum_list ahead)"
  using assms
proof (induction ahead arbitrary: v)
  case (Cons q qs)
  have q: "0 \<le> q" "0 \<le> sum_list qs" using Cons.prems by (auto intro: sum_list_nonneg)
  obtain a where a: "match_level (v - min v q) (qs @ rest) =
        a @ match_level (v - min v q - min (v - min v q) (sum_list qs)) rest"
      "length a = length qs" "\<forall>q \<in> set a. 0 \<le> q"
      "sum_list a = sum_list qs - min (v - min v q) (sum_list qs)"
    using Cons.IH [of "v - min v q"] Cons.prems by auto
  have e: "min v q + min (v - min v q) (sum_list qs) = min v (sum_list (q # qs))"
    using q by (simp add: min_def)
  show ?case
  proof (intro exI conjI)
    have "v - min v q - min (v - min v q) (sum_list qs) = v - min v (sum_list (q # qs))"
      using e by linarith
    with a(1) have "match_level (v - min v q) (qs @ rest) =
        a @ match_level (v - min v (sum_list (q # qs))) rest" by (simp only:)
    then show "match_level v ((q # qs) @ rest) =
        ((q - min v q) # a) @ match_level (v - min v (sum_list (q # qs))) rest" by simp
    show "length ((q - min v q) # a) = length (q # qs)" using a(2) by simp
    show "\<forall>x \<in> set ((q - min v q) # a). 0 \<le> x" using a(3) by simp
    show "sum_list ((q - min v q) # a) = sum_list (q # qs) - min v (sum_list (q # qs))"
      using a(4) e by simp
  qed
qed simp

text \<open>Any number of arrivals, for an order of which \<open>sz\<close> is left.\<close>

lemma level_fill_formula:
  assumes "\<And>v. v \<in> set volumes \<Longrightarrow> 0 \<le> v" "\<And>q. q \<in> set ahead \<Longrightarrow> 0 \<le> q" "0 \<le> sz"
  shows "level_fill volumes ahead sz behind = min sz (max 0 (sum_list volumes - sum_list ahead))"
  using assms
proof (induction volumes arbitrary: ahead sz behind)
  case Nil
  then show ?case by (simp add: level_fill_def sum_list_nonneg)
next
  case (Cons v vs)
  have v: "0 \<le> v" "0 \<le> sum_list vs" using Cons.prems(1) by (auto intro: sum_list_nonneg)
  have A: "0 \<le> sum_list ahead" using Cons.prems(2) by (auto intro: sum_list_nonneg)
  define u where "u = v - min v (sum_list ahead)"
  obtain a where a: "match_level v (ahead @ sz # behind) = a @ match_level u (sz # behind)"
      "length a = length ahead" "\<forall>q \<in> set a. 0 \<le> q"
      "sum_list a = sum_list ahead - min v (sum_list ahead)"
    using match_level_split [OF v(1), of ahead "sz # behind"] Cons.prems(2) by (auto simp: u_def)
  define s where "s = sz - min u sz"
  have s: "0 \<le> s" by (simp add: s_def)
  have "level_fill (v # vs) ahead sz behind =
      min u sz + level_fill vs a s (match_level (u - min u sz) behind)"
    using a(2) by (simp add: level_fill_def a(1) s_def)
  also have "level_fill vs a s (match_level (u - min u sz) behind) =
      min s (max 0 (sum_list vs - sum_list a))"
    using Cons.prems(1) a(3) s by (intro Cons.IH) auto
  also have "min u sz + min s (max 0 (sum_list vs - sum_list a)) =
      min sz (max 0 (sum_list (v # vs) - sum_list ahead))"
    using v A Cons.prems(3) a(4) by (simp add: s_def u_def min_def max_def split: if_splits)
  finally show ?case .
qed

subsection \<open>What the evidence is\<close>

lemma count_event_crossed: "ee_crossed (count_event e ev) \<longleftrightarrow> ee_crossed ev \<or> xe_through e"
  by (simp add: count_event_def)

lemma take_trades_crossed:
  "take_trades tok opp price trades ev = Return ev' \<Longrightarrow> ee_crossed ev \<Longrightarrow> ee_crossed ev'"
  by (induction trades arbitrary: ev)
    (auto simp: rbind_Inr_iff count_event_crossed split: option.splits)

lemma take_trades_volume:
  assumes "take_trades tok opp price trades ev = Return ev'" "\<not> ee_crossed ev'"
    "ee_boundary_volume ev = dsum (map xe_size (ee_events ev))"
  shows "ee_boundary_volume ev' = dsum (map xe_size (ee_events ev'))"
  using assms
proof (induction trades arbitrary: ev)
  case (Cons t ts)
  then obtain x where x: "read_trade tok opp price t = Return x"
      "take_trades tok opp price ts (case x of None \<Rightarrow> ev | Some e \<Rightarrow> count_event e ev) = Return ev'"
    by (auto simp: rbind_Inr_iff)
  show ?case
  proof (cases x)
    case None
    with x Cons show ?thesis by simp
  next
    case (Some e)
    have "\<not> xe_through e"
      using take_trades_crossed [OF x(2)] Cons.prems(2) Some by (auto simp: count_event_crossed)
    then have "ee_boundary_volume (count_event e ev) = dsum (map xe_size (ee_events (count_event e ev)))"
      using Cons.prems(3) by (simp add: count_event_def dsum_snoc)
    with Cons.IH x(2) Cons.prems(2) Some show ?thesis by simp
  qed
qed simp

lemma evidence_volume:
  "execution_evidence trades tok opp price = Return ev \<Longrightarrow> \<not> ee_crossed ev \<Longrightarrow>
     ee_boundary_volume ev = dsum (map xe_size (ee_events ev))"
  unfolding execution_evidence_def by (erule take_trades_volume) (simp_all add: no_evidence_def)

text \<open>
  C3. The fill the code computes is the fill of a queue: whatever orders make up the size ahead
  and whatever rests behind, letting the volume that traded at our price consume the level
  front first fills our order by exactly \<open>fifo_fill\<close>, as long as no trade went through the
  price and the sizes have at most \<open>k\<close> decimals and stay in range; a trade through the price
  fills the order.
\<close>

theorem fifo_fill_refines_level:
  assumes "execution_evidence trades tok opp price = Return ev"
    and sizes: "\<forall>x \<in> set (ee_events ev). 0 \<le> xe_size x \<and> on_grid k (xe_size x)"
    and range: "k \<le> 28" "sum_list (map xe_size (ee_events ev)) < 10 ^ (28 - k)"
    and ahead: "\<forall>q \<in> set ahead. 0 \<le> q \<and> on_grid k q" "sum_list ahead < 10 ^ (28 - k)"
    and sz: "0 \<le> sz"
  shows "fifo_fill (sum_list ahead) sz ev =
    (if ee_crossed ev then sz else level_fill (map xe_size (ee_events ev)) ahead sz behind)"
proof (cases "ee_crossed ev")
  case False
  let ?vs = "map xe_size (ee_events ev)"
  have vs: "\<And>v. v \<in> set ?vs \<Longrightarrow> 0 \<le> v" "\<And>v. v \<in> set ?vs \<Longrightarrow> on_grid k v" using sizes by auto
  have qs: "\<And>q. q \<in> set ahead \<Longrightarrow> 0 \<le> q" "\<And>q. q \<in> set ahead \<Longrightarrow> on_grid k q" using ahead by auto
  have V: "ee_boundary_volume ev = sum_list ?vs"
    using evidence_volume [OF assms(1) False] dsum_grid [OF vs(2,1) range] by simp
  have "0 \<le> sum_list ?vs" "0 \<le> sum_list ahead" using vs qs by (auto intro: sum_list_nonneg)
  then have "\<bar>sum_list ?vs - sum_list ahead\<bar> < 10 ^ (28 - k)" using range(2) ahead(2) by linarith
  moreover have "on_grid k (sum_list ?vs - sum_list ahead)"
    by (intro on_grid_diff on_grid_sum_list vs(2) qs(2))
  ultimately have "dsub (ee_boundary_volume ev) (sum_list ahead) = sum_list ?vs - sum_list ahead"
    using range(1) by (simp add: dsub_def V dround_grid)
  then show ?thesis
    using False level_fill_formula [of ?vs ahead sz behind, OF vs(1) qs(1) sz]
    by (simp add: fifo_fill_def)
qed (simp add: fifo_fill_def)

definition example_trade :: "string \<Rightarrow> string \<Rightarrow> string \<Rightarrow> int \<Rightarrow> payload" where
  "example_trade asset side price sz =
     [(''asset'', JStr asset), (''side'', JStr side), (''price'', JStr price), (''size'', JInt sz),
      (''timestamp'', JInt 1700000200)]"

text \<open>Fifty shares sold at our price, twenty bought of the other side at its complement.\<close>

definition example_trades :: "payload list" where
  "example_trades =
     [example_trade ''111'' ''SELL'' ''0.5'' 50, example_trade ''222'' ''BUY'' ''0.50'' 20,
      example_trade ''222'' ''BUY'' ''0.4'' 900, example_trade ''111'' ''BUY'' ''0.4'' 7]"

definition example_event :: "string \<Rightarrow> string \<Rightarrow> rat \<Rightarrow> bool \<Rightarrow> evidence_event" where
  "example_event asset side sz direct =
     \<lparr>xe_timestamp = JInt 1700000200, xe_transaction_hash = JNull, xe_asset_id = asset,
      xe_side = side, xe_price = 1/2, xe_size = sz, xe_direct = direct, xe_through = False\<rparr>"

definition example_evidence :: evidence where
  "example_evidence =
     \<lparr>ee_boundary_volume = 70, ee_crossed = False,
      ee_events = [example_event ''111'' ''SELL'' 50 True, example_event ''222'' ''BUY'' 20 False]\<rparr>"

lemma example_execution: "execution_evidence example_trades ''111'' ''222'' (1/2) = Return example_evidence"
  by code_simp

theorem fifo_fill_refines_level_witness:
  "fifo_fill 40 100 example_evidence = level_fill [50, 20] [25, 15] 100 [60]
     \<and> level_fill [50, 20] [25, 15] 100 [60] = 30"
proof
  show "fifo_fill 40 100 example_evidence = level_fill [50, 20] [25, 15] 100 [60]"
    using fifo_fill_refines_level [OF example_execution, of 0 "[25, 15]" 100 "[60]"]
    by (simp add: example_evidence_def example_event_def on_grid_def)
qed (simp add: level_fill_def)

subsection \<open>Bounds of a result\<close>

lemma fifo_fill_bounds: "0 \<le> sz \<Longrightarrow> 0 \<le> fifo_fill q sz ev \<and> fifo_fill q sz ev \<le> sz"
  by (simp add: fifo_fill_def)

lemma fifo_fill_drep: "drep sz \<Longrightarrow> drep (fifo_fill q sz ev)"
  by (simp add: fifo_fill_def min_def max_def)

lemma fifo_fill_antimono: "q \<le> q' \<Longrightarrow> fifo_fill q' sz ev \<le> fifo_fill q sz ev"
proof -
  assume "q \<le> q'"
  then have "dsub v q' \<le> dsub v q" for v by (simp add: dsub_mono)
  then show ?thesis unfolding fifo_fill_def by (simp add: min.coboundedI2 max.coboundedI2)
qed

lemma calculate_result_Return:
  assumes "calculate_result w trades up down price sz uq dq = Return res"
  shows "execution_evidence trades up down price = Return (px_up_evidence res)"
    "execution_evidence trades down up price = Return (px_down_evidence res)"
    "px_up_fill res = fifo_fill uq sz (px_up_evidence res)"
    "px_down_fill res = fifo_fill dq sz (px_down_evidence res)"
    "px_gross_cost res = dmul price (dadd (px_up_fill res) (px_down_fill res))"
    "px_gross_payout res = (if px_winner res = ''up'' then px_up_fill res else px_down_fill res)"
    "px_pnl res = dsub (px_gross_payout res) (px_gross_cost res)"
    "px_winner res = lower w"
  using assms by (auto simp: calculate_result_def Let_def rbind_Inr_iff split: if_splits)

lemma result_amounts:
  assumes "calculate_result w trades up down price sz uq dq = Return res"
    and "0 \<le> price" "0 \<le> sz" "drep sz"
  shows "0 \<le> px_up_fill res \<and> px_up_fill res \<le> sz \<and> 0 \<le> px_down_fill res \<and> px_down_fill res \<le> sz"
    and "0 \<le> px_gross_cost res \<and> px_gross_cost res \<le> dmul price (dadd sz sz)"
    and "- px_gross_cost res \<le> px_pnl res \<and> px_pnl res \<le> px_gross_payout res"
proof -
  note res = calculate_result_Return [OF assms(1)]
  show fills: "0 \<le> px_up_fill res \<and> px_up_fill res \<le> sz \<and> 0 \<le> px_down_fill res \<and> px_down_fill res \<le> sz"
    using fifo_fill_bounds [OF assms(3)] by (simp add: res(3,4))
  show cost: "0 \<le> px_gross_cost res \<and> px_gross_cost res \<le> dmul price (dadd sz sz)"
    unfolding res(5) using fills assms(2)
    by (intro conjI dmul_nonneg dadd_nonneg dmul_mono dadd_mono; simp)
  have pay: "0 \<le> px_gross_payout res" "drep (px_gross_payout res)"
    using fills fifo_fill_drep [OF assms(4)] by (simp_all add: res(6) res(3,4))
  have "- px_gross_cost res = dsub 0 (px_gross_cost res)"
    by (simp add: dsub_def dround_uminus dround_id res(5))
  also have "\<dots> \<le> px_pnl res" unfolding res(7) using pay(1) by (simp add: dsub_mono)
  finally show "- px_gross_cost res \<le> px_pnl res \<and> px_pnl res \<le> px_gross_payout res"
    unfolding res(7) using pay cost by (simp add: dsub_le)
qed

text \<open>More shares ahead in the queue never mean a larger fill.\<close>

lemma result_antimono:
  assumes "calculate_result w trades up down price sz uq dq = Return res"
    and "calculate_result w trades up down price sz uq' dq' = Return res'" "uq \<le> uq'" "dq \<le> dq'"
  shows "px_up_fill res' \<le> px_up_fill res \<and> px_down_fill res' \<le> px_down_fill res"
proof -
  note res = calculate_result_Return [OF assms(1)] and res' = calculate_result_Return [OF assms(2)]
  have "px_up_evidence res' = px_up_evidence res" "px_down_evidence res' = px_down_evidence res"
    using res(1,2) res'(1,2) by simp_all
  then show ?thesis using assms(3,4) by (simp add: res(3,4) res'(3,4) fifo_fill_antimono)
qed

text \<open>
  C27. A settled market stays within its stake: neither side is filled beyond the order, the cost
  beyond both orders in full; the loss is at most the cost and the gain at most the payout,
  which is the winner's fill. Had more rested ahead, neither fill would be larger.
\<close>

theorem result_within_stake:
  assumes "calculate_result w trades up down price sz uq dq = Return res"
    and "0 \<le> price" "0 \<le> sz" "drep sz"
  shows "0 \<le> px_up_fill res \<and> px_up_fill res \<le> sz \<and> 0 \<le> px_down_fill res \<and> px_down_fill res \<le> sz
    \<and> 0 \<le> px_gross_cost res \<and> px_gross_cost res \<le> dmul price (dadd sz sz)
    \<and> - px_gross_cost res \<le> px_pnl res \<and> px_pnl res \<le> px_gross_payout res
    \<and> px_gross_payout res = (if px_winner res = ''up'' then px_up_fill res else px_down_fill res)
    \<and> (\<forall>uq' dq' res'. uq \<le> uq' \<and> dq \<le> dq'
         \<and> calculate_result w trades up down price sz uq' dq' = Return res'
        \<longrightarrow> px_up_fill res' \<le> px_up_fill res \<and> px_down_fill res' \<le> px_down_fill res)"
  using result_amounts [OF assms] result_antimono [OF assms(1)] calculate_result_Return(6) [OF assms(1)]
  by blast

theorem result_within_stake_witness:
  "case calculate_result ''Up'' example_trades ''111'' ''222'' (1/2) 100 40 0 of
     Inl e \<Rightarrow> False | Inr res \<Rightarrow> px_gross_cost res \<le> dmul (1/2) (dadd 100 100) \<and> px_gross_cost res = 15"
proof -
  let ?r = "calculate_result ''Up'' example_trades ''111'' ''222'' (1/2) 100 40 0"
  have down: "execution_evidence example_trades ''222'' ''111'' (1/2) = Return no_evidence" by code_simp
  have low: "lower ''Up'' = ''up''" by code_simp
  have r: "\<exists>res. ?r = Return res \<and> px_gross_cost res = 15"
    by (simp add: calculate_result_def Let_def example_execution down low
        fifo_fill_def example_evidence_def no_evidence_def dec_eval)
  then obtain res where res: "?r = Return res" "px_gross_cost res = 15" by blast
  have "drep 100" using dround_drep [of 100] by (simp add: dec_eval)
  with result_within_stake [OF res(1)] res show ?thesis by simp
qed

end
