(* ===== verification/Paper_Store.thy ===== *)
theory Paper_Store
  imports Paper_Fill Models Database Activation
begin

text \<open>
  \<open>PaperDatabase\<close> of \<open>polymarket_bot/paper.py\<close>: the key of a strategy and the statements of
  the paper simulator's SQLite file. The table of markets is the list of its rows in
  insertion order. The nullable result columns of a row are one optional record, as one
  statement writes them all; decimals are kept as the numbers their texts denote. Rows with
  the same sort key come in insertion order.
\<close>

definition FINALIZATION_DELAY_SECONDS :: int where "FINALIZATION_DELAY_SECONDS = 120"

definition strategy_key :: "trade_plan \<Rightarrow> string" where
  "strategy_key plan =
     ''dual-hold:price='' @ decimal_text (buy_price plan) @ '':size='' @ decimal_text (order_size plan)
       @ '':fifo-v1''"

subsection \<open>The database\<close>

record paper_state =
  ps_strategy_key :: string
  ps_buy_price :: rat
  ps_usd_per_side :: rat
  ps_order_size :: rat
  ps_started_ts :: int
  ps_heartbeat_ts :: int

record paper_row =
  pm_strategy_key :: string
  pm_slug :: string
  pm_condition_id :: string
  pm_start_ts :: int
  pm_end_ts :: int
  pm_up_token_id :: string
  pm_down_token_id :: string
  pm_discovered_ts_ms :: int
  pm_detected_ts_ms :: int
  pm_snapshot_ts_ms :: "int option"
  pm_book_source_ts_ms :: "int option"
  pm_buy_price :: rat
  pm_order_size :: rat
  pm_up_queue :: "rat option"
  pm_down_queue :: "rat option"
  pm_status :: string
  pm_result :: "(paper_result \<times> nat) option"
  pm_error :: "string option"
  pm_updated_ts :: int

record paper_db =
  pd_state :: "paper_state option"
  pd_rows :: "paper_row list"

definition empty_paper_db :: paper_db where "empty_paper_db = \<lparr>pd_state = None, pd_rows = []\<rparr>"

definition row_key :: "paper_row \<Rightarrow> string \<times> string" where
  "row_key r = (pm_strategy_key r, pm_slug r)"

definition paper_find :: "string \<times> string \<Rightarrow> paper_db \<Rightarrow> paper_row option" where
  "paper_find k db = table_find row_key k (pd_rows db)"

text \<open>INSERT OR IGNORE, and an UPDATE of the row with a key.\<close>

definition paper_insert :: "paper_row \<Rightarrow> paper_db \<Rightarrow> paper_db" where
  "paper_insert r db =
     (if paper_find (row_key r) db = None then db\<lparr>pd_rows := pd_rows db @ [r]\<rparr> else db)"

definition paper_touch :: "string \<times> string \<Rightarrow> (paper_row \<Rightarrow> paper_row) \<Rightarrow> paper_db \<Rightarrow> paper_db" where
  "paper_touch k f db = db\<lparr>pd_rows := table_update row_key k f (pd_rows db)\<rparr>"

definition paper_start :: "trade_plan \<Rightarrow> int \<Rightarrow> paper_db \<Rightarrow> string \<times> paper_db" where
  "paper_start plan now db =
     (let key = strategy_key plan
      in (key, db\<lparr>pd_state := Some \<lparr>ps_strategy_key = key, ps_buy_price = dround (buy_price plan),
             ps_usd_per_side = dround (usd_per_side plan), ps_order_size = dround (order_size plan),
             ps_started_ts = now, ps_heartbeat_ts = now\<rparr>\<rparr>))"

definition paper_heartbeat :: "int \<Rightarrow> paper_db \<Rightarrow> paper_db" where
  "paper_heartbeat now db = db\<lparr>pd_state := map_option (\<lambda>s. s\<lparr>ps_heartbeat_ts := now\<rparr>) (pd_state db)\<rparr>"

definition new_row :: "string \<Rightarrow> activation_update \<Rightarrow> trade_plan \<Rightarrow> int \<Rightarrow> paper_row" where
  "new_row key update plan now =
     (let m = au_market update in
      \<lparr>pm_strategy_key = key, pm_slug = m_slug m, pm_condition_id = m_condition_id m,
       pm_start_ts = m_start_ts m, pm_end_ts = m_end_ts m, pm_up_token_id = m_up_token_id m,
       pm_down_token_id = m_down_token_id m, pm_discovered_ts_ms = au_discovered_ts_ms update,
       pm_detected_ts_ms = au_detected_ts_ms update, pm_snapshot_ts_ms = None,
       pm_book_source_ts_ms = None, pm_buy_price = dround (buy_price plan),
       pm_order_size = dround (order_size plan), pm_up_queue = None, pm_down_queue = None,
       pm_status = ''snapshot_pending'', pm_result = None, pm_error = None, pm_updated_ts = now\<rparr>)"

definition paper_register ::
  "string \<Rightarrow> activation_update \<Rightarrow> trade_plan \<Rightarrow> int \<Rightarrow> paper_db \<Rightarrow> bool \<times> paper_db" where
  "paper_register key update plan now db =
     (let r = new_row key update plan now in (paper_find (row_key r) db = None, paper_insert r db))"

definition pending_snapshots :: "string \<Rightarrow> paper_db \<Rightarrow> paper_row list" where
  "pending_snapshots key db =
     sort_key pm_detected_ts_ms
       (filter (\<lambda>r. pm_strategy_key r = key \<and> pm_status r = ''snapshot_pending'') (pd_rows db))"

definition missed_row :: "int \<Rightarrow> paper_row \<Rightarrow> paper_row" where
  "missed_row now r =
     r\<lparr>pm_status := ''missed'',
       pm_error := Some ''public order book was not observed before market end'', pm_updated_ts := now\<rparr>"

definition expire_pending_snapshots :: "string \<Rightarrow> int \<Rightarrow> paper_db \<Rightarrow> paper_db" where
  "expire_pending_snapshots key now db =
     db\<lparr>pd_rows := map (\<lambda>r. if pm_strategy_key r = key \<and> pm_status r = ''snapshot_pending'' \<and> pm_end_ts r \<le> now
                          then missed_row now r else r) (pd_rows db)\<rparr>"

definition ready_to_settle :: "string \<Rightarrow> int \<Rightarrow> paper_db \<Rightarrow> paper_row list" where
  "ready_to_settle key now db =
     sort_key pm_end_ts
       (filter (\<lambda>r. pm_strategy_key r = key \<and> pm_status r = ''monitoring''
           \<and> pm_end_ts r \<le> now - FINALIZATION_DELAY_SECONDS) (pd_rows db))"

record book_snapshot =
  bs_snapshot_ts_ms :: int
  bs_source_ts_ms :: int
  bs_up_queue :: rat
  bs_down_queue :: rat

definition snapshot_row :: "book_snapshot \<Rightarrow> int \<Rightarrow> paper_row \<Rightarrow> paper_row" where
  "snapshot_row b now r =
     r\<lparr>pm_snapshot_ts_ms := Some (bs_snapshot_ts_ms b), pm_book_source_ts_ms := Some (bs_source_ts_ms b),
       pm_up_queue := Some (bs_up_queue b), pm_down_queue := Some (bs_down_queue b),
       pm_status := ''monitoring'', pm_error := None, pm_updated_ts := now\<rparr>"

definition set_snapshot :: "string \<Rightarrow> string \<Rightarrow> book_snapshot \<Rightarrow> int \<Rightarrow> paper_db \<Rightarrow> paper_db" where
  "set_snapshot key slug b now db = paper_touch (key, slug) (snapshot_row b now) db"

definition error_row :: "string \<Rightarrow> int \<Rightarrow> paper_row \<Rightarrow> paper_row" where
  "error_row e now r = r\<lparr>pm_error := Some e, pm_updated_ts := now\<rparr>"

text \<open>The value says whether the error is a new one; the caller only logs by it.\<close>

definition set_error :: "string \<Rightarrow> string \<Rightarrow> string \<Rightarrow> int \<Rightarrow> paper_db \<Rightarrow> bool \<times> paper_db" where
  "set_error key slug e now db =
     (case paper_find (key, slug) db of None \<Rightarrow> True | Some r \<Rightarrow> pm_error r \<noteq> Some e,
      paper_touch (key, slug) (error_row e now) db)"

definition result_row :: "paper_result \<Rightarrow> nat \<Rightarrow> int \<Rightarrow> paper_row \<Rightarrow> paper_row" where
  "result_row res trade_count now r =
     r\<lparr>pm_status := ''settled'', pm_result := Some (res, trade_count), pm_error := None, pm_updated_ts := now\<rparr>"

definition set_result :: "string \<Rightarrow> string \<Rightarrow> paper_result \<Rightarrow> nat \<Rightarrow> int \<Rightarrow> paper_db \<Rightarrow> paper_db" where
  "set_result key slug res trade_count now db = paper_touch (key, slug) (result_row res trade_count now) db"

subsection \<open>A store that ignores a second insert\<close>

text \<open>
  The contract the simulator relies on: a row is inserted once, later inserts under its key
  change nothing, and an update touches the row with its key only. A loop that updates rows
  with different keys is then the same as updating each row on its own.
\<close>

locale ignoring_store =
  fixes get :: "'k \<Rightarrow> 's \<Rightarrow> 'r option"
    and insert_row :: "'r \<Rightarrow> 's \<Rightarrow> 's"
    and touch :: "'k \<Rightarrow> ('r \<Rightarrow> 'r) \<Rightarrow> 's \<Rightarrow> 's"
    and key :: "'r \<Rightarrow> 'k"
  assumes get_insert: "get k (insert_row r s) =
      (case get k s of None \<Rightarrow> if k = key r then Some r else None | Some x \<Rightarrow> Some x)"
    and get_touch: "(\<And>r. key (f r) = key r) \<Longrightarrow>
      get k (touch k' f s) = (if k = k' then map_option f (get k s) else get k s)"
begin

lemma inserts_keep: "get k s = Some r \<Longrightarrow> get k (fold insert_row rs s) = Some r"
  by (induction rs arbitrary: s) (auto simp: get_insert)

lemma inserts_get:
  "get k (fold insert_row rs s) =
     (case get k s of Some r \<Rightarrow> Some r | None \<Rightarrow> find (\<lambda>r. key r = k) rs)"
  by (induction rs arbitrary: s) (auto simp: get_insert split: option.splits)

lemma touches_get:
  assumes "distinct (map kf xs)" and key: "\<And>x r. key (f x r) = key r"
  shows "get k (fold (\<lambda>x. touch (kf x) (f x)) xs s) =
    (case find (\<lambda>x. kf x = k) xs of None \<Rightarrow> get k s | Some x \<Rightarrow> map_option (f x) (get k s))"
  using assms(1)
proof (induction xs arbitrary: s)
  case (Cons x xs)
  have "find (\<lambda>x. kf x = k) xs = None" if "kf x = k"
    using Cons.prems that by (auto simp: find_None_iff image_iff)
  with Cons show ?case by (auto simp: get_touch [OF key] split: option.splits)
qed simp

end

lemma row_key_updates [simp]:
  "row_key (missed_row now r) = row_key r" "row_key (snapshot_row b now r) = row_key r"
  "row_key (error_row e now r) = row_key r" "row_key (result_row res n now r) = row_key r"
  by (simp_all add: row_key_def missed_row_def snapshot_row_def error_row_def result_row_def)

interpretation paper_rows: ignoring_store paper_find paper_insert paper_touch row_key
proof
  fix k r s
  show "paper_find k (paper_insert r s) =
      (case paper_find k s of None \<Rightarrow> if k = row_key r then Some r else None | Some x \<Rightarrow> Some x)"
    by (auto simp: paper_find_def paper_insert_def split: option.splits)
next
  fix f :: "paper_row \<Rightarrow> paper_row" and k k' s
  assume "\<And>r. row_key (f r) = row_key r"
  then show "paper_find k (paper_touch k' f s) =
      (if k = k' then map_option f (paper_find k s) else paper_find k s)"
    by (simp add: paper_find_def paper_touch_def)
qed

text \<open>The primary key.\<close>

definition paper_ok :: "paper_db \<Rightarrow> bool" where
  "paper_ok db \<longleftrightarrow> distinct (map row_key (pd_rows db))"

lemma paper_ok_insert [simp]: "paper_ok db \<Longrightarrow> paper_ok (paper_insert r db)"
  by (auto simp: paper_ok_def paper_insert_def paper_find_def table_find_None)

lemma paper_ok_touch [simp]: "(\<And>r. row_key (f r) = row_key r) \<Longrightarrow> paper_ok (paper_touch k f db) = paper_ok db"
  by (simp add: paper_ok_def paper_touch_def)

lemma paper_ok_register [simp]: "paper_ok db \<Longrightarrow> paper_ok (snd (paper_register key u plan now db))"
  by (simp add: paper_register_def Let_def)

lemma map_key_expire: "map row_key (pd_rows (expire_pending_snapshots key now db)) = map row_key (pd_rows db)"
  by (simp add: expire_pending_snapshots_def)

lemma paper_ok_expire [simp]: "paper_ok (expire_pending_snapshots key now db) = paper_ok db"
  by (simp add: paper_ok_def map_key_expire)

lemma paper_ok_statements [simp]:
  "paper_ok (set_snapshot key slug b now db) = paper_ok db"
  "paper_ok (snd (set_error key slug e now db)) = paper_ok db"
  "paper_ok (set_result key slug res n now db) = paper_ok db"
  "paper_ok (paper_heartbeat now db) = paper_ok db"
  "paper_ok (snd (paper_start plan now db)) = paper_ok db"
  by (simp_all add: set_snapshot_def set_error_def set_result_def)
    (simp_all add: paper_ok_def paper_heartbeat_def paper_start_def Let_def)

lemma paper_find_frame [simp]:
  "paper_find k (paper_heartbeat now db) = paper_find k db"
  "paper_find k (snd (paper_start plan now db)) = paper_find k db"
  by (simp_all add: paper_find_def paper_heartbeat_def paper_start_def Let_def)

lemma paper_find_expire:
  "paper_find k (expire_pending_snapshots key now db) =
     map_option (\<lambda>r. if pm_strategy_key r = key \<and> pm_status r = ''snapshot_pending'' \<and> pm_end_ts r \<le> now
                    then missed_row now r else r) (paper_find k db)"
  unfolding paper_find_def table_find_def expire_pending_snapshots_def
  by (simp add: find_map_key)

lemma paper_find_row: "paper_ok db \<Longrightarrow> paper_find k db = Some r \<longleftrightarrow> r \<in> set (pd_rows db) \<and> row_key r = k"
  using table_find_Some [of row_key k "pd_rows db" r] table_find_unique [of row_key "pd_rows db" r]
  by (auto simp: paper_find_def paper_ok_def)

text \<open>The rows a query yields: each once, at its key.\<close>

lemma distinct_query:
  "paper_ok db \<Longrightarrow> distinct (map row_key (sort_key f (filter P (pd_rows db))))"
proof -
  assume ok: "paper_ok db"
  have "distinct (map row_key (filter P (pd_rows db)))"
    using ok by (simp add: paper_ok_def distinct_map_filter)
  then have "distinct (filter P (pd_rows db))" "inj_on row_key (set (filter P (pd_rows db)))"
    by (auto simp: distinct_map)
  then show ?thesis by (simp add: distinct_map distinct_sort)
qed

lemma find_query:
  assumes ok: "paper_ok db" and f: "paper_find k db = Some r"
  shows "find (\<lambda>x. row_key x = k) (sort_key g (filter P (pd_rows db))) = (if P r then Some r else None)"
proof (cases "P r")
  case True
  have r: "r \<in> set (pd_rows db)" "row_key r = k" using f paper_find_row [OF ok] by auto
  then have "r \<in> set (sort_key g (filter P (pd_rows db)))" using True by simp
  then show ?thesis
    using True r(2) find_distinct_key [OF distinct_query [OF ok, of g P]] by fastforce
next
  case False
  have "x = r" if "x \<in> set (pd_rows db)" "row_key x = k" for x
    using f that paper_find_row [OF ok, of k x] by simp
  then show ?thesis using False by (auto simp: find_None_iff)
qed

definition example_paper_row :: "string \<Rightarrow> int option \<Rightarrow> int \<Rightarrow> string \<Rightarrow> paper_row" where
  "example_paper_row slug snapshot end_ts status =
     \<lparr>pm_strategy_key = ''k'', pm_slug = slug, pm_condition_id = ''0xabc'', pm_start_ts = end_ts - 300,
      pm_end_ts = end_ts, pm_up_token_id = ''111'', pm_down_token_id = ''222'', pm_discovered_ts_ms = 0,
      pm_detected_ts_ms = 0, pm_snapshot_ts_ms = snapshot, pm_book_source_ts_ms = snapshot,
      pm_buy_price = 1/2, pm_order_size = 10, pm_up_queue = map_option (\<lambda>_. 40) snapshot,
      pm_down_queue = map_option (\<lambda>_. 0) snapshot, pm_status = status, pm_result = None,
      pm_error = None, pm_updated_ts = 0\<rparr>"

lemma example_paper_row_simps [simp]:
  "pm_strategy_key (example_paper_row slug snap e st) = ''k''" "pm_slug (example_paper_row slug snap e st) = slug"
  "pm_end_ts (example_paper_row slug snap e st) = e" "pm_snapshot_ts_ms (example_paper_row slug snap e st) = snap"
  "pm_buy_price (example_paper_row slug snap e st) = 1/2" "pm_order_size (example_paper_row slug snap e st) = 10"
  "pm_status (example_paper_row slug snap e st) = st" "pm_result (example_paper_row slug snap e st) = None"
  by (simp_all add: example_paper_row_def)

subsection \<open>The key of a strategy\<close>

text \<open>
  Two plans share a strategy key, and with it their rows, exactly when they quote the same
  price and the same size, as decimals of 28 digits: however the price was written, and
  whichever stake the size came from.
\<close>

theorem strategy_key_identifies:
  "strategy_key p = strategy_key q \<longleftrightarrow>
     dround (buy_price p) = dround (buy_price q) \<and> order_size p = order_size q"
proof
  assume eq: "strategy_key p = strategy_key q"
  have nc: "CHR '':'' \<notin> set (decimal_text x)" for x
    using decimal_text_chars [of x] by (auto simp: is_digit_def)
  let ?rest = "\<lambda>r. ''size='' @ decimal_text (order_size r) @ '':fifo-v1''"
  have "decimal_text (buy_price p) @ CHR '':'' # ?rest p = decimal_text (buy_price q) @ CHR '':'' # ?rest q"
    using eq by (simp add: strategy_key_def)
  then have "split_first CHR '':'' (decimal_text (buy_price p) @ CHR '':'' # ?rest p) =
      split_first CHR '':'' (decimal_text (buy_price q) @ CHR '':'' # ?rest q)" by (rule arg_cong)
  then have "(decimal_text (buy_price p), ?rest p) = (decimal_text (buy_price q), ?rest q)"
    unfolding split_first_append [OF nc] by (rule option.inject [THEN iffD1])
  then have "decimal_text (buy_price p) = decimal_text (buy_price q)"
    "decimal_text (order_size p) = decimal_text (order_size q)" by simp_all
  then show "dround (buy_price p) = dround (buy_price q) \<and> order_size p = order_size q"
    by (simp add: decimal_text_inject order_size_def ddiv_def)
next
  assume "dround (buy_price p) = dround (buy_price q) \<and> order_size p = order_size q"
  then have "decimal_text (buy_price p) = decimal_text (buy_price q)"
    "decimal_text (order_size p) = decimal_text (order_size q)" by (simp_all add: decimal_text_inject)
  then show "strategy_key p = strategy_key q" by (simp add: strategy_key_def)
qed

end
