(* ===== verification/Paper_Report.thy ===== *)
theory Paper_Report
  imports Paper_Store
begin

text \<open>
  \<open>PaperDatabase.status\<close> of \<open>polymarket_bot/paper.py\<close>: the report over the rows of the running
  strategy. The peak of the reserved money is computed by a sweep over the placements and the
  market ends; \<open>peak_reserve_exact\<close> shows that the sweep finds the largest amount that was
  reserved at any one time. The ten latest markets are given as rows.
\<close>

record paper_report =
  rp_state :: paper_state
  rp_heartbeat_age :: int
  rp_markets :: "(string, nat) dict"
  rp_settled :: nat
  rp_neither :: nat
  rp_up_only :: nat
  rp_down_only :: nat
  rp_both :: nat
  rp_with_fill :: int
  rp_fill_rate :: "rat option"
  rp_profitable :: nat
  rp_losing :: nat
  rp_breakeven :: nat
  rp_profitable_rate :: "rat option"
  rp_gross_cost :: rat
  rp_gross_payout :: rat
  rp_pnl :: rat
  rp_average_pnl :: "rat option"
  rp_roi :: "rat option"
  rp_active_reserve :: rat
  rp_peak_reserve :: rat
  rp_latest :: "paper_row list"

definition count_status :: "paper_row list \<Rightarrow> (string, nat) dict" where
  "count_status rows =
     fold (\<lambda>r d. dict_set (pm_status r)
        ((case dict_get d (pm_status r) of None \<Rightarrow> 0 | Some n \<Rightarrow> n) + 1) d) rows []"

definition count_if :: "('a \<Rightarrow> bool) \<Rightarrow> 'a list \<Rightarrow> nat" where
  "count_if P xs = length (filter P xs)"

text \<open>The money both orders of a row reserve, and what a row adds to the sweep.\<close>

definition row_reserve :: "paper_row \<Rightarrow> rat" where
  "row_reserve r = dmul (dmul (pm_buy_price r) (pm_order_size r)) 2"

definition reserve_events :: "paper_row \<Rightarrow> (int \<times> rat) list" where
  "reserve_events r =
     (case pm_snapshot_ts_ms r of
        None \<Rightarrow> []
      | Some ms \<Rightarrow> [(ms div 1000, row_reserve r), (pm_end_ts r, - row_reserve r)])"

definition resting_at :: "int \<Rightarrow> paper_row \<Rightarrow> bool" where
  "resting_at t r \<longleftrightarrow>
     (case pm_snapshot_ts_ms r of None \<Rightarrow> False | Some ms \<Rightarrow> ms div 1000 \<le> t \<and> t < pm_end_ts r)"

definition active_reserve :: "int \<Rightarrow> paper_row list \<Rightarrow> rat" where
  "active_reserve now rows = dsum (map row_reserve (filter (resting_at now) rows))"

definition sweep_step :: "rat \<times> rat \<Rightarrow> int \<times> rat \<Rightarrow> rat \<times> rat" where
  "sweep_step s e = (let running = dadd (fst s) (snd e) in (running, max (snd s) running))"

definition sweep_order :: "int \<times> rat \<Rightarrow> int \<times> bool" where
  "sweep_order e = (fst e, 0 < snd e)"

definition peak_reserve :: "paper_row list \<Rightarrow> rat" where
  "peak_reserve rows =
     snd (foldl sweep_step (0, 0) (sort_key sweep_order (concat (map reserve_events rows))))"

definition settled_result :: "paper_row \<Rightarrow> exn + paper_result" where
  "settled_result r =
     (case pm_result r of
        None \<Rightarrow> Raise (TypeError ''conversion from NoneType to Decimal is not supported'')
      | Some (res, n) \<Rightarrow> Return res)"

definition paper_status :: "int \<Rightarrow> paper_db \<Rightarrow> exn + paper_report option" where
  "paper_status now db =
     (case pd_state db of
        None \<Rightarrow> Return None
      | Some st \<Rightarrow>
          let rows = sort_key (\<lambda>r. - pm_start_ts r)
                (filter (\<lambda>r. pm_strategy_key r = ps_strategy_key st) (pd_rows db));
              settled = filter (\<lambda>r. pm_status r = ''settled'') rows
          in rbind (rtraverse settled_result settled) (\<lambda>results.
            let n = length settled;
                rate = (\<lambda>x. if n = 0 then None else Some (ddiv x (of_nat n)));
                up = (\<lambda>r. 0 < px_up_fill r); down = (\<lambda>r. 0 < px_down_fill r);
                neither = count_if (\<lambda>r. \<not> up r \<and> \<not> down r) results;
                profitable = count_if (\<lambda>r. 0 < px_pnl r) results;
                cost = dsum (map px_gross_cost results); pnl = dsum (map px_pnl results)
            in Return (Some \<lparr>rp_state = st, rp_heartbeat_age = max 0 (now - ps_heartbeat_ts st),
                 rp_markets = count_status rows, rp_settled = n, rp_neither = neither,
                 rp_up_only = count_if (\<lambda>r. up r \<and> \<not> down r) results,
                 rp_down_only = count_if (\<lambda>r. \<not> up r \<and> down r) results,
                 rp_both = count_if (\<lambda>r. up r \<and> down r) results,
                 rp_with_fill = int n - int neither, rp_fill_rate = rate (of_int (int n - int neither)),
                 rp_profitable = profitable, rp_losing = count_if (\<lambda>r. px_pnl r < 0) results,
                 rp_breakeven = count_if (\<lambda>r. px_pnl r = 0) results,
                 rp_profitable_rate = rate (of_nat profitable), rp_gross_cost = cost,
                 rp_gross_payout = dsum (map px_gross_payout results), rp_pnl = pnl,
                 rp_average_pnl = rate pnl, rp_roi = (if cost = 0 then None else Some (ddiv pnl cost)),
                 rp_active_reserve = active_reserve now rows, rp_peak_reserve = peak_reserve rows,
                 rp_latest = take 10 rows\<rparr>)))"

subsection \<open>The sweep in exact arithmetic\<close>

abbreviation total_of :: "(int \<times> rat) list \<Rightarrow> rat" where
  "total_of es \<equiv> sum_list (map snd es)"

lemma abs_total_le: "\<bar>total_of es\<bar> \<le> sum_list (map (\<lambda>e. \<bar>snd e\<bar>) es)"
  by (induction es) auto

lemma foldl_sweep:
  assumes "\<forall>e \<in> set es. on_grid k (snd e)" "k \<le> 28"
    "sum_list (map (\<lambda>e. \<bar>snd e\<bar>) es) < 10 ^ (28 - k)"
  shows "fst (foldl sweep_step (0, 0) es) = total_of es
    \<and> (\<forall>ys zs. es = ys @ zs \<longrightarrow> total_of ys \<le> snd (foldl sweep_step (0, 0) es))
    \<and> (\<exists>ys zs. es = ys @ zs \<and> snd (foldl sweep_step (0, 0) es) = total_of ys)"
  using assms
proof (induction es rule: rev_induct)
  case (snoc e es)
  let ?s = "foldl sweep_step (0, 0) es"
  have "sum_list (map (\<lambda>e. \<bar>snd e\<bar>) es) < 10 ^ (28 - k)" using snoc.prems(3) by simp
  with snoc have IH: "fst ?s = total_of es" "\<And>ys zs. es = ys @ zs \<Longrightarrow> total_of ys \<le> snd ?s"
      "\<exists>ys zs. es = ys @ zs \<and> snd ?s = total_of ys"
    by auto
  have "\<bar>total_of (es @ [e])\<bar> < 10 ^ (28 - k)"
    using abs_total_le [of "es @ [e]"] snoc.prems(3) by linarith
  moreover have "on_grid k (total_of (es @ [e]))"
    using snoc.prems(1) by (intro on_grid_sum_list) auto
  ultimately have run: "dadd (total_of es) (snd e) = total_of (es @ [e])"
    using snoc.prems(2) by (simp add: dadd_def dround_grid)
  have step: "foldl sweep_step (0, 0) (es @ [e]) = (total_of (es @ [e]), max (snd ?s) (total_of (es @ [e])))"
    by (simp add: sweep_step_def Let_def IH(1) run del: map_append sum_list_append)
  show ?case
  proof (intro conjI allI impI)
    show "fst (foldl sweep_step (0, 0) (es @ [e])) = total_of (es @ [e])" unfolding step by simp
    show "total_of ys \<le> snd (foldl sweep_step (0, 0) (es @ [e]))" if "es @ [e] = ys @ zs" for ys zs
    proof (cases zs rule: rev_cases)
      case Nil
      then show ?thesis using that unfolding step by simp
    next
      case (snoc zs' z)
      with that have "es = ys @ zs'" by simp
      then show ?thesis unfolding step using IH(2) by fastforce
    qed
    show "\<exists>ys zs. es @ [e] = ys @ zs \<and> snd (foldl sweep_step (0, 0) (es @ [e])) = total_of ys"
    proof (cases "snd ?s \<le> total_of (es @ [e])")
      case True
      then show ?thesis unfolding step by (intro exI [of _ "es @ [e]"] exI [of _ "[]"]) simp
    next
      case False
      from IH(3) obtain ys zs where "es = ys @ zs" "snd ?s = total_of ys" by blast
      with False show ?thesis unfolding step by (intro exI [of _ ys] exI [of _ "zs @ [e]"]) simp
    qed
  qed
qed simp

definition exposure :: "int \<Rightarrow> paper_row list \<Rightarrow> rat" where
  "exposure t rows = sum_list (map row_reserve (filter (resting_at t) rows))"

lemma total_until:
  assumes "\<forall>r \<in> set rows. \<forall>ms. pm_snapshot_ts_ms r = Some ms \<longrightarrow> ms div 1000 \<le> pm_end_ts r"
  shows "total_of (filter (\<lambda>e. fst e \<le> t) (concat (map reserve_events rows))) = exposure t rows"
  using assms by (induction rows) (auto simp: exposure_def reserve_events_def resting_at_def split: option.splits)

lemma total_filter_sort:
  "total_of (filter P (sort_key f es)) = total_of (filter P es)"
proof -
  have "mset (map snd (filter P (sort_key f es))) = mset (map snd (filter P es))" by simp
  then show ?thesis by (metis sum_mset_sum_list)
qed

lemma sorted_times:
  assumes "sort_key sweep_order es = ys @ zs" "y \<in> set ys" "z \<in> set zs"
  shows "fst y < fst z \<or> (fst y = fst z \<and> (0 < snd y \<longrightarrow> 0 < snd z))"
proof -
  have "sorted (map sweep_order (ys @ zs))" using assms(1) sorted_sort_key [of sweep_order es] by simp
  then have "sweep_order y \<le> sweep_order z" using assms(2,3) by (auto simp: sorted_append)
  then show ?thesis by (auto simp: sweep_order_def less_eq_prod_def)
qed

text \<open>What has happened up to a time is the events before some place of the sweep.\<close>

lemma prefix_until:
  assumes "sorted (map fst (es :: (int \<times> rat) list))"
  shows "\<exists>zs. es = filter (\<lambda>e. fst e \<le> t) es @ zs"
  using assms
proof (induction es)
  case (Cons e es)
  show ?case
  proof (cases "fst e \<le> t")
    case False
    with Cons.prems have "filter (\<lambda>x. fst x \<le> t) es = []" by (auto simp: filter_empty_conv)
    with False show ?thesis by simp
  next
    case True
    with Cons show ?thesis by simp
  qed
qed simp

lemma sorted_fst_sweep: "sorted (map fst (sort_key sweep_order es))"
proof -
  have "sorted_wrt (\<lambda>x y. sweep_order x \<le> sweep_order y) (sort_key sweep_order es)"
    using sorted_sort_key [of sweep_order es] by (simp add: sorted_map)
  then have "sorted_wrt (\<lambda>x y. fst x \<le> fst y) (sort_key sweep_order es)"
    by (rule sorted_wrt_mono_rel [rotated]) (auto simp: sweep_order_def less_eq_prod_def)
  then show ?thesis by (simp add: sorted_map)
qed

text \<open>No place of the sweep shows more than was reserved at some time.\<close>

lemma prefix_exposed:
  assumes "sort_key sweep_order es = ys @ zs"
  shows "total_of ys \<le> 0 \<or> (\<exists>t. total_of ys \<le> total_of (filter (\<lambda>e. fst e \<le> t) es))"
  using assms
proof (induction ys arbitrary: zs rule: rev_induct)
  case (snoc e ys)
  show ?case
  proof (cases "0 < snd e")
    case False
    have "sort_key sweep_order es = ys @ e # zs" using snoc.prems by simp
    then have "total_of ys \<le> 0 \<or> (\<exists>t. total_of ys \<le> total_of (filter (\<lambda>e. fst e \<le> t) es))" by (rule snoc.IH)
    moreover have "total_of (ys @ [e]) \<le> total_of ys" using False by simp
    ultimately show ?thesis by (meson order_trans)
  next
    case True
    let ?P = "\<lambda>x. fst x \<le> fst e"
    have "fst y \<le> fst e" if "y \<in> set ys" for y
      using sorted_times [of es ys "e # zs" y e] snoc.prems that by auto
    then have before: "filter ?P (ys @ [e]) = ys @ [e]" by (simp add: filter_id_conv)
    have "0 \<le> total_of (filter ?P zs)"
      using sorted_times [of es "ys @ [e]" zs e] snoc.prems True
      by (intro sum_list_nonneg) force
    moreover have "filter ?P (sort_key sweep_order es) = (ys @ [e]) @ filter ?P zs"
      unfolding snoc.prems filter_append [of ?P "ys @ [e]" zs] before ..
    ultimately have "total_of (ys @ [e]) \<le> total_of (filter ?P (sort_key sweep_order es))" by simp
    then show ?thesis unfolding total_filter_sort by blast
  qed
qed simp

text \<open>
  C26. The reported peak is exact: with reserves of at most \<open>k\<close> decimals that stay in range, and
  orders placed no later than their market ends, no more than the peak is reserved at any
  time, some time reserves exactly the peak, and the reserve reported as active is what is
  reserved now.
\<close>

theorem peak_reserve_exact:
  assumes "\<forall>r \<in> set rows. 0 \<le> row_reserve r \<and> on_grid k (row_reserve r)"
    and "\<forall>r \<in> set rows. \<forall>ms. pm_snapshot_ts_ms r = Some ms \<longrightarrow> ms div 1000 \<le> pm_end_ts r"
    and "k \<le> 28" "2 * sum_list (map row_reserve rows) < 10 ^ (28 - k)"
  shows "(\<forall>t. exposure t rows \<le> peak_reserve rows) \<and> (\<exists>t. exposure t rows = peak_reserve rows)
    \<and> active_reserve now rows = exposure now rows"
proof -
  let ?es = "concat (map reserve_events rows)"
  let ?ss = "sort_key sweep_order ?es"
  have grid: "\<forall>e \<in> set ?ss. on_grid k (snd e)"
    using assms(1) by (auto simp: reserve_events_def on_grid_uminus split: option.splits)
  have "sum_list (map (\<lambda>e. \<bar>snd e\<bar>) ?es) \<le> 2 * sum_list (map row_reserve rows)"
    using assms(1) by (induction rows) (auto simp: reserve_events_def split: option.splits)
  moreover have "sum_list (map (\<lambda>e. \<bar>snd e\<bar>) ?ss) = sum_list (map (\<lambda>e. \<bar>snd e\<bar>) ?es)"
    using mset_map [of "\<lambda>e. \<bar>snd e\<bar>" ?ss] by (simp flip: sum_mset_sum_list)
  ultimately have range: "sum_list (map (\<lambda>e. \<bar>snd e\<bar>) ?ss) < 10 ^ (28 - k)" using assms(4) by linarith
  note sweep = foldl_sweep [OF grid assms(3) range]
  have exposed: "exposure t rows = total_of (filter (\<lambda>e. fst e \<le> t) ?ss)" for t
    unfolding total_filter_sort total_until [OF assms(2)] ..
  have le: "exposure t rows \<le> peak_reserve rows" for t
  proof -
    obtain zs where "?ss = filter (\<lambda>e. fst e \<le> t) ?ss @ zs"
      using prefix_until [OF sorted_fst_sweep, of ?es t] ..
    then have "total_of (filter (\<lambda>e. fst e \<le> t) ?ss) \<le> snd (foldl sweep_step (0, 0) ?ss)"
      using sweep by blast
    then show ?thesis unfolding exposed peak_reserve_def .
  qed
  obtain ys zs where ys: "?ss = ys @ zs" "peak_reserve rows = total_of ys"
    using sweep unfolding peak_reserve_def by blast
  have nn: "0 \<le> exposure t rows" for t
    unfolding exposure_def using assms(1) by (intro sum_list_nonneg) auto
  have "\<exists>t. exposure t rows = peak_reserve rows"
    using prefix_exposed [OF ys(1)]
  proof
    assume "total_of ys \<le> 0"
    then have "exposure t rows = peak_reserve rows" for t using ys(2) le [of t] nn [of t] by linarith
    then show ?thesis by blast
  next
    assume "\<exists>t. total_of ys \<le> total_of (filter (\<lambda>e. fst e \<le> t) ?es)"
    then obtain t where "total_of ys \<le> exposure t rows" unfolding total_until [OF assms(2)] by blast
    then have "exposure t rows = peak_reserve rows" using ys(2) le [of t] by linarith
    then show ?thesis by blast
  qed
  moreover have "active_reserve now rows = exposure now rows"
    unfolding active_reserve_def exposure_def
  proof (rule dsum_grid)
    have "sum_list (map row_reserve (filter (resting_at now) rows)) \<le> sum_list (map row_reserve rows)"
      using assms(1) by (induction rows) auto
    moreover have "0 \<le> sum_list (map row_reserve rows)" using assms(1) by (intro sum_list_nonneg) auto
    ultimately show "sum_list (map row_reserve (filter (resting_at now) rows)) < 10 ^ (28 - k)"
      using assms(4) by linarith
  qed (use assms in auto)
  ultimately show ?thesis using le by blast
qed

theorem peak_reserve_exact_witness:
  "let rows = [example_paper_row ''a'' (Some 1000000) 1400 ''monitoring'',
               example_paper_row ''b'' (Some 1300000) 1700 ''monitoring'']
   in exposure 1350 rows = 20 \<and> 20 \<le> peak_reserve rows"
proof -
  have res: "row_reserve (example_paper_row slug snap e st) = 10" for slug snap e st
    by (simp add: row_reserve_def dec_eval)
  show ?thesis
    using peak_reserve_exact [of "[example_paper_row ''a'' (Some 1000000) 1400 ''monitoring'',
        example_paper_row ''b'' (Some 1300000) 1700 ''monitoring'']" 0 0]
    by (auto simp: res Let_def exposure_def resting_at_def on_grid_def dest: spec [of _ 1350])
qed

end
