(* ===== verification/Paper.thy ===== *)
theory Paper
  imports Paper_Report Json_Text
begin

text \<open>
  \<open>PaperSimulator\<close> of \<open>polymarket_bot/paper.py\<close>: registering announced markets, capturing the
  public queue, settling finished markets, and the loop that schedules the three. The books,
  Gamma and the trade history are parameters (\<open>paper_world\<close>): an answer is the decoded body or
  the exception of the request. Within one method the readings of \<open>time.time()\<close> are one value;
  the loop's readings of the monotonic clock are given one by one. Logging is left out.

  Capturing and settling loop over rows fetched once and update each under its key. They are
  refined from a step on one row (\<open>capture_step\<close>, \<open>settle_step\<close>): \<open>find_capture\<close> and
  \<open>find_settle\<close> show that the loop is that step on every row, so what one market answers never
  touches another, and what holds of the steps holds of every run (\<open>row_law\<close>).
\<close>

definition SNAPSHOT_RETRY_SECONDS :: rat where "SNAPSHOT_RETRY_SECONDS = to_double (1 / 20)"
definition SETTLEMENT_POLL_SECONDS :: rat where "SETTLEMENT_POLL_SECONDS = 30"
definition TRADE_PAGE_LIMIT :: nat where "TRADE_PAGE_LIMIT = 10000"

record paper_world =
  pw_clock :: rat
  pw_books :: "string \<Rightarrow> string \<Rightarrow> exn + json"
  pw_gamma :: "string \<Rightarrow> exn + json"
  pw_trades :: "string \<Rightarrow> int \<Rightarrow> int \<Rightarrow> exn + json"

definition pw_ts :: "paper_world \<Rightarrow> int" where "pw_ts w = now_seconds (pw_clock w)"
definition pw_ms :: "paper_world \<Rightarrow> int" where "pw_ms w = now_millis (pw_clock w)"

record simulator =
  si_db :: paper_db
  si_plan :: trade_plan
  si_key :: string

subsection \<open>Registering\<close>

text \<open>\<open>_drain_activation_updates\<close>; the value says whether a market was registered.\<close>

definition drain_one :: "paper_world \<Rightarrow> act_update \<Rightarrow> bool \<times> simulator \<Rightarrow> bool \<times> simulator" where
  "drain_one w u st =
     (case u of
        ActState _ \<Rightarrow> st
      | Activated update \<Rightarrow>
          (case paper_register (si_key (snd st)) update (si_plan (snd st)) (pw_ts w) (si_db (snd st)) of
             (new, db) \<Rightarrow> (fst st \<or> new, (snd st)\<lparr>si_db := db\<rparr>)))"

definition drain_activation :: "paper_world \<Rightarrow> act_update list \<Rightarrow> simulator \<Rightarrow> bool \<times> simulator" where
  "drain_activation w updates si = fold (drain_one w) updates (False, si)"

subsection \<open>Capturing the queue\<close>

definition book_entry :: "json \<Rightarrow> (string \<times> payload) list" where
  "book_entry j =
     (if is_dict j then [(py_str (por (pget ''asset_id'' (as_dict j)) (JStr [])), as_dict j)] else [])"

text \<open>\<open>_books\<close>: the two books of the row, its tokens read out of the dictionary.\<close>

definition books_of :: "paper_world \<Rightarrow> paper_row \<Rightarrow> exn + payload \<times> payload" where
  "books_of w r =
     rbind (pw_books w (pm_up_token_id r) (pm_down_token_id r)) (\<lambda>payload.
       case payload of
         JArr js \<Rightarrow>
           (let books = dict_of_pairs (concat (map book_entry js)) in
            case (dict_get books (pm_up_token_id r), dict_get books (pm_down_token_id r)) of
              (Some up, Some down) \<Rightarrow> Return (up, down)
            | _ \<Rightarrow> Raise (ValueError ''CLOB books response is missing an outcome''))
       | _ \<Rightarrow> Raise (ValueError ''CLOB books response is not a list''))"

definition source_timestamp :: "payload \<Rightarrow> int list" where
  "source_timestamp book =
     (let t = py_str (por (pget ''timestamp'' book) (JStr [])) in
      if t \<noteq> [] \<and> list_all is_digit t then [digits_value t] else [])"

text \<open>A timestamp that SQLite's 64-bit integers cannot hold makes the write of the snapshot raise.\<close>

definition capture_books :: "paper_world \<Rightarrow> paper_row \<Rightarrow> exn + book_snapshot" where
  "capture_books w r =
     rbind (books_of w r) (\<lambda>(up, down).
     let stamps = source_timestamp up @ source_timestamp down in
     rbind (queue_at_price up (pm_buy_price r)) (\<lambda>uq.
     rbind (queue_at_price down (pm_buy_price r)) (\<lambda>dq.
     let source = (if stamps = [] then 0 else fold max (tl stamps) (hd stamps)) in
     if 2 ^ 63 \<le> source
     then Raise (Raised ''OverflowError'' ''Python int too large to convert to SQLite INTEGER'')
     else Return \<lparr>bs_snapshot_ts_ms = pw_ms w, bs_source_ts_ms = source,
                  bs_up_queue = uq, bs_down_queue = dq\<rparr>)))"

definition capture_row :: "paper_world \<Rightarrow> string \<Rightarrow> paper_row \<Rightarrow> paper_db \<Rightarrow> paper_db" where
  "capture_row w key r db =
     (case capture_books w r of
        Inr b \<Rightarrow> set_snapshot key (pm_slug r) b (pw_ts w) db
      | Inl e \<Rightarrow> snd (set_error key (pm_slug r) (exn_text e) (pw_ts w) db))"

definition capture_pending :: "paper_world \<Rightarrow> string \<Rightarrow> paper_db \<Rightarrow> bool \<times> paper_db" where
  "capture_pending w key db =
     (let db = expire_pending_snapshots key (pw_ts w) db;
          db = fold (capture_row w key) (pending_snapshots key db) db
      in (pending_snapshots key db \<noteq> [], db))"

subsection \<open>Settling\<close>

text \<open>\<open>json.loads(value)\<close>, iterated: the text of a list in the market record.\<close>

definition loads_value :: "json \<Rightarrow> exn + json" where
  "loads_value v =
     (case v of
        JStr s \<Rightarrow> (case loads s of None \<Rightarrow> Raise (Raised ''JSONDecodeError'' ''Expecting value'') | Some j \<Rightarrow> Return j)
      | _ \<Rightarrow> Raise (TypeError ''the JSON object must be str, bytes or bytearray''))"

definition item :: "string \<Rightarrow> payload \<Rightarrow> exn + json" where
  "item k d = (case map_of d k of None \<Rightarrow> Raise (KeyError (repr_str k)) | Some v \<Rightarrow> Return v)"

definition winner_of :: "paper_world \<Rightarrow> string \<Rightarrow> exn + string" where
  "winner_of w slug =
     rbind (pw_gamma w slug) (\<lambda>body.
     if \<not> is_dict body then Raise (Raised ''AttributeError'' ''get'')
     else if pget ''closed'' (as_dict body) \<noteq> JBool True then Raise (ResolutionPending slug)
     else rbind (item ''outcomes'' (as_dict body)) (\<lambda>ot. rbind (loads_value ot) (\<lambda>oj.
          rbind (item ''outcomePrices'' (as_dict body)) (\<lambda>pt. rbind (loads_value pt) (\<lambda>pj.
          rbind (py_iter pj) (\<lambda>pvs. rbind (rtraverse dec_of pvs) (\<lambda>prices.
          rbind (py_iter oj) (\<lambda>outcomes.
            if length outcomes \<noteq> length prices then Raise (ValueError ''zip() arguments differ in length'')
            else case map (\<lambda>(o', p). lower (py_str o')) (filter (\<lambda>(o', p). p = 1) (zip outcomes prices)) of
                   [winner] \<Rightarrow> Return winner
                 | _ \<Rightarrow> Raise (ResolutionPending slug)))))))))"

text \<open>\<open>int(value or 0)\<close> of a trade's timestamp.\<close>

definition int_field :: "string \<Rightarrow> payload \<Rightarrow> exn + int" where
  "int_field k d =
     (let v = pget k d in
      if \<not> truthy v then Return 0
      else case v of
        JInt i \<Rightarrow> Return i
      | JBool b \<Rightarrow> Return 1
      | JReal t \<Rightarrow> (case py_decimal t of None \<Rightarrow> Raise (ValueError ''cannot convert float to integer'')
                    | Some x \<Rightarrow> Return (dtrunc x))
      | JStr s \<Rightarrow> (case py_int s of None \<Rightarrow> Raise (ValueError (''invalid literal for int() with base 10: '' @ repr_str s))
                   | Some i \<Rightarrow> Return i)
      | _ \<Rightarrow> Raise (TypeError ''int() argument must be a string or a real number''))"

definition trade_since :: "int \<Rightarrow> json \<Rightarrow> exn + payload list" where
  "trade_since start_ts j =
     (if \<not> is_dict j then Return []
      else rbind (int_field ''timestamp'' (as_dict j)) (\<lambda>t.
        Return (if start_ts \<le> t then [as_dict j] else [])))"

text \<open>The first full second after the snapshot.\<close>

definition trades_start :: "int \<Rightarrow> int" where
  "trades_start snapshot_ts_ms = (snapshot_ts_ms + 999) div 1000"

definition trades_of :: "paper_world \<Rightarrow> paper_row \<Rightarrow> int \<Rightarrow> exn + payload list" where
  "trades_of w r now_ts =
     (case pm_snapshot_ts_ms r of
        None \<Rightarrow> Raise (TypeError ''int() argument must be a string or a real number'')
      | Some ms \<Rightarrow>
          rbind (pw_trades w (pm_condition_id r) (trades_start ms) now_ts) (\<lambda>payload.
            case payload of
              JArr js \<Rightarrow>
                if TRADE_PAGE_LIMIT \<le> length js then
                  Raise (ValueError ''trade response reached the 10000-row audit limit'')
                else rbind (rtraverse (trade_since (trades_start ms)) js) (\<lambda>ts. Return (concat ts))
            | _ \<Rightarrow> Raise (ValueError ''trade response is not a list'')))"

definition queue_value :: "rat option \<Rightarrow> exn + rat" where
  "queue_value q =
     (case q of None \<Rightarrow> Raise (TypeError ''conversion from NoneType to Decimal is not supported'')
      | Some x \<Rightarrow> Return x)"

definition settlement :: "paper_world \<Rightarrow> int \<Rightarrow> paper_row \<Rightarrow> exn + paper_result \<times> nat" where
  "settlement w now_ts r =
     rbind (winner_of w (pm_slug r)) (\<lambda>winner.
     rbind (trades_of w r now_ts) (\<lambda>trades.
     rbind (queue_value (pm_up_queue r)) (\<lambda>uq. rbind (queue_value (pm_down_queue r)) (\<lambda>dq.
     rbind (calculate_result winner trades (pm_up_token_id r) (pm_down_token_id r)
              (pm_buy_price r) (pm_order_size r) uq dq) (\<lambda>res.
       Return (res, length trades))))))"

definition settle_row :: "paper_world \<Rightarrow> string \<Rightarrow> int \<Rightarrow> paper_row \<Rightarrow> paper_db \<Rightarrow> paper_db" where
  "settle_row w key now_ts r db =
     (case settlement w now_ts r of
        Inr (res, n) \<Rightarrow> set_result key (pm_slug r) res n now_ts db
      | Inl (ResolutionPending _) \<Rightarrow> db
      | Inl e \<Rightarrow> snd (set_error key (pm_slug r) (exn_text e) now_ts db))"

definition settle_finished :: "paper_world \<Rightarrow> string \<Rightarrow> paper_db \<Rightarrow> paper_db" where
  "settle_finished w key db =
     fold (settle_row w key (pw_ts w)) (ready_to_settle key (pw_ts w) db) db"

subsection \<open>The loop\<close>

text \<open>What one pass of the loop is given, in the order it reads it.\<close>

record paper_pass =
  pp_start :: rat
  pp_updates :: "act_update list"
  pp_register :: paper_world
  pp_captured :: rat
  pp_now :: rat
  pp_retry :: paper_world
  pp_settle :: paper_world
  pp_beat :: rat
  pp_wait :: rat

text \<open>\<open>None\<close> is the infinity of \<open>next_snapshot_retry\<close>.\<close>

record loop_state =
  lp_sim :: simulator
  lp_pending :: bool
  lp_next_retry :: "rat option"
  lp_next_poll :: rat
  lp_next_heartbeat :: rat

definition retry_after :: "rat \<Rightarrow> bool \<Rightarrow> rat option" where
  "retry_after now pending = (if pending then Some (to_double (now + SNAPSHOT_RETRY_SECONDS)) else None)"

definition capture_into :: "paper_world \<Rightarrow> rat \<Rightarrow> loop_state \<Rightarrow> loop_state" where
  "capture_into w now s =
     (case capture_pending w (si_key (lp_sim s)) (si_db (lp_sim s)) of
        (pending, db) \<Rightarrow> s\<lparr>lp_sim := (lp_sim s)\<lparr>si_db := db\<rparr>, lp_pending := pending,
                          lp_next_retry := retry_after now pending\<rparr>)"

definition register_stage :: "paper_pass \<Rightarrow> loop_state \<Rightarrow> loop_state" where
  "register_stage p s =
     (case drain_activation (pp_register p) (pp_updates p) (lp_sim s) of
        (registered, si) \<Rightarrow>
          (let s = s\<lparr>lp_sim := si\<rparr>
           in if registered then capture_into (pp_register p) (pp_captured p) s else s))"

definition retry_stage :: "paper_pass \<Rightarrow> loop_state \<Rightarrow> loop_state" where
  "retry_stage p s =
     (if lp_pending s \<and> (case lp_next_retry s of None \<Rightarrow> False | Some t \<Rightarrow> t \<le> pp_now p)
      then capture_into (pp_retry p) (pp_now p) s else s)"

definition settle_stage :: "paper_pass \<Rightarrow> loop_state \<Rightarrow> loop_state" where
  "settle_stage p s =
     (if lp_next_poll s \<le> pp_now p
      then s\<lparr>lp_sim := (lp_sim s)\<lparr>si_db := settle_finished (pp_settle p) (si_key (lp_sim s)) (si_db (lp_sim s))\<rparr>,
             lp_next_poll := to_double (pp_now p + SETTLEMENT_POLL_SECONDS)\<rparr>
      else s)"

definition heartbeat_stage :: "paper_pass \<Rightarrow> loop_state \<Rightarrow> loop_state" where
  "heartbeat_stage p s =
     (if lp_next_heartbeat s \<le> pp_now p
      then s\<lparr>lp_sim := (lp_sim s)\<lparr>si_db := paper_heartbeat (now_seconds (pp_beat p)) (si_db (lp_sim s))\<rparr>,
             lp_next_heartbeat := to_double (pp_now p + 10)\<rparr>
      else s)"

definition paper_pass_step :: "paper_pass \<Rightarrow> loop_state \<Rightarrow> loop_state" where
  "paper_pass_step p s = heartbeat_stage p (settle_stage p (retry_stage p (register_stage p s)))"

text \<open>How long the loop then waits for the wake event.\<close>

definition wait_seconds :: "paper_pass \<Rightarrow> loop_state \<Rightarrow> rat" where
  "wait_seconds p s =
     (let due = min (lp_next_poll s) (lp_next_heartbeat s);
          due = (case lp_next_retry s of None \<Rightarrow> due | Some t \<Rightarrow> min t due)
      in min (to_double (1 / 5)) (max 0 (to_double (due - pp_wait p))))"

text \<open>
  The loop over its passes: it ends at the deadline, or with the list at a Ctrl+C. \<open>start_loop\<close>
  is \<open>run\<close> up to the loop; \<open>final\<close> is what the final drain of the \<open>finally\<close> block delivers.
\<close>

fun paper_loop :: "rat option \<Rightarrow> paper_pass list \<Rightarrow> loop_state \<Rightarrow> loop_state" where
  "paper_loop deadline [] s = s"
| "paper_loop deadline (p # ps) s =
     (if (case deadline of None \<Rightarrow> False | Some d \<Rightarrow> d \<le> pp_start p) then s
      else paper_loop deadline ps (paper_pass_step p s))"

definition start_loop :: "paper_world \<Rightarrow> simulator \<Rightarrow> loop_state" where
  "start_loop w si =
     (case paper_start (si_plan si) (pw_ts w) (si_db si) of
        (key, db) \<Rightarrow>
          (let pending = (pending_snapshots key db \<noteq> [])
           in \<lparr>lp_sim = si\<lparr>si_key := key, si_db := db\<rparr>, lp_pending = pending,
               lp_next_retry = (if pending then Some 0 else None), lp_next_poll = 0,
               lp_next_heartbeat = 0\<rparr>))"

definition loop_deadline :: "rat \<Rightarrow> rat option \<Rightarrow> rat option" where
  "loop_deadline now hours =
     map_option (\<lambda>h. to_double (now + to_double (dmul h 3600))) hours"

definition paper_run ::
  "paper_world \<Rightarrow> rat \<Rightarrow> rat option \<Rightarrow> paper_pass list \<Rightarrow> paper_world \<times> act_update list \<Rightarrow> simulator \<Rightarrow> simulator" where
  "paper_run w started hours passes final si =
     snd (drain_activation (fst final) (snd final)
       (lp_sim (paper_loop (loop_deadline started hours) passes (start_loop w si))))"

definition simulator_init :: "trade_plan \<Rightarrow> paper_db \<Rightarrow> simulator" where
  "simulator_init plan db = \<lparr>si_db = db, si_plan = plan, si_key = strategy_key plan\<rparr>"

end
