(* ===== verification/Paper_Facts.thy ===== *)
theory Paper_Facts
  imports Paper
begin

text \<open>
  What holds of the paper simulator: its loops are a step on every row, a row only moves along
  its life cycle and keeps its shape, and a finished market is settled by the next poll that
  can read its outcome, whatever the other markets answer.
\<close>

subsection \<open>The steps on one row\<close>

definition capture_update :: "paper_world \<Rightarrow> paper_row \<Rightarrow> paper_row \<Rightarrow> paper_row" where
  "capture_update w r =
     (case capture_books w r of
        Inr b \<Rightarrow> snapshot_row b (pw_ts w)
      | Inl e \<Rightarrow> error_row (exn_text e) (pw_ts w))"

definition capture_step :: "paper_world \<Rightarrow> string \<Rightarrow> paper_row \<Rightarrow> paper_row" where
  "capture_step w key r =
     (if pm_strategy_key r \<noteq> key \<or> pm_status r \<noteq> ''snapshot_pending'' then r
      else if pm_end_ts r \<le> pw_ts w then missed_row (pw_ts w) r else capture_update w r r)"

definition settle_update :: "paper_world \<Rightarrow> int \<Rightarrow> paper_row \<Rightarrow> paper_row \<Rightarrow> paper_row" where
  "settle_update w now_ts r =
     (case settlement w now_ts r of
        Inr (res, n) \<Rightarrow> result_row res n now_ts
      | Inl (ResolutionPending _) \<Rightarrow> (\<lambda>r. r)
      | Inl e \<Rightarrow> error_row (exn_text e) now_ts)"

definition settle_step :: "paper_world \<Rightarrow> string \<Rightarrow> paper_row \<Rightarrow> paper_row" where
  "settle_step w key r =
     (if pm_strategy_key r \<noteq> key \<or> pm_status r \<noteq> ''monitoring''
        \<or> \<not> pm_end_ts r \<le> pw_ts w - FINALIZATION_DELAY_SECONDS then r
      else settle_update w (pw_ts w) r r)"

lemma row_key_capture_update [simp]: "row_key (capture_update w x r) = row_key r"
  by (simp add: capture_update_def split: sum.splits)

lemma row_key_settle_update [simp]: "row_key (settle_update w t x r) = row_key r"
  by (simp add: settle_update_def split: sum.splits prod.splits exn.splits)

lemma paper_touch_id [simp]: "paper_touch k (\<lambda>r. r) db = db"
  by (simp add: paper_touch_def table_update_def)

lemma capture_row_touch:
  "pm_strategy_key r = key \<Longrightarrow> capture_row w key r = paper_touch (row_key r) (capture_update w r)"
  by (rule ext) (simp add: capture_row_def capture_update_def set_snapshot_def set_error_def row_key_def
      split: sum.splits)

lemma settle_row_touch:
  "pm_strategy_key r = key \<Longrightarrow> settle_row w key t r = paper_touch (row_key r) (settle_update w t r)"
  by (rule ext) (simp add: settle_row_def settle_update_def set_result_def set_error_def row_key_def
      split: sum.splits prod.splits exn.splits)

lemma fold_touch_ok:
  "(\<And>x r. row_key (f x r) = row_key r) \<Longrightarrow>
     paper_ok (fold (\<lambda>x. paper_touch (kf x) (f x)) xs db) = paper_ok db"
  by (induction xs arbitrary: db) simp_all

text \<open>A loop over the rows of a query, each updated under its key.\<close>

lemma find_loop:
  assumes ok: "paper_ok db" and f: "\<And>x r. row_key (f x r) = row_key r"
  shows "paper_find k (fold (\<lambda>x. paper_touch (row_key x) (f x)) (sort_key g (filter P (pd_rows db))) db) =
    map_option (\<lambda>r. if P r then f r r else r) (paper_find k db)"
proof -
  let ?q = "sort_key g (filter P (pd_rows db))"
  have "paper_find k (fold (\<lambda>x. paper_touch (row_key x) (f x)) ?q db) =
      (case find (\<lambda>x. row_key x = k) ?q of None \<Rightarrow> paper_find k db
       | Some x \<Rightarrow> map_option (f x) (paper_find k db))"
    by (rule paper_rows.touches_get [OF distinct_query [OF ok] f])
  also have "\<dots> = map_option (\<lambda>r. if P r then f r r else r) (paper_find k db)"
  proof (cases "paper_find k db")
    case None
    then have "find (\<lambda>x. row_key x = k) ?q = None"
      by (auto simp: find_None_iff paper_find_def table_find_None)
    with None show ?thesis by simp
  next
    case (Some r)
    then show ?thesis using find_query [OF ok Some, of g P] by simp
  qed
  finally show ?thesis .
qed

lemma capture_pending_fold:
  "snd (capture_pending w key db) =
     fold (\<lambda>x. paper_touch (row_key x) (capture_update w x))
       (pending_snapshots key (expire_pending_snapshots key (pw_ts w) db))
       (expire_pending_snapshots key (pw_ts w) db)"
  unfolding capture_pending_def Let_def snd_conv
  by (rule fold_cong) (auto simp: pending_snapshots_def capture_row_touch)

lemma settle_finished_fold:
  "settle_finished w key db =
     fold (\<lambda>x. paper_touch (row_key x) (settle_update w (pw_ts w) x)) (ready_to_settle key (pw_ts w) db) db"
  unfolding settle_finished_def
  by (rule fold_cong) (auto simp: ready_to_settle_def settle_row_touch)

lemma find_capture:
  assumes "paper_ok db"
  shows "paper_find k (snd (capture_pending w key db)) = map_option (capture_step w key) (paper_find k db)"
  unfolding capture_pending_fold pending_snapshots_def
  by (subst find_loop)
    (auto simp: assms paper_find_expire capture_step_def missed_row_def option.map_comp comp_def
      intro!: option.map_cong)

lemma find_settle:
  assumes "paper_ok db"
  shows "paper_find k (settle_finished w key db) = map_option (settle_step w key) (paper_find k db)"
  unfolding settle_finished_fold ready_to_settle_def
  by (subst find_loop) (auto simp: assms settle_step_def intro!: option.map_cong)

lemma capture_ok [simp]: "paper_ok (snd (capture_pending w key db)) = paper_ok db"
  unfolding capture_pending_fold by (simp add: fold_touch_ok)

lemma settle_ok [simp]: "paper_ok (settle_finished w key db) = paper_ok db"
  unfolding settle_finished_fold by (simp add: fold_touch_ok)

text \<open>
  C18. The two loops of the simulator are a step on every row on its own: although they fetch a
  list of rows once and write each through a statement of its own, after them every row is
  what its own step makes of it, none is added and none is lost. An unreadable answer for one
  market therefore never changes another.
\<close>

theorem paper_loops_pointwise:
  assumes "paper_ok db"
  shows "paper_find k (snd (capture_pending w key db)) = map_option (capture_step w key) (paper_find k db)
    \<and> paper_find k (settle_finished w key db) = map_option (settle_step w key) (paper_find k db)"
  using find_capture [OF assms] find_settle [OF assms] by blast

definition example_paper_db :: paper_db where
  "example_paper_db =
     \<lparr>pd_state = None, pd_rows = [example_paper_row ''a'' (Some 0) 400 ''monitoring'',
        example_paper_row ''b'' None 700 ''snapshot_pending'']\<rparr>"

theorem paper_loops_pointwise_witness:
  "\<forall>w. paper_find (''k'', ''a'') (settle_finished w ''k'' example_paper_db)
         = Some (settle_step w ''k'' (example_paper_row ''a'' (Some 0) 400 ''monitoring''))
     \<and> paper_find (''k'', ''b'') (snd (capture_pending w ''k'' example_paper_db))
         = Some (capture_step w ''k'' (example_paper_row ''b'' None 700 ''snapshot_pending''))"
proof -
  have ok: "paper_ok example_paper_db" by (simp add: paper_ok_def row_key_def example_paper_db_def)
  have "paper_find (''k'', ''a'') example_paper_db = Some (example_paper_row ''a'' (Some 0) 400 ''monitoring'')"
    "paper_find (''k'', ''b'') example_paper_db = Some (example_paper_row ''b'' None 700 ''snapshot_pending'')"
    by (simp_all add: paper_find_def table_find_def row_key_def example_paper_db_def)
  with paper_loops_pointwise [OF ok] show ?thesis by simp
qed

subsection \<open>Laws of the rows\<close>

text \<open>
  What a client learns of a run from the steps alone: a relation between a row and what becomes
  of it, and a property every row keeps.
\<close>

locale row_law =
  fixes R :: "paper_row \<Rightarrow> paper_row \<Rightarrow> bool"
    and I :: "paper_row \<Rightarrow> bool"
  assumes refl: "R r r"
    and trans: "R r r' \<Longrightarrow> R r' r'' \<Longrightarrow> R r r''"
    and new: "I (new_row key u plan now)"
    and capture: "I r \<Longrightarrow> R r (capture_step w key r) \<and> I (capture_step w key r)"
    and settle: "I r \<Longrightarrow> R r (settle_step w key r) \<and> I (settle_step w key r)"
begin

definition follows :: "paper_db \<Rightarrow> paper_db \<Rightarrow> bool" where
  "follows db db' \<longleftrightarrow> paper_ok db' \<and> (\<forall>k r. paper_find k db' = Some r \<longrightarrow> I r)
     \<and> (\<forall>k r. paper_find k db = Some r \<longrightarrow> (\<exists>r'. paper_find k db' = Some r' \<and> R r r'))"

lemma followsI:
  assumes "paper_ok db'" "\<And>k r. paper_find k db' = Some r \<Longrightarrow> I r"
    "\<And>k r. paper_find k db = Some r \<Longrightarrow> \<exists>r'. paper_find k db' = Some r' \<and> R r r'"
  shows "follows db db'"
  using assms by (simp add: follows_def)

lemma followsD:
  assumes "follows db db'"
  shows "paper_ok db'" "paper_find k db' = Some r \<Longrightarrow> I r"
    "paper_find k db = Some r \<Longrightarrow> \<exists>r'. paper_find k db' = Some r' \<and> R r r'"
  using assms unfolding follows_def by blast+

lemma follows_step:
  assumes f: "follows a b" and "paper_ok c" and c: "\<And>k. paper_find k c = map_option g (paper_find k b)"
    and g: "\<And>r. I r \<Longrightarrow> R r (g r) \<and> I (g r)"
  shows "follows a c"
proof (rule followsI)
  fix k r assume "paper_find k c = Some r"
  then obtain r1 where "paper_find k b = Some r1" "r = g r1" by (auto simp: c)
  then show "I r" using followsD(2) [OF f] g by blast
next
  fix k r assume "paper_find k a = Some r"
  then obtain r1 where r1: "paper_find k b = Some r1" "R r r1" using followsD(3) [OF f] by blast
  then have "R r1 (g r1)" using followsD(2) [OF f] g by blast
  with r1 show "\<exists>r'. paper_find k c = Some r' \<and> R r r'" using trans by (auto simp: c)
qed fact

lemma follows_capture: "follows a b \<Longrightarrow> follows a (snd (capture_pending w key b))"
  by (rule follows_step [where g = "capture_step w key"])
    (simp_all add: find_capture followsD(1) capture)

lemma follows_settle: "follows a b \<Longrightarrow> follows a (settle_finished w key b)"
  by (rule follows_step [where g = "settle_step w key"])
    (simp_all add: find_settle followsD(1) settle)

lemma find_register:
  "paper_find k (snd (paper_register key u plan now b)) =
     (case paper_find k b of
        None \<Rightarrow> if k = row_key (new_row key u plan now) then Some (new_row key u plan now) else None
      | Some x \<Rightarrow> Some x)"
  by (simp add: paper_register_def Let_def paper_rows.get_insert)

lemma follows_register:
  assumes f: "follows a b" shows "follows a (snd (paper_register key u plan now b))"
proof (rule followsI)
  show "paper_ok (snd (paper_register key u plan now b))" using followsD(1) [OF f] by simp
next
  fix k r assume "paper_find k (snd (paper_register key u plan now b)) = Some r"
  then show "I r" using followsD(2) [OF f] new by (auto simp: find_register split: option.splits if_splits)
next
  fix k r assume "paper_find k a = Some r"
  then obtain r' where "paper_find k b = Some r'" "R r r'" using followsD(3) [OF f] by blast
  then show "\<exists>r'. paper_find k (snd (paper_register key u plan now b)) = Some r' \<and> R r r'"
    by (simp add: find_register)
qed

lemma follows_drain:
  "follows a (si_db si) \<Longrightarrow> follows a (si_db (snd (drain_activation w us si)))"
proof -
  have "follows a (si_db (snd st)) \<Longrightarrow> follows a (si_db (snd (fold (drain_one w) us st)))" for st
  proof (induction us arbitrary: st)
    case (Cons u us)
    have "follows a (si_db (snd (drain_one w u st)))"
      using Cons.prems follows_register [OF Cons.prems]
      by (simp add: drain_one_def case_prod_beta split: act_update.splits)
    with Cons.IH show ?case by simp
  qed simp
  then show "follows a (si_db si) \<Longrightarrow> follows a (si_db (snd (drain_activation w us si)))"
    by (simp add: drain_activation_def)
qed

lemma follows_pass: "follows a (si_db (lp_sim s)) \<Longrightarrow> follows a (si_db (lp_sim (paper_pass_step p s)))"
proof -
  assume s: "follows a (si_db (lp_sim s))"
  have cap: "follows a (si_db (lp_sim (capture_into w t s')))" if "follows a (si_db (lp_sim s'))" for w t s'
    using follows_capture [OF that] by (simp add: capture_into_def case_prod_beta)
  have "follows a (si_db (lp_sim (register_stage p s)))"
    using follows_drain [OF s, of "pp_register p" "pp_updates p"]
    by (auto simp: register_stage_def Let_def case_prod_beta intro!: cap)
  then have "follows a (si_db (lp_sim (retry_stage p (register_stage p s))))"
    by (simp add: retry_stage_def cap)
  then have "follows a (si_db (lp_sim (settle_stage p (retry_stage p (register_stage p s)))))"
    by (simp add: settle_stage_def follows_settle)
  then show ?thesis
    by (auto simp: paper_pass_step_def heartbeat_stage_def follows_def)
qed

lemma follows_loop:
  "follows a (si_db (lp_sim s)) \<Longrightarrow> follows a (si_db (lp_sim (paper_loop deadline ps s)))"
  by (induction ps arbitrary: s) (auto simp: follows_pass)

lemma follows_run:
  assumes "paper_ok (si_db si)" "\<And>r. r \<in> set (pd_rows (si_db si)) \<Longrightarrow> I r"
  shows "follows (si_db si) (si_db (paper_run w t hours passes final si))"
proof -
  have "follows (si_db si) (si_db (lp_sim (start_loop w si)))"
    using assms refl paper_find_row [OF assms(1)]
    by (auto simp: follows_def start_loop_def paper_start_def Let_def paper_ok_def paper_find_def)
  then show ?thesis unfolding paper_run_def by (intro follows_drain follows_loop)
qed

end

subsection \<open>The life cycle of a row\<close>

text \<open>The shape of a row: which columns are filled, by status.\<close>

definition settled_from :: "paper_row \<Rightarrow> paper_result \<Rightarrow> nat \<Rightarrow> bool" where
  "settled_from r res n \<longleftrightarrow>
     (\<exists>winner trades uq dq. pm_up_queue r = Some uq \<and> pm_down_queue r = Some dq \<and> length trades = n
        \<and> calculate_result winner trades (pm_up_token_id r) (pm_down_token_id r) (pm_buy_price r)
            (pm_order_size r) uq dq = Return res)"

definition row_shape :: "paper_row \<Rightarrow> bool" where
  "row_shape r \<longleftrightarrow>
     (pm_status r = ''snapshot_pending'' \<and> pm_snapshot_ts_ms r = None \<and> pm_result r = None)
   \<or> (pm_status r = ''missed'' \<and> pm_snapshot_ts_ms r = None \<and> pm_result r = None
        \<and> pm_end_ts r \<le> pm_updated_ts r)
   \<or> (pm_status r = ''monitoring'' \<and> pm_snapshot_ts_ms r \<noteq> None \<and> pm_up_queue r \<noteq> None
        \<and> pm_down_queue r \<noteq> None \<and> pm_result r = None)
   \<or> (pm_status r = ''settled'' \<and> pm_snapshot_ts_ms r \<noteq> None \<and> pm_error r = None
        \<and> pm_end_ts r + FINALIZATION_DELAY_SECONDS \<le> pm_updated_ts r
        \<and> (\<exists>res n. pm_result r = Some (res, n) \<and> settled_from r res n))"

text \<open>What a row can become: the market and the order never change, a snapshot is taken once.\<close>

definition same_order :: "paper_row \<Rightarrow> paper_row \<Rightarrow> bool" where
  "same_order r r' \<longleftrightarrow>
     row_key r' = row_key r \<and> pm_condition_id r' = pm_condition_id r \<and> pm_start_ts r' = pm_start_ts r
   \<and> pm_end_ts r' = pm_end_ts r \<and> pm_up_token_id r' = pm_up_token_id r
   \<and> pm_down_token_id r' = pm_down_token_id r \<and> pm_detected_ts_ms r' = pm_detected_ts_ms r
   \<and> pm_buy_price r' = pm_buy_price r \<and> pm_order_size r' = pm_order_size r"

definition row_advances :: "paper_row \<Rightarrow> paper_row \<Rightarrow> bool" where
  "row_advances r r' \<longleftrightarrow>
     same_order r r'
   \<and> (pm_snapshot_ts_ms r \<noteq> None \<longrightarrow> pm_snapshot_ts_ms r' = pm_snapshot_ts_ms r
        \<and> pm_up_queue r' = pm_up_queue r \<and> pm_down_queue r' = pm_down_queue r)
   \<and> (pm_status r = ''monitoring'' \<longrightarrow> pm_status r' \<in> {''monitoring'', ''settled''})
   \<and> (pm_status r = ''missed'' \<or> pm_status r = ''settled'' \<longrightarrow> r' = r)"

lemma row_advances_refl: "row_advances r r"
  by (simp add: row_advances_def same_order_def)

lemma same_order_trans: "same_order r r' \<Longrightarrow> same_order r' r'' \<Longrightarrow> same_order r r''"
  by (simp add: same_order_def)

lemma row_advances_trans: "row_advances r r' \<Longrightarrow> row_advances r' r'' \<Longrightarrow> row_advances r r''"
  unfolding row_advances_def using same_order_trans [of r r' r''] by auto

lemma settlement_Return:
  "settlement w t r = Return (res, n) \<Longrightarrow> settled_from r res n"
  by (auto simp: settlement_def rbind_Inr_iff settled_from_def queue_value_def split: option.splits)

lemma capture_step_law:
  assumes "row_shape r"
  shows "row_advances r (capture_step w key r) \<and> row_shape (capture_step w key r)"
proof (cases "pm_strategy_key r \<noteq> key \<or> pm_status r \<noteq> ''snapshot_pending''")
  case True
  then have "capture_step w key r = r" by (simp add: capture_step_def)
  then show ?thesis using assms by (simp add: row_advances_refl)
next
  case False
  then have sh: "pm_snapshot_ts_ms r = None" "pm_result r = None" "pm_status r = ''snapshot_pending''"
    using assms by (auto simp: row_shape_def)
  show ?thesis
    unfolding capture_step_def using False sh
    by (cases "capture_books w r")
      (simp_all add: row_advances_def same_order_def row_shape_def capture_update_def missed_row_def
        snapshot_row_def error_row_def row_key_def)
qed

lemma settle_step_law:
  assumes "row_shape r"
  shows "row_advances r (settle_step w key r) \<and> row_shape (settle_step w key r)"
proof (cases "pm_strategy_key r = key \<and> pm_status r = ''monitoring''
    \<and> pm_end_ts r \<le> pw_ts w - FINALIZATION_DELAY_SECONDS")
  case False
  then have "settle_step w key r = r" by (auto simp: settle_step_def)
  then show ?thesis using assms by (simp add: row_advances_refl)
next
  case True
  then have sh: "pm_snapshot_ts_ms r \<noteq> None" "pm_up_queue r \<noteq> None" "pm_down_queue r \<noteq> None" "pm_result r = None"
    using assms by (auto simp: row_shape_def)
  have step: "settle_step w key r = settle_update w (pw_ts w) r r" using True by (simp add: settle_step_def)
  show ?thesis
  proof (cases "settlement w (pw_ts w) r")
    case (Inl e)
    then have "settle_step w key r = r \<or> settle_step w key r = error_row (exn_text e) (pw_ts w) r"
      unfolding step by (cases e) (simp_all add: settle_update_def)
    then show ?thesis
      using assms True sh
      by (auto simp: row_advances_def same_order_def row_shape_def error_row_def row_key_def)
  next
    case (Inr p)
    obtain res n where p: "p = (res, n)" by force
    then have "settled_from r res n" using Inr settlement_Return by simp
    then have "settled_from (result_row res n (pw_ts w) r) res n"
      by (simp add: settled_from_def result_row_def)
    then show ?thesis
      using True sh unfolding step
      by (simp add: settle_update_def Inr p row_advances_def same_order_def row_shape_def result_row_def
          row_key_def)
  qed
qed

interpretation life: row_law row_advances row_shape
proof
  show "row_advances r r'" if "row_advances r s" "row_advances s r'" for r s r'
    using that by (rule row_advances_trans)
  show "row_shape (new_row key u plan now)" for key u plan now
    by (simp add: row_shape_def new_row_def Let_def)
qed (simp_all add: row_advances_refl capture_step_law settle_step_law)

text \<open>
  C8. However a run goes, a row of the paper database has the shape of its status: a pending or
  missed market has no snapshot and no result, a monitored one has its queues, and a settled one
  has, at least two minutes after its end, the result the code computes from some trades. And a
  row only advances: its market, price and size are fixed, its snapshot is taken once, a
  monitored market can only be settled, a missed or settled one never changes again.
\<close>

theorem paper_lifecycle:
  assumes "paper_ok (si_db si)" "\<forall>r \<in> set (pd_rows (si_db si)). row_shape r"
    and db: "db = si_db (paper_run w t hours passes final si)"
  shows "paper_ok db \<and> (\<forall>r \<in> set (pd_rows db). row_shape r)
    \<and> (\<forall>k r. paper_find k (si_db si) = Some r \<longrightarrow> (\<exists>r'. paper_find k db = Some r' \<and> row_advances r r'))"
proof -
  have f: "life.follows (si_db si) db"
    unfolding db by (rule life.follows_run) (use assms(1,2) in auto)
  have "row_shape r" if "r \<in> set (pd_rows db)" for r
    using life.followsD(2) [OF f, of "row_key r" r] paper_find_row [OF life.followsD(1) [OF f]] that by simp
  with life.followsD(1,3) [OF f] show ?thesis by blast
qed

definition example_paper_world :: paper_world where
  "example_paper_world =
     \<lparr>pw_clock = 1700000600, pw_books = (\<lambda>up down. Raise (Raised ''ConnectionError'' ''books'')),
      pw_gamma = (\<lambda>slug. Return (JObj [(''closed'', JBool True),
         (''outcomes'', JStr (''['' @ [char_of (34::int)] @ ''Up'' @ [char_of (34::int)] @ '','' @
            [char_of (34::int)] @ ''Down'' @ [char_of (34::int)] @ '']'')),
         (''outcomePrices'', JStr ''[1, 0]'')])),
      pw_trades = (\<lambda>market start_ts end_ts. Return (JArr (map JObj example_trades)))\<rparr>"

definition example_pass :: "rat \<Rightarrow> paper_pass" where
  "example_pass now =
     \<lparr>pp_start = now, pp_updates = [], pp_register = example_paper_world, pp_captured = now, pp_now = now,
      pp_retry = example_paper_world, pp_settle = example_paper_world, pp_beat = 1700000600, pp_wait = now\<rparr>"

definition example_row_monitored :: paper_row where
  "example_row_monitored = example_paper_row ''m'' (Some 1700000150000) 1700000400 ''monitoring''"

definition example_simulator :: simulator where
  "example_simulator =
     \<lparr>si_db = \<lparr>pd_state = None, pd_rows = [example_row_monitored]\<rparr>, si_plan = example_plan, si_key = ''k''\<rparr>"

lemma example_simulator_ok:
  "paper_ok (si_db example_simulator)" "\<forall>r \<in> set (pd_rows (si_db example_simulator)). row_shape r"
  "paper_find (''k'', ''m'') (si_db example_simulator) = Some example_row_monitored"
  by (simp_all add: example_simulator_def paper_ok_def row_shape_def example_row_monitored_def
      example_paper_row_def paper_find_def table_find_def row_key_def)

theorem paper_lifecycle_witness:
  "\<exists>r. paper_find (''k'', ''m'')
      (si_db (paper_run example_paper_world 0 None [example_pass 0, example_pass 40]
        (example_paper_world, []) example_simulator)) = Some r
    \<and> row_advances example_row_monitored r \<and> pm_status r \<in> {''monitoring'', ''settled''}"
  using paper_lifecycle [OF example_simulator_ok(1,2) HOL.refl] example_simulator_ok(3)
  by (fastforce simp: row_advances_def example_row_monitored_def)

subsection \<open>Settling is reached\<close>

lemma drain_keeps_row:
  "paper_ok (si_db si) \<Longrightarrow> paper_find k (si_db si) = Some r \<Longrightarrow>
     paper_ok (si_db (snd (drain_activation w us si)))
     \<and> paper_find k (si_db (snd (drain_activation w us si))) = Some r
     \<and> si_key (snd (drain_activation w us si)) = si_key si"
proof -
  have "paper_ok (si_db (snd st)) \<Longrightarrow> paper_find k (si_db (snd st)) = Some r \<Longrightarrow>
      paper_ok (si_db (snd (fold (drain_one w) us st)))
      \<and> paper_find k (si_db (snd (fold (drain_one w) us st))) = Some r
      \<and> si_key (snd (fold (drain_one w) us st)) = si_key (snd st)" for st
  proof (induction us arbitrary: st)
    case (Cons u us)
    have "paper_ok (si_db (snd (drain_one w u st))) \<and> paper_find k (si_db (snd (drain_one w u st))) = Some r
        \<and> si_key (snd (drain_one w u st)) = si_key (snd st)"
      using Cons.prems
      by (simp add: drain_one_def case_prod_beta life.find_register split: act_update.splits)
    with Cons.IH show ?case by simp
  qed simp
  then show "paper_ok (si_db si) \<Longrightarrow> paper_find k (si_db si) = Some r \<Longrightarrow> ?thesis"
    by (simp add: drain_activation_def)
qed

text \<open>A row that is settled or missed is left alone, whatever its other columns hold.\<close>

lemma finished_step:
  "pm_status r \<in> {''missed'', ''settled''} \<Longrightarrow> capture_step w key r = r \<and> settle_step w key r = r"
  by (auto simp: capture_step_def settle_step_def)

interpretation finished: row_law "\<lambda>r r'. pm_status r \<in> {''missed'', ''settled''} \<longrightarrow> r' = r" "\<lambda>r. True"
  by unfold_locales (simp_all add: finished_step)

lemma settled_stays:
  assumes "paper_ok (si_db (lp_sim s))" "paper_find k (si_db (lp_sim s)) = Some r"
    "pm_status r = ''settled''"
  shows "paper_find k (si_db (lp_sim (paper_loop d ps s))) = Some r"
proof -
  have "finished.follows (si_db (lp_sim s)) (si_db (lp_sim s))"
    by (rule finished.followsI) (use assms(1) in auto)
  then have "finished.follows (si_db (lp_sim s)) (si_db (lp_sim (paper_loop d ps s)))"
    by (rule finished.follows_loop)
  from finished.followsD(3) [OF this assms(2)] show ?thesis using assms(3) by auto
qed

text \<open>A monitored row waits in the store while the loop registers and captures.\<close>

definition awaits_settlement :: "paper_row \<Rightarrow> loop_state \<Rightarrow> bool" where
  "awaits_settlement r s \<longleftrightarrow> paper_ok (si_db (lp_sim s)) \<and> paper_find (row_key r) (si_db (lp_sim s)) = Some r
     \<and> si_key (lp_sim s) = pm_strategy_key r \<and> pm_status r = ''monitoring''"

lemma awaits_capture: "awaits_settlement r s \<Longrightarrow> awaits_settlement r (capture_into w t s)"
  by (simp add: awaits_settlement_def capture_into_def case_prod_beta find_capture capture_step_def)

lemma awaits_register: "awaits_settlement r s \<Longrightarrow> awaits_settlement r (register_stage p s)"
proof -
  assume w: "awaits_settlement r s"
  have "awaits_settlement r (s\<lparr>lp_sim := snd (drain_activation (pp_register p) (pp_updates p) (lp_sim s))\<rparr>)"
    using w drain_keeps_row [of "lp_sim s" "row_key r" r "pp_register p" "pp_updates p"]
    by (simp add: awaits_settlement_def)
  then show ?thesis by (simp add: register_stage_def case_prod_beta Let_def awaits_capture)
qed

lemma awaits_retry: "awaits_settlement r s \<Longrightarrow> awaits_settlement r (retry_stage p s)"
  by (simp add: retry_stage_def awaits_capture)

lemma next_poll_stages: "lp_next_poll (retry_stage p (register_stage p s)) = lp_next_poll s"
  by (simp add: retry_stage_def register_stage_def capture_into_def case_prod_beta Let_def)

definition readable :: "paper_row \<Rightarrow> paper_pass \<Rightarrow> bool" where
  "readable r p \<longleftrightarrow> pm_end_ts r \<le> pw_ts (pp_settle p) - FINALIZATION_DELAY_SECONDS
     \<and> (case settlement (pp_settle p) (pw_ts (pp_settle p)) r of Inl e \<Rightarrow> False | Inr res \<Rightarrow> True)"

lemma pass_waits:
  assumes w: "awaits_settlement r s" and no: "\<not> lp_next_poll s \<le> pp_now p"
  shows "awaits_settlement r (paper_pass_step p s) \<and> lp_next_poll (paper_pass_step p s) = lp_next_poll s"
proof -
  have "settle_stage p (retry_stage p (register_stage p s)) = retry_stage p (register_stage p s)"
    using no by (simp add: settle_stage_def next_poll_stages)
  then show ?thesis
    using awaits_retry [OF awaits_register [OF w], of p p] no
    by (simp add: paper_pass_step_def heartbeat_stage_def awaits_settlement_def next_poll_stages)
qed

lemma pass_settles:
  assumes w: "awaits_settlement r s" and poll: "lp_next_poll s \<le> pp_now p" and p: "readable r p"
  obtains res n where "settlement (pp_settle p) (pw_ts (pp_settle p)) r = Return (res, n)"
    "paper_find (row_key r) (si_db (lp_sim (paper_pass_step p s)))
       = Some (result_row res n (pw_ts (pp_settle p)) r)"
    "paper_ok (si_db (lp_sim (paper_pass_step p s)))"
proof -
  obtain res n where res: "settlement (pp_settle p) (pw_ts (pp_settle p)) r = Return (res, n)"
    using p by (auto simp: readable_def split: sum.splits)
  let ?s = "retry_stage p (register_stage p s)"
  have "awaits_settlement r ?s" by (intro awaits_retry awaits_register w)
  moreover from this have "settle_step (pp_settle p) (si_key (lp_sim ?s)) r = result_row res n (pw_ts (pp_settle p)) r"
    using p res by (simp add: settle_step_def settle_update_def awaits_settlement_def readable_def)
  moreover have "lp_next_poll ?s \<le> pp_now p" using poll by (simp add: next_poll_stages)
  ultimately show thesis
    by (intro that [OF res])
      (simp_all add: paper_pass_step_def heartbeat_stage_def settle_stage_def awaits_settlement_def find_settle)
qed

text \<open>
  C13. A market that is due is settled by the next poll that can read its outcome: if every pass
  of the loop would read a result for the row, and some pass comes no earlier than the next
  poll, then after those passes the row is settled, with the result one of the polls read,
  whatever else the passes deliver and whatever the other markets answer.
\<close>

theorem due_market_settled:
  assumes "awaits_settlement r s" "\<forall>p \<in> set passes. readable r p" "\<exists>p \<in> set passes. lp_next_poll s \<le> pp_now p"
  shows "\<exists>p res n. p \<in> set passes \<and> settlement (pp_settle p) (pw_ts (pp_settle p)) r = Return (res, n)
    \<and> paper_find (row_key r) (si_db (lp_sim (paper_loop None passes s)))
        = Some (result_row res n (pw_ts (pp_settle p)) r)"
  using assms
proof (induction passes arbitrary: s)
  case (Cons p passes)
  show ?case
  proof (cases "lp_next_poll s \<le> pp_now p")
    case False
    with Cons.prems pass_waits [OF Cons.prems(1) False] have
      w: "awaits_settlement r (paper_pass_step p s)" "lp_next_poll (paper_pass_step p s) = lp_next_poll s" by auto
    have "\<exists>q \<in> set passes. lp_next_poll (paper_pass_step p s) \<le> pp_now q"
      using Cons.prems(3) False unfolding w(2) by auto
    with Cons.IH [OF w(1)] Cons.prems(2) show ?thesis by fastforce
  next
    case True
    obtain res n where res: "settlement (pp_settle p) (pw_ts (pp_settle p)) r = Return (res, n)"
        "paper_find (row_key r) (si_db (lp_sim (paper_pass_step p s)))
           = Some (result_row res n (pw_ts (pp_settle p)) r)"
        "paper_ok (si_db (lp_sim (paper_pass_step p s)))"
      using pass_settles [OF Cons.prems(1) True] Cons.prems(2) by auto
    have "paper_find (row_key r) (si_db (lp_sim (paper_loop None passes (paper_pass_step p s))))
        = Some (result_row res n (pw_ts (pp_settle p)) r)"
      by (rule settled_stays [OF res(3,2)]) (simp add: result_row_def)
    with res(1) show ?thesis by (intro exI [of _ p] exI [of _ res] exI [of _ n]) simp
  qed
qed simp

definition example_loop :: loop_state where
  "example_loop =
     \<lparr>lp_sim = example_simulator, lp_pending = False, lp_next_retry = None, lp_next_poll = 30,
      lp_next_heartbeat = 0\<rparr>"

lemma example_loop_waits: "awaits_settlement example_row_monitored example_loop"
  by (simp add: awaits_settlement_def example_loop_def example_simulator_def example_row_monitored_def paper_ok_def
      paper_find_def table_find_def)

lemma example_winner: "winner_of example_paper_world ''m'' = Return ''up''"
  by code_simp

lemma example_trades_of:
  "trades_of example_paper_world example_row_monitored 1700000600 = Return example_trades"
  by code_simp

lemma example_down: "execution_evidence example_trades ''222'' ''111'' (1/2) = Return no_evidence"
  by code_simp

lemma example_settlement:
  "\<exists>res. settlement example_paper_world 1700000600 example_row_monitored = Return (res, 4)"
proof -
  have r: "pm_slug example_row_monitored = ''m''" "pm_up_token_id example_row_monitored = ''111''"
    "pm_down_token_id example_row_monitored = ''222''" "pm_buy_price example_row_monitored = 1/2"
    "pm_up_queue example_row_monitored = Some 40" "pm_down_queue example_row_monitored = Some 0"
    by (simp_all add: example_row_monitored_def example_paper_row_def)
  have "lower ''up'' = ''up''" by code_simp
  then show ?thesis
    by (simp add: settlement_def example_winner example_trades_of r queue_value_def calculate_result_def
        Let_def example_execution example_down) (simp add: example_trades_def)
qed

lemma example_pass_readable: "readable example_row_monitored (example_pass now)"
proof -
  have "pw_ts example_paper_world = 1700000600" by code_simp
  then show ?thesis
    using example_settlement
    by (auto simp: readable_def example_pass_def example_row_monitored_def FINALIZATION_DELAY_SECONDS_def
        split: sum.splits)
qed

theorem due_market_settled_witness:
  "\<exists>r. paper_find (''k'', ''m'') (si_db (lp_sim (paper_loop None [example_pass 10, example_pass 40] example_loop)))
      = Some r \<and> pm_status r = ''settled''"
proof -
  have "row_key example_row_monitored = (''k'', ''m'')"
    by (simp add: row_key_def example_row_monitored_def)
  moreover have "\<exists>p \<in> set [example_pass 10, example_pass 40]. lp_next_poll example_loop \<le> pp_now p"
    by (simp add: example_loop_def example_pass_def)
  ultimately show ?thesis
    using due_market_settled [OF example_loop_waits, of "[example_pass 10, example_pass 40]"]
      example_pass_readable
    by (auto simp: result_row_def)
qed

end
