(* ===== verification/Config.thy ===== *)
theory Config
  imports Py_Values
begin

text \<open>
  \<open>polymarket_bot/config.py\<close>: the configuration of the bot, of an extra fleet account and of
  the wallet setup. The environment is a parameter, a partial function from names to values,
  as it stands once python-dotenv has added the variables of \<open>.env.trading\<close>; the text of an
  account's file is the contents of the file. Paths are left out but for the one a message names.
\<close>

subsection \<open>Reading the environment\<close>

type_synonym env = "string \<Rightarrow> string option"

definition getenv :: "env \<Rightarrow> string \<Rightarrow> string \<Rightarrow> string" where
  "getenv env name fallback = (case env name of None \<Rightarrow> fallback | Some v \<Rightarrow> v)"

text \<open>\<open>value or None\<close>.\<close>

definition or_none :: "string \<Rightarrow> string option" where
  "or_none v = (if v = [] then None else Some v)"

definition LIVE_ACK :: string where "LIVE_ACK = ''I_UNDERSTAND_REAL_ORDERS''"

type_synonym credentials = "string option \<times> string option \<times> string option"

text \<open>Three values that must be all present or all absent.\<close>

definition all_or_none :: "string \<Rightarrow> string \<times> string \<times> string \<Rightarrow> exn + credentials" where
  "all_or_none message vs =
     (let (a, b, c) = vs in
      if (a \<noteq> [] \<or> b \<noteq> [] \<or> c \<noteq> []) \<and> \<not> (a \<noteq> [] \<and> b \<noteq> [] \<and> c \<noteq> [])
      then Raise (ValueError message)
      else Return (or_none a, or_none b, or_none c))"

definition api_credentials :: "env \<Rightarrow> exn + credentials" where
  "api_credentials env =
     all_or_none ''CLOB API credentials must be all present or all absent''
       (strip (getenv env ''POLYMARKET_CLOB_API_KEY'' []),
        strip (getenv env ''POLYMARKET_CLOB_API_SECRET'' []),
        strip (getenv env ''POLYMARKET_CLOB_API_PASSPHRASE'' []))"

text \<open>\<open>int(text)\<close>.\<close>

definition int_of_text :: "string \<Rightarrow> exn + int" where
  "int_of_text s =
     (case py_int s of
        None \<Rightarrow> Raise (ValueError (''invalid literal for int() with base 10: '' @ repr_str s))
      | Some i \<Rightarrow> Return i)"

subsection \<open>The bot\<close>

record bot_config =
  bc_private_key :: string
  bc_funder_address :: string
  bc_signature_type :: int
  bc_api_key :: "string option"
  bc_api_secret :: "string option"
  bc_api_passphrase :: "string option"
  bc_discovery_seconds :: rat
  bc_order_poll_seconds :: rat
  bc_geoblock_seconds :: rat
  bc_geoblock_retry_seconds :: rat

definition bot_config_of :: "string \<Rightarrow> string \<Rightarrow> int \<Rightarrow> credentials \<Rightarrow> bot_config" where
  "bot_config_of private_key funder signature_type creds =
     (case creds of (key, secret, passphrase) \<Rightarrow>
        \<lparr>bc_private_key = private_key, bc_funder_address = funder, bc_signature_type = signature_type,
         bc_api_key = key, bc_api_secret = secret, bc_api_passphrase = passphrase,
         bc_discovery_seconds = 5, bc_order_poll_seconds = 60, bc_geoblock_seconds = 300,
         bc_geoblock_retry_seconds = 5\<rparr>)"

definition unset :: "string option \<Rightarrow> bool" where
  "unset v \<longleftrightarrow> v = None \<or> v = Some []"

definition validate_config :: "env \<Rightarrow> bool \<Rightarrow> bool \<Rightarrow> bot_config \<Rightarrow> exn + unit" where
  "validate_config env live authenticated c =
     (if (live \<or> authenticated) \<and> (bc_private_key c = [] \<or> bc_funder_address c = []) then
        Raise (ValueError ''private key and funder address are required'')
      else if live \<and> getenv env ''POLYMARKET_LIVE_ACK'' [] \<noteq> LIVE_ACK then
        Raise (ValueError (''POLYMARKET_LIVE_ACK must equal '' @ LIVE_ACK @ '' for live mode''))
      else if live \<and> (unset (bc_api_key c) \<or> unset (bc_api_secret c) \<or> unset (bc_api_passphrase c)) then
        Raise (ValueError ''CLOB API credentials are required for live mode'')
      else Return ())"

definition load_config :: "env \<Rightarrow> bool \<Rightarrow> bool \<Rightarrow> exn + bot_config" where
  "load_config env live authenticated =
     rbind (api_credentials env) (\<lambda>creds.
     rbind (int_of_text (getenv env ''POLYMARKET_SIGNATURE_TYPE'' ''3'')) (\<lambda>sig.
     let c = bot_config_of (strip (getenv env ''POLYMARKET_PRIVATE_KEY'' []))
               (strip (getenv env ''POLYMARKET_FUNDER_ADDRESS'' [])) sig creds
     in rbind (validate_config env live authenticated c) (\<lambda>_. Return c)))"

subsection \<open>An extra account\<close>

text \<open>\<open>str.splitlines\<close>; a carriage return swallows the line feed after it.\<close>

definition line_break :: "char \<Rightarrow> bool" where
  "line_break c \<longleftrightarrow> (let n = (of_char c :: int) in (10 \<le> n \<and> n \<le> 13) \<or> (28 \<le> n \<and> n \<le> 30))"

fun splitlines_from :: "string \<Rightarrow> string \<Rightarrow> string list" where
  "splitlines_from acc [] = (if acc = [] then [] else [rev acc])"
| "splitlines_from acc (c # cs) =
     (if (of_char c :: int) = 13 then
        rev acc # (case cs of
                     [] \<Rightarrow> []
                   | d # ds \<Rightarrow> if (of_char d :: int) = 10 then splitlines_from [] ds
                              else splitlines_from [] (d # ds))
      else if line_break c then rev acc # splitlines_from [] cs
      else splitlines_from (c # acc) cs)"

definition splitlines :: "string \<Rightarrow> string list" where
  "splitlines s = splitlines_from [] s"

text \<open>One line of a KEY=VALUE file.\<close>

definition read_line :: "string \<Rightarrow> (string, string) dict \<Rightarrow> (string, string) dict" where
  "read_line line values =
     (let line = strip line in
      if line = [] \<or> startswith line ''#'' then values
      else case split_first CHR ''='' line of
             None \<Rightarrow> values
           | Some (key, value) \<Rightarrow> dict_set (strip key) (strip value) values)"

definition read_env :: "string \<Rightarrow> (string, string) dict" where
  "read_env text = fold read_line (splitlines text) []"

definition value_or :: "(string, string) dict \<Rightarrow> string \<Rightarrow> string \<Rightarrow> string" where
  "value_or values name fallback = (case dict_get values name of None \<Rightarrow> fallback | Some v \<Rightarrow> v)"

definition from_env_file :: "string \<Rightarrow> string \<Rightarrow> exn + bot_config" where
  "from_env_file path text =
     (let values = read_env text in
      rbind (all_or_none (path @ '': CLOB API credentials must be all present or all absent'')
        (value_or values ''POLYMARKET_CLOB_API_KEY'' [], value_or values ''POLYMARKET_CLOB_API_SECRET'' [],
         value_or values ''POLYMARKET_CLOB_API_PASSPHRASE'' [])) (\<lambda>creds.
      rbind (int_of_text (value_or values ''POLYMARKET_SIGNATURE_TYPE'' ''0'')) (\<lambda>sig.
      let c = bot_config_of (value_or values ''POLYMARKET_PRIVATE_KEY'' [])
                (value_or values ''POLYMARKET_FUNDER_ADDRESS'' []) sig creds
      in if bc_private_key c = [] \<or> bc_funder_address c = [] then
           Raise (ValueError (path @ '': private key and funder address are required''))
         else Return c)))"

subsection \<open>The wallet setup\<close>

record setup_config =
  su_private_key :: string
  su_existing_funder :: "string option"
  su_api_key :: "string option"
  su_api_secret :: "string option"
  su_api_passphrase :: "string option"
  su_relayer_key :: "string option"
  su_relayer_address :: "string option"

definition validate_setup :: "bool \<Rightarrow> setup_config \<Rightarrow> exn + unit" where
  "validate_setup apply_it c =
     (if su_private_key c = [] then Raise (ValueError ''POLYMARKET_PRIVATE_KEY is required for setup'')
      else if unset (su_relayer_key c) \<noteq> unset (su_relayer_address c) then
        Raise (ValueError
          ''POLYMARKET_RELAYER_API_KEY and POLYMARKET_RELAYER_API_KEY_ADDRESS must be set together'')
      else if apply_it \<and> unset (su_relayer_key c) then
        Raise (ValueError ''Relayer API key and address are required for setup --apply'')
      else Return ())"

definition load_setup :: "env \<Rightarrow> bool \<Rightarrow> exn + setup_config" where
  "load_setup env apply_it =
     rbind (api_credentials env) (\<lambda>(key, secret, passphrase).
     let c = \<lparr>su_private_key = strip (getenv env ''POLYMARKET_PRIVATE_KEY'' []),
              su_existing_funder = or_none (strip (getenv env ''POLYMARKET_FUNDER_ADDRESS'' [])),
              su_api_key = key, su_api_secret = secret, su_api_passphrase = passphrase,
              su_relayer_key = or_none (strip (getenv env ''POLYMARKET_RELAYER_API_KEY'' [])),
              su_relayer_address = or_none (strip (getenv env ''POLYMARKET_RELAYER_API_KEY_ADDRESS'' []))\<rparr>
     in rbind (validate_setup apply_it c) (\<lambda>_. Return c))"

subsection \<open>What a configuration is good for\<close>

lemma unset_or_none [simp]: "unset (or_none v) \<longleftrightarrow> v = []"
  by (simp add: unset_def or_none_def)

lemma all_or_none_Return:
  "all_or_none m (a, b, c) = Return creds \<longleftrightarrow>
     ((a = [] \<longleftrightarrow> b = []) \<and> (b = [] \<longleftrightarrow> c = [])) \<and> creds = (or_none a, or_none b, or_none c)"
  by (auto simp: all_or_none_def)

lemma int_of_text_Return: "int_of_text s = Return i \<longleftrightarrow> py_int s = Some i"
  by (simp add: int_of_text_def split: option.splits)

lemma live_config_acknowledged:
  "load_config env True authenticated = Return c \<Longrightarrow> env ''POLYMARKET_LIVE_ACK'' = Some LIVE_ACK"
  by (auto simp: load_config_def rbind_Inr_iff validate_config_def getenv_def LIVE_ACK_def Let_def
      split: if_splits option.splits)

text \<open>What a name holds once white space is stripped.\<close>

abbreviation env_text :: "env \<Rightarrow> string \<Rightarrow> string" where
  "env_text env name \<equiv> strip (getenv env name [])"

text \<open>
  C22. A live configuration loads exactly when the acknowledgement stands in the environment word
  for word, the signature type is an integer, and key, funder and all three API secrets are
  there, not just white space; then the configuration holds those very values. So no live run
  starts half configured, and none is refused that is configured in full.
\<close>

theorem live_config_iff:
  "load_config env True authenticated = Return c \<longleftrightarrow>
     env ''POLYMARKET_LIVE_ACK'' = Some LIVE_ACK
   \<and> py_int (getenv env ''POLYMARKET_SIGNATURE_TYPE'' ''3'') = Some (bc_signature_type c)
   \<and> (\<forall>name \<in> {''POLYMARKET_PRIVATE_KEY'', ''POLYMARKET_FUNDER_ADDRESS'', ''POLYMARKET_CLOB_API_KEY'',
               ''POLYMARKET_CLOB_API_SECRET'', ''POLYMARKET_CLOB_API_PASSPHRASE''}. env_text env name \<noteq> [])
   \<and> c = bot_config_of (env_text env ''POLYMARKET_PRIVATE_KEY'') (env_text env ''POLYMARKET_FUNDER_ADDRESS'')
       (bc_signature_type c)
       (Some (env_text env ''POLYMARKET_CLOB_API_KEY''), Some (env_text env ''POLYMARKET_CLOB_API_SECRET''),
        Some (env_text env ''POLYMARKET_CLOB_API_PASSPHRASE''))"
proof -
  have none: "or_none v = Some v" if "v \<noteq> []" for v using that by (simp add: or_none_def)
  have ack: "getenv env ''POLYMARKET_LIVE_ACK'' [] = LIVE_ACK \<longleftrightarrow> env ''POLYMARKET_LIVE_ACK'' = Some LIVE_ACK"
    by (auto simp: getenv_def LIVE_ACK_def split: option.splits)
  show ?thesis
    by (auto simp: load_config_def api_credentials_def rbind_Inr_iff all_or_none_Return int_of_text_Return
        validate_config_def bot_config_of_def Let_def ack none split: if_splits)
qed

definition example_env :: env where
  "example_env = map_of
     [(''POLYMARKET_LIVE_ACK'', LIVE_ACK), (''POLYMARKET_PRIVATE_KEY'', ''0xkey''),
      (''POLYMARKET_FUNDER_ADDRESS'', ''0xfunder''), (''POLYMARKET_CLOB_API_KEY'', ''k''),
      (''POLYMARKET_CLOB_API_SECRET'', ''s''), (''POLYMARKET_CLOB_API_PASSPHRASE'', ''p'')]"

definition example_bot_config :: bot_config where
  "example_bot_config = bot_config_of ''0xkey'' ''0xfunder'' 3 (Some ''k'', Some ''s'', Some ''p'')"

lemma example_env_loads: "load_config example_env True False = Return example_bot_config"
  by code_simp

theorem live_config_iff_witness: "load_config example_env True True = Return example_bot_config"
  unfolding live_config_iff by code_simp

end
