(* ===== verification/Cli.thy ===== *)
theory Cli
  imports Config Service
begin

text \<open>
  \<open>polymarket_bot/cli.py\<close>: the readers of the command line's decimals, the checks of the
  \<open>run\<close> and \<open>paper\<close> commands, the fleet a run trades with, and the start of the service. The
  parsed arguments are a record (argparse and the tables of options it is given are left out;
  \<open>run_defaults\<close> holds the defaults). Parameters: the environment, the texts of account files,
  the construction of an exchange from a configuration, whether the instance lock is free, and
  the outcome of loading the knock library. A \<open>SystemExit\<close> is an exception like the others.
\<close>

subsection \<open>Readers of single arguments\<close>

definition decimal_arg :: "string \<Rightarrow> exn + rat" where
  "decimal_arg value =
     (case py_decimal value of
        None \<Rightarrow> Raise (ArgumentTypeError (''invalid decimal value: '' @ value))
      | Some d \<Rightarrow> Return d)"

definition take_profit_arg :: "string \<Rightarrow> exn + exit_target" where
  "take_profit_arg value =
     (case split_first CHR '':'' value of
        None \<Rightarrow> Raise (ArgumentTypeError ''take-profit must use PRICE:FRACTION, for example 0.02:0.50'')
      | Some (price_text, fraction_text) \<Rightarrow>
          rbind (decimal_arg price_text) (\<lambda>price. rbind (decimal_arg fraction_text) (\<lambda>fraction.
            Return \<lparr>et_price = price, et_fraction = fraction\<rparr>)))"

definition MINIMUM_PLACEMENT_INTERVAL_MS :: rat where "MINIMUM_PLACEMENT_INTERVAL_MS = 1"

definition placement_interval_ms_arg :: "string \<Rightarrow> exn + rat" where
  "placement_interval_ms_arg value =
     rbind (decimal_arg value) (\<lambda>d.
       if d < MINIMUM_PLACEMENT_INTERVAL_MS
       then Raise (ArgumentTypeError ''placement interval must be at least 1 ms'') else Return d)"

subsection \<open>The run command\<close>

record run_args =
  ra_live :: bool
  ra_buy_price :: rat
  ra_take_profit :: "exit_target list"
  ra_usd_per_side :: rat
  ra_max_reserved_usd :: "rat option"
  ra_max_daily_filled_cost :: "rat option"
  ra_lookahead_minutes :: int
  ra_cancel_before_end_seconds :: int
  ra_placement_interval_ms :: rat
  ra_placement_order :: string
  ra_entry_submission :: string
  ra_fleet_env :: "string list"
  ra_knock_on_preview :: bool
  ra_fleet_size_step :: rat

definition run_defaults :: "rat \<Rightarrow> rat \<Rightarrow> run_args" where
  "run_defaults price usd =
     \<lparr>ra_live = False, ra_buy_price = price, ra_take_profit = [], ra_usd_per_side = usd,
      ra_max_reserved_usd = None, ra_max_daily_filled_cost = None, ra_lookahead_minutes = 40,
      ra_cancel_before_end_seconds = 2, ra_placement_interval_ms = 20,
      ra_placement_order = ''nearest-first'', ra_entry_submission = ''single'', ra_fleet_env = [],
      ra_knock_on_preview = False, ra_fleet_size_step = 24 / 1000\<rparr>"

definition plan_of_args :: "run_args \<Rightarrow> trade_plan" where
  "plan_of_args a =
     \<lparr>buy_price = ra_buy_price a, exit_targets = ra_take_profit a, usd_per_side = ra_usd_per_side a\<rparr>"

definition positive_if_given :: "string \<Rightarrow> rat option \<Rightarrow> exn + unit" where
  "positive_if_given name v =
     (case v of
        None \<Rightarrow> Return ()
      | Some x \<Rightarrow> if x \<le> 0 then Raise (SystemExit (name @ '' must be positive when provided'')) else Return ())"

text \<open>The checks between the plan's own validation and the fleet.\<close>

definition check_run :: "run_args \<Rightarrow> exn + unit" where
  "check_run a =
     rbind (positive_if_given ''--max-reserved-usd'' (ra_max_reserved_usd a)) (\<lambda>_.
     rbind (positive_if_given ''--max-daily-filled-cost'' (ra_max_daily_filled_cost a)) (\<lambda>_.
     if ra_lookahead_minutes a < 0 then Raise (SystemExit ''--lookahead-minutes cannot be negative'')
     else if ra_lookahead_minutes a = 0 \<and> ra_placement_order a \<noteq> ''farthest-first'' then
       Raise (SystemExit ''--lookahead-minutes 0 requires --placement-order farthest-first'')
     else if ra_cancel_before_end_seconds a < 0 then
       Raise (SystemExit ''--cancel-before-end-seconds cannot be negative'')
     else if (case ra_max_reserved_usd a of
                None \<Rightarrow> False | Some cap \<Rightarrow> cap < market_reserve (plan_of_args a)) then
       Raise (SystemExit ''--max-reserved-usd must cover both sides of at least one market'')
     else if ra_fleet_env a \<noteq> [] \<and> ra_take_profit a \<noteq> [] then
       Raise (SystemExit ''--fleet-env supports buy-only plans for now'')
     else Return ()))"

text \<open>The plan of the account with a number: its stake is raised by that many steps.\<close>

definition member_plan :: "run_args \<Rightarrow> nat \<Rightarrow> trade_plan" where
  "member_plan a i =
     (plan_of_args a)\<lparr>usd_per_side := dadd (ra_usd_per_side a) (dmul (ra_fleet_size_step a) (of_nat i))\<rparr>"

fun extra_members ::
  "(string \<Rightarrow> exn + string) \<Rightarrow> (bot_config \<Rightarrow> exn + exchange) \<Rightarrow> run_args \<Rightarrow> nat \<Rightarrow> string list \<Rightarrow>
     exn + (string \<times> exchange \<times> rat) list" where
  "extra_members read build a i [] = Return []"
| "extra_members read build a i (path # paths) =
     rbind (read path) (\<lambda>text. rbind (from_env_file path text) (\<lambda>c.
     rbind (validate_plan (member_plan a i)) (\<lambda>_. rbind (build c) (\<lambda>ex.
     rbind (extra_members read build a (Suc i) paths) (\<lambda>ms.
       Return ((CHR ''m'' # show_int (int i), ex, order_size (member_plan a i)) # ms))))))"

definition build_fleet ::
  "(string \<Rightarrow> exn + string) \<Rightarrow> (bot_config \<Rightarrow> exn + exchange) \<Rightarrow> run_args \<Rightarrow> bot_config \<Rightarrow> exn + fleet option" where
  "build_fleet read build a c =
     (if \<not> ra_live a \<or> ra_fleet_env a = [] then Return None
      else rbind (build c) (\<lambda>ex.
        rbind (extra_members read build a 1 (ra_fleet_env a)) (\<lambda>ms.
        rbind (fleet_init (evenly_phased ((''primary'', ex, order_size (plan_of_args a)) # ms)
                 (ra_placement_interval_ms a)) True) (\<lambda>fl. Return (Some fl)))))"

definition service_config_of :: "run_args \<Rightarrow> bot_config \<Rightarrow> service_config" where
  "service_config_of a c =
     \<lparr>sc_plan = plan_of_args a, sc_max_reserved_usd = ra_max_reserved_usd a,
      sc_max_daily_filled_cost = ra_max_daily_filled_cost a, sc_lookahead_minutes = ra_lookahead_minutes a,
      sc_placement_order = ra_placement_order a, sc_placement_interval_ms = ra_placement_interval_ms a,
      sc_entry_submission = ra_entry_submission a, sc_knock_on_preview = ra_knock_on_preview a,
      sc_cancel_before_end_seconds = ra_cancel_before_end_seconds a, sc_live = ra_live a,
      sc_order_poll_seconds = bc_order_poll_seconds c, sc_discovery_seconds = bc_discovery_seconds c\<rparr>"

text \<open>\<open>SingleInstance.__enter__\<close>: whether the port could be bound.\<close>

definition take_lock :: "bool \<Rightarrow> exn + unit" where
  "take_lock free = (if free then Return () else Raise (RuntimeError ''another bot instance is already running''))"

text \<open>What the command finds on the machine.\<close>

record machine =
  mc_env :: env
  mc_read :: "string \<Rightarrow> exn + string"
  mc_exchange :: "bot_config \<Rightarrow> exn + exchange"
  mc_lock_free :: bool
  mc_knock_library :: "exn + unit"
  mc_world :: world

definition run_command :: "machine \<Rightarrow> run_args \<Rightarrow> bot_db \<Rightarrow> exn + service" where
  "run_command mc a db =
     (if ra_knock_on_preview a \<and> ra_fleet_env a = [] then
        Raise (SystemExit ''--knock-on-preview needs --fleet-env'')
      else rbind (load_config (mc_env mc) (ra_live a) False) (\<lambda>c.
        rbind (validate_plan (plan_of_args a)) (\<lambda>_.
        rbind (check_run a) (\<lambda>_.
        rbind (build_fleet (mc_read mc) (mc_exchange mc) a c) (\<lambda>fl.
        rbind (take_lock (mc_lock_free mc)) (\<lambda>_.
        rbind (if ra_live a \<and> fl = None then mc_exchange mc c else Return exchange_init) (\<lambda>ex.
          service_init (service_config_of a c) db fl ex (mc_knock_library mc) (mc_world mc))))))))"

subsection \<open>The paper command\<close>

record paper_args =
  pa_buy_price :: rat
  pa_usd_per_side :: rat
  pa_hours :: "rat option"
  pa_lookahead_minutes :: int

definition paper_defaults :: "rat \<Rightarrow> rat \<Rightarrow> paper_args" where
  "paper_defaults price usd =
     \<lparr>pa_buy_price = price, pa_usd_per_side = usd, pa_hours = None, pa_lookahead_minutes = 0\<rparr>"

text \<open>
  The command up to the simulator, which it constructs without the keyword \<open>hours\<close> that has no
  default.
\<close>

definition paper_command :: "bool \<Rightarrow> paper_args \<Rightarrow> exn + trade_plan" where
  "paper_command lock_free a =
     (let plan = \<lparr>buy_price = pa_buy_price a, exit_targets = [], usd_per_side = pa_usd_per_side a\<rparr> in
      rbind (validate_plan plan) (\<lambda>_.
      if (case pa_hours a of None \<Rightarrow> False | Some h \<Rightarrow> h \<le> 0) then
        Raise (SystemExit ''--hours must be positive when provided'')
      else if pa_lookahead_minutes a < 0 then
        Raise (SystemExit ''--lookahead-minutes cannot be negative'')
      else rbind (take_lock lock_free) (\<lambda>_.
        Raise (TypeError ''PaperSimulator.__init__() missing 1 required keyword-only argument: 'hours' ''))))"

subsection \<open>The filter of the human log\<close>

definition filter_names :: "string list" where
  "filter_names = [''py_clob_client_v2.http_helpers.helpers'', ''polymarket_bot.knocker'']"

definition expected_replies :: "string list" where
  "expected_replies = [''invalid token id'', ''market not found'', ''trading is disabled'']"

definition keep_record :: "string \<Rightarrow> string \<Rightarrow> bool" where
  "keep_record name message =
     (name \<notin> set filter_names \<or> \<not> list_ex (\<lambda>e. contains e (lower message)) expected_replies)"

subsection \<open>What a run starts with\<close>


definition member_names :: "nat \<Rightarrow> string list" where
  "member_names n = ''primary'' # map (\<lambda>i. CHR ''m'' # show_int (int i)) [1..<Suc n]"

lemma extra_members_Return:
  "extra_members read build a i paths = Return ms \<Longrightarrow>
     map fst ms = map (\<lambda>i. CHR ''m'' # show_int (int i)) [i..<i + length paths]
   \<and> map (snd \<circ> snd) ms = map (\<lambda>i. order_size (member_plan a i)) [i..<i + length paths]
   \<and> (\<forall>k \<in> {i..<i + length paths}. validate_plan (member_plan a k) = Return ())"
proof (induction paths arbitrary: i ms)
  case (Cons path paths)
  then obtain ex ms' where ms: "ms = (CHR ''m'' # show_int (int i), ex, order_size (member_plan a i)) # ms'"
      "extra_members read build a (Suc i) paths = Return ms'" "validate_plan (member_plan a i) = Return ()"
    by (auto simp: rbind_Inr_iff)
  have e: "[i..<i + length (path # paths)] = i # [Suc i..<Suc i + length paths]"
    by (simp add: upt_conv_Cons del: upt_Suc)
  have "{i..<i + length (path # paths)} = insert i {Suc i..<Suc i + length paths}" by auto
  then show ?case using Cons.IH [OF ms(2)] ms(3) unfolding e ms(1) by auto
qed simp

lemma build_fleet_Return:
  assumes "build_fleet read build a c = Return (Some fl)"
  shows "ra_live a" "map fm_name (fl_members fl) = member_names (length (ra_fleet_env a))"
    "map fm_size (fl_members fl) =
       order_size (plan_of_args a) # map (\<lambda>i. order_size (member_plan a i)) [1..<Suc (length (ra_fleet_env a))]"
    "\<forall>k \<in> {1..length (ra_fleet_env a)}. validate_plan (member_plan a k) = Return ()"
    "ra_fleet_env a \<noteq> []"
proof -
  obtain ex ms where ms: "extra_members read build a 1 (ra_fleet_env a) = Return ms"
    and fl: "fl_members fl = evenly_phased ((''primary'', ex, order_size (plan_of_args a)) # ms) (ra_placement_interval_ms a)"
    and live: "ra_live a" "ra_fleet_env a \<noteq> []"
    using assms by (auto simp: build_fleet_def rbind_Inr_iff fleet_init_def split: if_splits)
  have en: "map (\<lambda>x. g (snd x)) (enumerate 0 xs) = map g xs" for g :: "string \<times> exchange \<times> rat \<Rightarrow> 'b" and xs
    using map_map [of g snd "enumerate 0 xs"] by (simp add: comp_def)
  have phased: "map fm_name (evenly_phased xs d) = map fst xs" "map fm_size (evenly_phased xs d) = map (snd \<circ> snd) xs" for xs d
    using en [of fst xs] en [of "snd \<circ> snd" xs]
    by (simp_all add: evenly_phased_def case_prod_beta comp_def)
  show "ra_live a" "ra_fleet_env a \<noteq> []" by fact+
  show "map fm_name (fl_members fl) = member_names (length (ra_fleet_env a))"
    "map fm_size (fl_members fl) =
       order_size (plan_of_args a) # map (\<lambda>i. order_size (member_plan a i)) [1..<Suc (length (ra_fleet_env a))]"
    using extra_members_Return [OF ms] by (simp_all add: fl phased member_names_def del: upt_Suc)
  show "\<forall>k \<in> {1..length (ra_fleet_env a)}. validate_plan (member_plan a k) = Return ()"
    using extra_members_Return [OF ms] by auto
qed

lemma check_run_sound:
  assumes "check_run a = Return ()"
  shows "(\<forall>cap. ra_max_reserved_usd a = Some cap \<longrightarrow> 0 < cap \<and> market_reserve (plan_of_args a) \<le> cap)
    \<and> (\<forall>cap. ra_max_daily_filled_cost a = Some cap \<longrightarrow> 0 < cap)
    \<and> 0 \<le> ra_lookahead_minutes a \<and> 0 \<le> ra_cancel_before_end_seconds a
    \<and> (ra_lookahead_minutes a = 0 \<longrightarrow> ra_placement_order a = ''farthest-first'')"
  using assms by (auto simp: check_run_def rbind_Inr_iff positive_if_given_def not_le not_less
      split: option.splits if_splits)

lemma backend_started:
  assumes "build_fleet read ex_of a c = Return fl"
    and "init_backend (service_config_of a c) fl ex = Return b"
  shows "case b of
         DryRun \<Rightarrow> \<not> ra_live a
       | Solo ex \<Rightarrow> ra_live a \<and> ra_fleet_env a = []
       | Many f \<Rightarrow> ra_live a \<and> buy_only (plan_of_args a)
           \<and> map fm_name (fl_members f) = member_names (length (ra_fleet_env a))
           \<and> (\<forall>k \<in> {1..length (ra_fleet_env a)}. validate_plan (member_plan a k) = Return ())"
proof (cases fl)
  case None
  then have "ra_live a \<Longrightarrow> ra_fleet_env a = []"
    using assms(1) by (auto simp: build_fleet_def rbind_Inr_iff split: if_splits)
  then show ?thesis using assms(2) None by (auto simp: init_backend_def service_config_of_def split: if_splits)
next
  case (Some f)
  note F = build_fleet_Return [OF assms(1) [unfolded Some]]
  have "map fm_name (fl_members (submit_as x f)) = map fm_name (fl_members f)" for x
    by (simp add: submit_as_def comp_def)
  then show ?thesis
    using assms(2) Some F by (auto simp: init_backend_def service_config_of_def split: if_splits)
qed

text \<open>
  C20. A service is only started with what its theorems ask for: a plan that validates, caps that
  are positive and cover a market's reserve, windows that are not negative, and, in a live run,
  an environment that acknowledges real orders, a free instance lock and the knock library. A
  dry run has no exchange; a fleet trades buy-only, its members are the primary and the
  numbered accounts in order, and each extra member's own plan validates.
\<close>

theorem run_command_sound:
  assumes "run_command mc a db = Return s"
  shows "sc_plan (sv_config s) = plan_of_args a \<and> validate_plan (plan_of_args a) = Return ()
    \<and> (\<forall>cap. sc_max_reserved_usd (sv_config s) = Some cap \<longrightarrow> 0 < cap \<and> market_reserve (plan_of_args a) \<le> cap)
    \<and> (\<forall>cap. sc_max_daily_filled_cost (sv_config s) = Some cap \<longrightarrow> 0 < cap)
    \<and> 0 \<le> sc_lookahead_minutes (sv_config s) \<and> 0 \<le> sc_cancel_before_end_seconds (sv_config s)
    \<and> (sc_lookahead_minutes (sv_config s) = 0 \<longrightarrow> sc_placement_order (sv_config s) = ''farthest-first'')
    \<and> (ra_live a \<longrightarrow> mc_env mc ''POLYMARKET_LIVE_ACK'' = Some LIVE_ACK \<and> mc_knock_library mc = Return ())
    \<and> mc_lock_free mc \<and> sv_db s = db
    \<and> (case sv_backend s of
         DryRun \<Rightarrow> \<not> ra_live a
       | Solo ex \<Rightarrow> ra_live a \<and> ra_fleet_env a = []
       | Many fl \<Rightarrow> ra_live a \<and> buy_only (plan_of_args a)
           \<and> map fm_name (fl_members fl) = member_names (length (ra_fleet_env a))
           \<and> (\<forall>k \<in> {1..length (ra_fleet_env a)}. validate_plan (member_plan a k) = Return ()))"
proof -
  from assms obtain c fl ex where c: "load_config (mc_env mc) (ra_live a) False = Return c"
    and plan: "validate_plan (plan_of_args a) = Return ()" and chk: "check_run a = Return ()"
    and fl: "build_fleet (mc_read mc) (mc_exchange mc) a c = Return fl"
    and lock: "mc_lock_free mc"
    and s: "service_init (service_config_of a c) db fl ex (mc_knock_library mc) (mc_world mc) = Return s"
    by (auto simp: run_command_def rbind_Inr_iff take_lock_def split: if_splits)
  have ack: "mc_env mc ''POLYMARKET_LIVE_ACK'' = Some LIVE_ACK" if "ra_live a"
    using c that live_config_acknowledged by simp
  from s obtain b where b: "init_backend (service_config_of a c) fl ex = Return b"
    and lib: "ra_live a \<longrightarrow> mc_knock_library mc = Return ()"
    and st: "sv_config s = service_config_of a c" "sv_db s = db" "sv_backend s = b"
    by (auto simp: service_init_def rbind_Inr_iff service_config_of_def split: if_splits)
  show ?thesis
    using plan ack lib lock backend_started [OF fl b] check_run_sound [OF chk]
    by (simp add: st service_config_of_def)
qed

subsection \<open>Sizes tell the members apart\<close>






subsection \<open>A fleet of three\<close>

definition example_account :: string where
  "example_account =
     ''# account'' @ [char_of (10::int)] @ ''POLYMARKET_PRIVATE_KEY = 0xkey2'' @ [char_of (10::int)]
       @ ''POLYMARKET_FUNDER_ADDRESS=0xfunder2''"

definition example_machine :: machine where
  "example_machine =
     \<lparr>mc_env = example_env, mc_read = (\<lambda>path. Return example_account),
      mc_exchange = (\<lambda>c. Return exchange_init), mc_lock_free = True, mc_knock_library = Return (),
      mc_world = example_answers\<rparr>"

definition example_run_args :: run_args where
  "example_run_args = (run_defaults (1/2) 10)\<lparr>ra_live := True, ra_fleet_env := [''a.env'', ''b.env'']\<rparr>"

lemma example_account_reads:
  "from_env_file path example_account = Return (bot_config_of ''0xkey2'' ''0xfunder2'' 0 (None, None, None))"
proof -
  have "read_env example_account =
      [(''POLYMARKET_PRIVATE_KEY'', ''0xkey2''), (''POLYMARKET_FUNDER_ADDRESS'', ''0xfunder2'')]"
    by code_simp
  moreover have "int_of_text ''0'' = Return 0" by code_simp
  ultimately show ?thesis
    by (simp add: from_env_file_def value_or_def dict_get_def all_or_none_def or_none_def
        bot_config_of_def Let_def)
qed

lemma example_member_plans:
  "validate_plan (plan_of_args example_run_args) = Return ()"
  "validate_plan (member_plan example_run_args (Suc 0)) = Return ()"
  "validate_plan (member_plan example_run_args (Suc (Suc 0))) = Return ()"
  by (simp_all add: validate_plan_def member_plan_def plan_of_args_def example_run_args_def
      run_defaults_def order_size_def hold_fraction_def dec_eval)

lemma example_run_args_simps:
  "ra_live example_run_args" "ra_fleet_env example_run_args = [''a.env'', ''b.env'']"
  "ra_usd_per_side example_run_args = 10" "ra_fleet_size_step example_run_args = 24 / 1000"
  "ra_buy_price example_run_args = 1/2"
  by (simp_all add: example_run_args_def run_defaults_def)

lemma example_machine_simps:
  "mc_read example_machine path = Return example_account" "mc_exchange example_machine c = Return exchange_init"
  "mc_env example_machine = example_env" "mc_lock_free example_machine"
  "mc_knock_library example_machine = Return ()"
  by (simp_all add: example_machine_def)

lemma example_fleet_builds:
  obtains fl where
    "build_fleet (mc_read example_machine) (mc_exchange example_machine) example_run_args c = Return (Some fl)"
proof -
  have "show_int 1 = ''1''" "show_int 2 = ''2''" by code_simp+
  then have "\<exists>fl. build_fleet (mc_read example_machine) (mc_exchange example_machine) example_run_args c
      = Return (Some fl)"
    by (simp add: build_fleet_def example_run_args_simps example_machine_simps example_account_reads
        example_member_plans fleet_init_def evenly_phased_def)
  then show thesis using that by blast
qed


theorem run_command_sound_witness:
  "\<exists>s. run_command example_machine example_run_args empty_db = Return s
     \<and> validate_plan (sc_plan (sv_config s)) = Return () \<and> mc_lock_free example_machine"
proof -
  obtain fl where fl: "build_fleet (mc_read example_machine) (mc_exchange example_machine) example_run_args
      example_bot_config = Return (Some fl)"
    by (rule example_fleet_builds)
  have "check_run example_run_args = Return ()"
    by (simp add: check_run_def positive_if_given_def example_run_args_def run_defaults_def)
  moreover have "buy_only (plan_of_args example_run_args)"
    by (simp add: buy_only_def plan_of_args_def example_run_args_def run_defaults_def)
  ultimately obtain s where s: "run_command example_machine example_run_args empty_db = Return s"
    using fl example_env_loads
    by (auto simp: run_command_def example_run_args_simps example_machine_simps example_member_plans
        take_lock_def service_init_def init_backend_def service_config_of_def rbind_def
        split: sum.splits)
  from run_command_sound [OF s] s show ?thesis by auto
qed

end
