(* ===== verification/Setup.thy ===== *)
theory Setup
  imports Config Geoblock Conditional_Tokens
begin

text \<open>
  \<open>polymarket_bot/setup.py\<close>: the wallet setup. The account library, the HTTP endpoints, the
  venue's secure client and python-dotenv are parameters (\<open>setup_world\<close>); what the command
  changes outside the process is the log of its effects, in the order they happen. \<open>'a act\<close>
  threads that log: a step that raises keeps what was done before it.
\<close>

definition CHAIN_ID :: int where "CHAIN_ID = 137"

definition POLYGON_USDC :: string where
  "POLYGON_USDC = ''0x3c499c542cEF5E3811e1192ce70d8cC03d5c3359''"

subsection \<open>The outside and the effects on it\<close>

type_synonym api_creds = "string \<times> string \<times> string"

record wallet_client =
  wc_wallet :: string
  wc_wallet_type :: string
  wc_credentials :: api_creds

record setup_world =
  sx_signer :: "string \<Rightarrow> exn + string"
  sx_geoblock :: "exn + json"
  sx_assets :: "exn + json"
  sx_client :: "string \<Rightarrow> api_creds option \<Rightarrow> string \<times> string \<Rightarrow> exn + wallet_client"
  sx_approvals :: "exn + unit"
  sx_balance :: "exn + json"
  sx_deposit :: "string \<Rightarrow> exn + json"
  sx_set_key :: "string \<Rightarrow> exn + unit"

datatype effect =
    ClientCreated
  | ApprovalsSet
  | DepositRequested string
  | KeyWritten string string

type_synonym 'a act = "effect list \<Rightarrow> (exn + 'a) \<times> effect list"

definition areturn :: "'a \<Rightarrow> 'a act" where
  "areturn x l = (Return x, l)"

definition alift :: "exn + 'a \<Rightarrow> 'a act" where
  "alift r l = (r, l)"

definition abind :: "'a act \<Rightarrow> ('a \<Rightarrow> 'b act) \<Rightarrow> 'b act" where
  "abind f g l = (case f l of (Inl e, l) \<Rightarrow> (Raise e, l) | (Inr x, l) \<Rightarrow> g x l)"

text \<open>
  A request with an effect, recorded if the request returns. One that raises may have acted in
  part on the other side: the record is of what the command knows to be done. The empty file that
  \<open>_write_runtime_config\<close> makes sure of counts as part of its first write.
\<close>

definition adoes :: "exn + 'a \<Rightarrow> effect \<Rightarrow> 'a act" where
  "adoes r e l = (r, case r of Inl _ \<Rightarrow> l | Inr _ \<Rightarrow> l @ [e])"

definition acheck :: "bool \<Rightarrow> exn \<Rightarrow> unit act" where
  "acheck bad e l = (if bad then Raise e else Return (), l)"

subsection \<open>Reading keys and replies\<close>

definition normalized_private_key :: "string \<Rightarrow> exn + string" where
  "normalized_private_key value =
     (let key = (if startswith value ''0x'' then value else ''0x'' @ value) in
      if length key \<noteq> 66 then Raise (ValueError ''POLYMARKET_PRIVATE_KEY must contain exactly 32 bytes'')
      else case fromhex (drop 2 key) of
             None \<Rightarrow> Raise (ValueError ''POLYMARKET_PRIVATE_KEY must be hexadecimal'')
           | Some _ \<Rightarrow> Return key)"

text \<open>\<open>d.get(key, {})\<close>, then \<open>.get\<close> on what it holds.\<close>

definition pget_dict :: "string \<Rightarrow> payload \<Rightarrow> exn + payload" where
  "pget_dict k d =
     (case map_of d k of
        None \<Rightarrow> Return []
      | Some v \<Rightarrow> if is_dict v then Return (as_dict v) else Raise (Raised ''AttributeError'' ''get''))"

definition object :: "json \<Rightarrow> exn + payload" where
  "object j = (if is_dict j then Return (as_dict j) else Raise (Raised ''AttributeError'' ''get''))"

fun find_usdc :: "json list \<Rightarrow> exn + json" where
  "find_usdc [] = Raise (RuntimeError ''Polymarket Bridge does not currently list native Polygon USDC'')"
| "find_usdc (j # js) =
     rbind (object j) (\<lambda>asset.
     if py_str (pget ''chainId'' asset) \<noteq> show_int CHAIN_ID then find_usdc js
     else rbind (pget_dict ''token'' asset) (\<lambda>token.
       if lower (py_str (case map_of token ''address'' of None \<Rightarrow> JStr [] | Some v \<Rightarrow> v)) = lower POLYGON_USDC
       then Return j else find_usdc js))"

definition polygon_usdc :: "setup_world \<Rightarrow> exn + json" where
  "polygon_usdc w =
     rbind (sx_assets w) (\<lambda>body. rbind (object body) (\<lambda>payload.
     rbind (py_iter (pget_list ''supportedAssets'' payload)) find_usdc))"

definition deposit_address :: "json \<Rightarrow> exn + string" where
  "deposit_address body =
     rbind (object body) (\<lambda>payload. rbind (pget_dict ''address'' payload) (\<lambda>addresses.
       let address = pget ''evm'' addresses in
       if \<not> truthy address
       then Raise (RuntimeError ''Polymarket Bridge response did not contain an EVM address'')
       else Return (py_str address)))"

definition bridge_deposit_address :: "setup_world \<Rightarrow> string \<Rightarrow> string act" where
  "bridge_deposit_address w funder =
     abind (adoes (sx_deposit w funder) (DepositRequested funder)) (\<lambda>body. alift (deposit_address body))"

definition existing_credentials :: "setup_config \<Rightarrow> api_creds option" where
  "existing_credentials c =
     (case su_api_key c of
        None \<Rightarrow> None
      | Some key \<Rightarrow> if key = [] then None
                    else Some (key, case su_api_secret c of None \<Rightarrow> [] | Some s \<Rightarrow> s,
                               case su_api_passphrase c of None \<Rightarrow> [] | Some p \<Rightarrow> p))"

subsection \<open>The command\<close>

definition runtime_values :: "string \<Rightarrow> api_creds \<Rightarrow> (string \<times> string) list" where
  "runtime_values funder creds =
     (case creds of (key, secret, passphrase) \<Rightarrow>
        [(''POLYMARKET_FUNDER_ADDRESS'', funder), (''POLYMARKET_SIGNATURE_TYPE'', ''3''),
         (''POLYMARKET_CLOB_API_KEY'', key), (''POLYMARKET_CLOB_API_SECRET'', secret),
         (''POLYMARKET_CLOB_API_PASSPHRASE'', passphrase)])"

fun write_keys :: "setup_world \<Rightarrow> (string \<times> string) list \<Rightarrow> unit act" where
  "write_keys w [] = areturn ()"
| "write_keys w ((k, v) # kvs) = abind (adoes (sx_set_key w k) (KeyWritten k v)) (\<lambda>_. write_keys w kvs)"

record setup_result =
  sr_mode :: string
  sr_chain_id :: int
  sr_signer :: string
  sr_funder :: "string option"
  sr_wallet_type :: "string option"
  sr_bridge_address :: "string option"
  sr_deposit_asset :: "json option"
  sr_collateral :: "json option"

definition or_empty :: "string option \<Rightarrow> string" where
  "or_empty v = (case v of None \<Rightarrow> ''None'' | Some s \<Rightarrow> s)"

text \<open>What is done with the client, up to the writing of the configuration.\<close>

definition apply_with_client ::
  "setup_world \<Rightarrow> setup_config \<Rightarrow> string \<Rightarrow> json \<Rightarrow> wallet_client \<Rightarrow> setup_result act" where
  "apply_with_client w c signer asset client =
     (let funder = wc_wallet client in
      abind (acheck (wc_wallet_type client \<noteq> ''DEPOSIT_WALLET'')
        (RuntimeError (''Expected Deposit Wallet, got '' @ wc_wallet_type client))) (\<lambda>_.
      abind (acheck (case su_existing_funder c of
                       None \<Rightarrow> False | Some f \<Rightarrow> f \<noteq> [] \<and> lower f \<noteq> lower funder)
        (ValueError ''Existing funder address does not match the derived wallet'')) (\<lambda>_.
      abind (adoes (sx_approvals w) ApprovalsSet) (\<lambda>_.
      abind (alift (sx_balance w)) (\<lambda>collateral.
      abind (bridge_deposit_address w funder) (\<lambda>bridge.
      abind (write_keys w (runtime_values funder (wc_credentials client))) (\<lambda>_.
        areturn \<lparr>sr_mode = ''applied'', sr_chain_id = CHAIN_ID, sr_signer = signer,
          sr_funder = Some funder, sr_wallet_type = Some (wc_wallet_type client),
          sr_bridge_address = Some bridge, sr_deposit_asset = Some asset,
          sr_collateral = Some collateral\<rparr>)))))))"

definition setup_wallet :: "setup_world \<Rightarrow> setup_config \<Rightarrow> bool \<Rightarrow> setup_result act" where
  "setup_wallet w c apply_it =
     abind (alift (normalized_private_key (su_private_key c))) (\<lambda>key.
     abind (alift (sx_signer w key)) (\<lambda>signer.
     if \<not> apply_it then
       areturn \<lparr>sr_mode = ''preview'', sr_chain_id = CHAIN_ID, sr_signer = signer, sr_funder = None,
         sr_wallet_type = None, sr_bridge_address = None, sr_deposit_asset = None, sr_collateral = None\<rparr>
     else
       let relayer = or_empty (su_relayer_address c) in
       abind (acheck (lower relayer \<noteq> lower signer)
         (ValueError ''POLYMARKET_RELAYER_API_KEY_ADDRESS must match the signer address for Deposit Wallet setup'')) (\<lambda>_.
       abind (alift (rbind (sx_geoblock w) object)) (\<lambda>geoblock.
       abind (acheck (is_api_trading_blocked geoblock)
         (RuntimeError ''Polymarket reports that this network location is blocked'')) (\<lambda>_.
       abind (alift (polygon_usdc w)) (\<lambda>asset.
       abind (adoes (sx_client w key (existing_credentials c) (or_empty (su_relayer_key c), relayer)) ClientCreated) (\<lambda>client.
         apply_with_client w c signer asset client)))))))"

text \<open>\<open>to_dict\<close>: the fields that are set.\<close>

definition setup_dict :: "setup_result \<Rightarrow> payload" where
  "setup_dict r =
     [(''mode'', JStr (sr_mode r)), (''chain_id'', JInt (sr_chain_id r)), (''signer_address'', JStr (sr_signer r))]
     @ List.map_filter (\<lambda>(k, v). map_option (Pair k) v)
         [(''funder_address'', map_option JStr (sr_funder r)), (''wallet_type'', map_option JStr (sr_wallet_type r)),
          (''bridge_evm_address'', map_option JStr (sr_bridge_address r)),
          (''deposit_asset'', sr_deposit_asset r), (''collateral'', sr_collateral r)]"

subsection \<open>What was done when it ends\<close>

text \<open>
  \<open>performs f effs\<close>: started on any log, \<open>f\<close> adds a prefix of \<open>effs\<close>, and all of it where it
  returns.
\<close>

definition performs :: "'a act \<Rightarrow> effect list \<Rightarrow> bool" where
  "performs f effs \<longleftrightarrow>
     (\<forall>l. \<exists>es. snd (f l) = l @ es \<and> prefix es effs \<and> (\<forall>x. fst (f l) = Return x \<longrightarrow> es = effs))"

lemma performsD:
  assumes "performs f effs"
  obtains es where "snd (f l) = l @ es" "prefix es effs" "\<And>x. fst (f l) = Return x \<Longrightarrow> es = effs"
  using assms unfolding performs_def by blast

lemma performs_lift [intro]: "performs (alift r) []"
  by (simp add: performs_def alift_def)

lemma performs_return [intro]: "performs (areturn x) []"
  by (simp add: performs_def areturn_def)

lemma performs_check [intro]: "performs (acheck b e) []"
  by (simp add: performs_def acheck_def)

lemma performs_does [intro]: "performs (adoes r e) [e]"
  by (auto simp: performs_def adoes_def split: sum.splits)

lemma performs_bind:
  assumes f: "performs f as" and g: "\<And>x. performs (g x) bs"
  shows "performs (abind f g) (as @ bs)"
  unfolding performs_def
proof
  fix l
  obtain es where es: "snd (f l) = l @ es" "prefix es as" "\<And>x. fst (f l) = Return x \<Longrightarrow> es = as"
    using performsD [OF f, of l] by blast
  show "\<exists>es. snd (abind f g l) = l @ es \<and> prefix es (as @ bs)
      \<and> (\<forall>x. fst (abind f g l) = Return x \<longrightarrow> es = as @ bs)"
  proof (cases "f l")
    case (Pair r l')
    show ?thesis
    proof (cases r)
      case (Inl e)
      then show ?thesis using es(1,2) Pair by (auto simp: abind_def intro: prefix_prefix)
    next
      case (Inr x)
      then have l': "l' = l @ as" using es(1,3) Pair by simp
      obtain es' where "snd (g x l') = l' @ es'" "prefix es' bs" "\<And>y. fst (g x l') = Return y \<Longrightarrow> es' = bs"
        using performsD [OF g, of x l'] by blast
      then show ?thesis using l' Pair Inr by (intro exI [of _ "as @ es'"]) (simp add: abind_def)
    qed
  qed
qed

lemma performs_bind_lift: "performs f [] \<Longrightarrow> (\<And>x. performs (g x) bs) \<Longrightarrow> performs (abind f g) bs"
  using performs_bind [of f "[]" g bs] by simp

lemma performs_bind_does: "(\<And>x. performs (g x) bs) \<Longrightarrow> performs (abind (adoes r e) g) (e # bs)"
  using performs_bind [OF performs_does, of g bs r e] by simp

lemma performs_write_keys: "performs (write_keys w kvs) (map (\<lambda>(k, v). KeyWritten k v) kvs)"
  by (induction kvs) (auto intro!: performs_bind_does)

definition planned_effects :: "wallet_client \<Rightarrow> effect list" where
  "planned_effects client =
     [ApprovalsSet, DepositRequested (wc_wallet client)]
       @ map (\<lambda>(k, v). KeyWritten k v) (runtime_values (wc_wallet client) (wc_credentials client))"

lemma performs_deposit: "performs (bridge_deposit_address w funder) [DepositRequested funder]"
  unfolding bridge_deposit_address_def by (intro performs_bind_does performs_lift)

lemma performs_apply: "performs (apply_with_client w c signer asset client) (planned_effects client)"
proof -
  have keys: "performs (abind (write_keys w kvs) (\<lambda>_. areturn r)) (map (\<lambda>(k, v). KeyWritten k v) kvs)" for kvs r
    using performs_bind [OF performs_write_keys performs_return] by simp
  have bridge: "performs (abind (bridge_deposit_address w (wc_wallet client)) g)
      (DepositRequested (wc_wallet client) # bs)" if "\<And>x. performs (g x) bs" for g :: "string \<Rightarrow> setup_result act" and bs
    using performs_bind [OF performs_deposit that] by simp
  show ?thesis
    unfolding apply_with_client_def Let_def planned_effects_def append_Cons append_Nil
    by (rule performs_bind_lift [OF performs_check], rule performs_bind_lift [OF performs_check],
        rule performs_bind_does, rule performs_bind_lift [OF performs_lift], rule bridge, rule keys)
qed

lemma apply_checks:
  assumes "snd (apply_with_client w c signer asset client l) \<noteq> l"
  shows "wc_wallet_type client = ''DEPOSIT_WALLET''
    \<and> (\<forall>f. su_existing_funder c = Some f \<and> f \<noteq> [] \<longrightarrow> lower f = lower (wc_wallet client))"
  using assms by (auto simp: apply_with_client_def Let_def abind_def acheck_def split: option.splits if_splits)

text \<open>
  C21. The setup touches nothing outside unless it is asked to apply and every guard holds: the
  relayer's address is the signer's, the location is not blocked, USDC is listed. Then what it
  does is a prefix of one fixed sequence, the client, the approvals, the deposit address and
  last the five keys of the configuration, and the whole sequence where it succeeds; nothing
  follows the client unless the wallet is a deposit wallet and the one already configured. So a
  failure before the end never leaves a configuration for a wallet without approvals.
\<close>

theorem setup_guarded:
  assumes "setup_wallet w c apply_it [] = (r, effs)" "effs \<noteq> []"
  shows "apply_it \<and> (\<exists>key signer geo asset client.
      normalized_private_key (su_private_key c) = Return key \<and> sx_signer w key = Return signer
    \<and> lower (or_empty (su_relayer_address c)) = lower signer
    \<and> sx_geoblock w = Return (JObj geo) \<and> \<not> is_api_trading_blocked geo \<and> polygon_usdc w = Return asset
    \<and> sx_client w key (existing_credentials c) (or_empty (su_relayer_key c), or_empty (su_relayer_address c))
        = Return client
    \<and> prefix effs (ClientCreated # planned_effects client)
    \<and> (\<forall>x. r = Return x \<longrightarrow> effs = ClientCreated # planned_effects client)
    \<and> (effs \<noteq> [ClientCreated] \<longrightarrow> wc_wallet_type client = ''DEPOSIT_WALLET''
        \<and> (\<forall>f. su_existing_funder c = Some f \<and> f \<noteq> [] \<longrightarrow> lower f = lower (wc_wallet client))))"
proof -
  have "\<exists>g. j = JObj g \<and> p = g" if "object j = Return p" for j p
    using that by (cases j) (auto simp: object_def split: if_splits)
  then obtain key signer geo asset client where g: "apply_it"
      "normalized_private_key (su_private_key c) = Return key" "sx_signer w key = Return signer"
      "lower (or_empty (su_relayer_address c)) = lower signer"
      "sx_geoblock w = Return (JObj geo)" "\<not> is_api_trading_blocked geo" "polygon_usdc w = Return asset"
      "sx_client w key (existing_credentials c) (or_empty (su_relayer_key c), or_empty (su_relayer_address c))
        = Return client"
      "apply_with_client w c signer asset client [ClientCreated] = (r, effs)"
    using assms
    by (fastforce simp: setup_wallet_def Let_def abind_def alift_def areturn_def acheck_def adoes_def rbind_Inr_iff
        split: sum.splits if_splits)
  obtain es where es: "effs = [ClientCreated] @ es" "prefix es (planned_effects client)"
      "\<And>x. r = Return x \<Longrightarrow> es = planned_effects client"
    using performsD [OF performs_apply, of w c signer asset client "[ClientCreated]"] g(9) by auto
  have "wc_wallet_type client = ''DEPOSIT_WALLET''
      \<and> (\<forall>f. su_existing_funder c = Some f \<and> f \<noteq> [] \<longrightarrow> lower f = lower (wc_wallet client))"
    if "effs \<noteq> [ClientCreated]"
    using apply_checks [of w c signer asset client "[ClientCreated]"] g(9) that by simp
  with g es show ?thesis by auto
qed

definition example_wallet :: wallet_client where
  "example_wallet =
     \<lparr>wc_wallet = ''0xWallet'', wc_wallet_type = ''DEPOSIT_WALLET'', wc_credentials = (''k'', ''s'', ''p'')\<rparr>"

text \<open>The deposit address cannot be had: the bridge answers without one.\<close>

definition example_setup_world :: setup_world where
  "example_setup_world =
     \<lparr>sx_signer = (\<lambda>key. Return ''0xSigner''), sx_geoblock = Return (JObj [(''blocked'', JBool False)]),
      sx_assets = Return (JObj [(''supportedAssets'', JArr [JObj [(''chainId'', JInt 137),
        (''token'', JObj [(''address'', JStr POLYGON_USDC)])]])]),
      sx_client = (\<lambda>key creds relayer. Return example_wallet), sx_approvals = Return (),
      sx_balance = Return (JObj []), sx_deposit = (\<lambda>funder. Return (JObj [])),
      sx_set_key = (\<lambda>k. Return ())\<rparr>"

definition example_setup_config :: setup_config where
  "example_setup_config =
     \<lparr>su_private_key = replicate 64 CHR ''1'', su_existing_funder = Some ''0xwallet'', su_api_key = None,
      su_api_secret = None, su_api_passphrase = None, su_relayer_key = Some ''r'',
      su_relayer_address = Some ''0xsigner''\<rparr>"

lemma example_setup_effects:
  "snd (setup_wallet example_setup_world example_setup_config True [])
     = [ClientCreated, ApprovalsSet, DepositRequested ''0xWallet'']"
  by code_simp

theorem setup_guarded_witness:
  "\<exists>client. prefix (snd (setup_wallet example_setup_world example_setup_config True []))
       (ClientCreated # planned_effects client)
     \<and> length (snd (setup_wallet example_setup_world example_setup_config True [])) = 3
     \<and> wc_wallet_type client = ''DEPOSIT_WALLET''"
proof -
  obtain r effs where s: "setup_wallet example_setup_world example_setup_config True [] = (r, effs)" by force
  then have e: "effs = [ClientCreated, ApprovalsSet, DepositRequested ''0xWallet'']"
    using example_setup_effects by simp
  then have "effs \<noteq> []" by simp
  from setup_guarded [OF s this] show ?thesis by (auto simp: s e)
qed

end
