(* ===== verification/Queue_Probe.thy ===== *)
theory Queue_Probe
  imports Paper_Fill Activation Json_Text
begin

text \<open>
  \<open>polymarket_bot/queue_probe.py\<close>: the recorder of the public queue at one cent around a
  market's opening. The websocket is a parameter: what one receive comes to (\<open>received\<close>), in the
  order of the passes of the loop, with the readings of the event loop's clock at the head of a
  pass and after the message. \<open>Lost\<close> is an exception of the receive that the caller reconnects on
  (a closed connection, an OSError), \<open>Quiet\<close> a wait that ran out. The rows are recorded as records,
  in the order they are written. The process's file name, the TLS context, the heartbeat task
  and the scheduling of one task per market are left out.
\<close>

definition TARGET_PRICE :: rat where "TARGET_PRICE = 1 / 100"
definition BOOK_WAIT_SECONDS :: rat where "BOOK_WAIT_SECONDS = 12 * 3600"
definition RECONNECT_DELAY_SECONDS :: rat where "RECONNECT_DELAY_SECONDS = 5"
definition SILENCE_SECONDS :: rat where "SILENCE_SECONDS = 30"
definition RESUBSCRIBE_SECONDS :: rat where "RESUBSCRIBE_SECONDS = 1800"

subsection \<open>The queues\<close>

type_synonym queues = "(string, rat) dict"

text \<open>\<open>level[key]\<close> of a level of a book.\<close>

definition level_field :: "string \<Rightarrow> json \<Rightarrow> exn + rat" where
  "level_field k level =
     (case level of
        JObj d \<Rightarrow> (case map_of d k of None \<Rightarrow> Raise (KeyError (repr_str k)) | Some v \<Rightarrow> dec_of v)
      | _ \<Rightarrow> Raise (TypeError ''indices must be integers''))"

definition target_size :: "json \<Rightarrow> exn + rat list" where
  "target_size level =
     rbind (level_field ''price'' level) (\<lambda>p.
       if p = TARGET_PRICE then rbind (level_field ''size'' level) (\<lambda>s. Return [s]) else Return [])"

definition event_outcome :: "(string, string) dict \<Rightarrow> payload \<Rightarrow> string option" where
  "event_outcome token_outcomes d =
     dict_get token_outcomes (py_str (por (pget ''asset_id'' d) (JStr [])))"

text \<open>One entry of a price change: the new size of the outcome's queue, if it is one of ours.\<close>

definition change_of :: "(string, string) dict \<Rightarrow> json \<Rightarrow> exn + (string \<times> rat) option" where
  "change_of token_outcomes change =
     (if \<not> is_dict change then Raise (Raised ''AttributeError'' ''get'')
      else let d = as_dict change in
        case event_outcome token_outcomes d of
          None \<Rightarrow> Return None
        | Some outcome \<Rightarrow>
            if upper (py_str (por (pget ''side'' d) (JStr []))) \<noteq> ''BUY'' then Return None
            else rbind (dec_field ''price'' d) (\<lambda>p.
              if p \<noteq> TARGET_PRICE then Return None
              else rbind (dec_field ''size'' d) (\<lambda>s. Return (Some (outcome, s)))))"

definition put_queue :: "string \<Rightarrow> rat \<Rightarrow> bool \<times> queues \<Rightarrow> bool \<times> queues" where
  "put_queue outcome sz st =
     (if dict_get (snd st) outcome = Some sz then st else (True, dict_set outcome sz (snd st)))"

fun put_changes :: "(string, string) dict \<Rightarrow> json list \<Rightarrow> bool \<times> queues \<Rightarrow> exn + bool \<times> queues" where
  "put_changes token_outcomes [] st = Return st"
| "put_changes token_outcomes (c # cs) st =
     rbind (change_of token_outcomes c) (\<lambda>r.
       put_changes token_outcomes cs (case r of None \<Rightarrow> st | Some (outcome, sz) \<Rightarrow> put_queue outcome sz st))"

definition update_queues :: "(string, string) dict \<Rightarrow> payload \<Rightarrow> queues \<Rightarrow> exn + bool \<times> queues" where
  "update_queues token_outcomes event queues =
     (let event_type = py_str (por (pget ''event_type'' event) (JStr [])) in
      if event_type = ''book'' then
        (case event_outcome token_outcomes event of
           None \<Rightarrow> Return (False, queues)
         | Some outcome \<Rightarrow>
             rbind (py_iter (por (pget ''bids'' event) (JArr []))) (\<lambda>levels.
             rbind (rtraverse target_size levels) (\<lambda>sizes.
               let sz = dsum (concat sizes)
               in Return (dict_get queues outcome \<noteq> Some sz, dict_set outcome sz queues))))
      else if event_type = ''price_change'' then
        rbind (py_iter (por (pget ''price_changes'' event) (JArr []))) (\<lambda>changes.
          put_changes token_outcomes changes (False, queues))
      else Return (False, queues))"

subsection \<open>Rows\<close>

record queue_row =
  qr_observed_ts_ms :: int
  qr_source_ts_ms :: int
  qr_slug :: string
  qr_discovered_ts_ms :: int
  qr_detected_ts_ms :: int
  qr_up :: rat
  qr_down :: rat

text \<open>\<open>_timestamp_ms\<close>; \<open>now\<close> is the wall clock.\<close>

definition timestamp_ms :: "rat \<Rightarrow> json \<Rightarrow> int" where
  "timestamp_ms now value =
     (let t = py_str (por value (JStr [])) in
      if t \<noteq> [] \<and> list_all is_digit t then digits_value t else now_millis now)"

text \<open>\<open>queues[outcome]\<close>; both outcomes are there when a row is written.\<close>

definition queue_of :: "string \<Rightarrow> queues \<Rightarrow> rat" where
  "queue_of outcome queues = (case dict_get queues outcome of None \<Rightarrow> 0 | Some sz \<Rightarrow> sz)"

definition record_queue :: "rat \<Rightarrow> activation_update \<Rightarrow> payload \<Rightarrow> queues \<Rightarrow> queue_row" where
  "record_queue now update event queues =
     \<lparr>qr_observed_ts_ms = now_millis now, qr_source_ts_ms = timestamp_ms now (pget ''timestamp'' event),
      qr_slug = m_slug (au_market update), qr_discovered_ts_ms = au_discovered_ts_ms update,
      qr_detected_ts_ms = au_detected_ts_ms update,
      qr_up = queue_of ''up'' queues, qr_down = queue_of ''down'' queues\<rparr>"

subsection \<open>One connection\<close>

datatype received =
    Quiet
  | Message string
  | Lost string
  | Broken exn

record probe_pass =
  qp_head :: rat
  qp_received :: received
  qp_after :: rat
  qp_wall :: rat

record probe =
  pb_queues :: queues
  pb_opening_deadline :: "rat option"
  pb_last_message_at :: rat
  pb_rows :: "queue_row list"

text \<open>What the head of a pass decides: done, give the connection up, or wait that long.\<close>

datatype head = Done | Reconnect string | Wait rat

definition head_of :: "rat \<Rightarrow> rat \<Rightarrow> rat \<Rightarrow> probe \<Rightarrow> head" where
  "head_of book_deadline connected_at now pb =
     (let deadline = (case pb_opening_deadline pb of
                        Some t \<Rightarrow> if t \<noteq> 0 then t else book_deadline | None \<Rightarrow> book_deadline);
          remaining = to_double (deadline - now)
      in if remaining \<le> 0 then Done
         else if pb_opening_deadline pb \<noteq> None then Wait remaining
         else let silence_left = to_double (to_double (pb_last_message_at pb + SILENCE_SECONDS) - now);
                  resubscribe_left = to_double (to_double (connected_at + RESUBSCRIBE_SECONDS) - now)
              in if silence_left \<le> 0 then Reconnect ''no message for 30 s''
                 else if resubscribe_left \<le> 0 then Reconnect ''resubscribing after 1800 s''
                 else Wait (min remaining (min silence_left resubscribe_left)))"

text \<open>One event of a message, \<open>wall\<close> and \<open>now\<close> the two clocks when it is handled.\<close>

definition probe_event ::
  "activation_update \<Rightarrow> (string, string) dict \<Rightarrow> rat \<Rightarrow> rat \<Rightarrow> rat \<Rightarrow> json \<Rightarrow> probe \<Rightarrow> exn + probe" where
  "probe_event update token_outcomes window now wall j pb =
     (if \<not> is_dict j then Return pb
      else rbind (update_queues token_outcomes (as_dict j) (pb_queues pb)) (\<lambda>(changed, queues).
        let pb = pb\<lparr>pb_queues := queues\<rparr> in
        if changed \<and> length queues = 2 then
          Return (pb\<lparr>pb_opening_deadline :=
                       (case pb_opening_deadline pb of
                          None \<Rightarrow> Some (to_double (now + window)) | Some t \<Rightarrow> Some t),
                     pb_rows := pb_rows pb @ [record_queue wall update (as_dict j) queues]\<rparr>)
        else Return pb))"

text \<open>An error ends the task; what it had recorded by then stays in the file.\<close>

fun probe_events ::
  "activation_update \<Rightarrow> (string, string) dict \<Rightarrow> rat \<Rightarrow> rat \<Rightarrow> rat \<Rightarrow> json list \<Rightarrow> probe \<Rightarrow>
     exn option \<times> probe" where
  "probe_events update toks window now wall [] pb = (None, pb)"
| "probe_events update toks window now wall (j # js) pb =
     (case probe_event update toks window now wall j pb of
        Inl e \<Rightarrow> (Some e, pb)
      | Inr pb \<Rightarrow> probe_events update toks window now wall js pb)"

definition probe_message ::
  "activation_update \<Rightarrow> (string, string) dict \<Rightarrow> rat \<Rightarrow> rat \<Rightarrow> rat \<Rightarrow> string \<Rightarrow> probe \<Rightarrow>
     exn option \<times> probe" where
  "probe_message update toks window now wall raw pb =
     (let pb = pb\<lparr>pb_last_message_at := now\<rparr> in
      if raw = ''PONG'' then (None, pb)
      else case loads raw of
        None \<Rightarrow> (Some (Raised ''JSONDecodeError'' ''Expecting value''), pb)
      | Some payload \<Rightarrow>
          probe_events update toks window now wall
            (case payload of JArr js \<Rightarrow> js | _ \<Rightarrow> [payload]) pb)"

text \<open>How a connection ends: the market is done, the socket was lost, or an error leaves it.\<close>

datatype watched = Finished | Dropped string | Failed exn

fun watch_book ::
  "activation_update \<Rightarrow> (string, string) dict \<Rightarrow> rat \<Rightarrow> rat \<Rightarrow> rat \<Rightarrow> probe_pass list \<Rightarrow> probe \<Rightarrow>
     (watched \<times> probe) option" where
  "watch_book update toks window book_deadline connected_at [] pb = None"
| "watch_book update toks window book_deadline connected_at (p # ps) pb =
     (case head_of book_deadline connected_at (qp_head p) pb of
        Done \<Rightarrow> Some (Finished, pb)
      | Reconnect reason \<Rightarrow> Some (Dropped reason, pb)
      | Wait timeout \<Rightarrow>
          (case qp_received p of
             Quiet \<Rightarrow> watch_book update toks window book_deadline connected_at ps pb
           | Lost reason \<Rightarrow> Some (Dropped reason, pb)
           | Broken e \<Rightarrow> Some (Failed e, pb)
           | Message raw \<Rightarrow>
               (case probe_message update toks window (qp_after p) (qp_wall p) raw pb of
                  (Some e, pb) \<Rightarrow> Some (Failed e, pb)
                | (None, pb) \<Rightarrow> watch_book update toks window book_deadline connected_at ps pb)))"

subsection \<open>One market\<close>

text \<open>
  A connection attempt of \<open>_monitor_market\<close>: how opening it ended (an OSError or a TimeoutError is
  tried again, a rejected handshake is not), its passes, and the clock when a loss is handled.
\<close>

datatype opened = Refused string | Rejected exn | Opened rat

record socket_attempt =
  at_opened :: opened
  at_passes :: "probe_pass list"
  at_after :: rat

definition token_outcomes_of :: "market \<Rightarrow> (string, string) dict" where
  "token_outcomes_of m = dict_of_pairs [(m_up_token_id m, ''up''), (m_down_token_id m, ''down'')]"

definition connect ::
  "activation_update \<Rightarrow> rat \<Rightarrow> rat \<Rightarrow> socket_attempt \<Rightarrow> probe \<Rightarrow> (watched \<times> probe) option" where
  "connect update window book_deadline a pb =
     (case at_opened a of
        Refused reason \<Rightarrow> Some (Dropped reason, pb)
      | Rejected e \<Rightarrow> Some (Failed e, pb)
      | Opened connected_at \<Rightarrow>
          watch_book update (token_outcomes_of (au_market update)) window book_deadline connected_at
            (at_passes a) (pb\<lparr>pb_last_message_at := connected_at\<rparr>))"

text \<open>
  The value is whether the market is done, for a reason or because an error ended the task, with
  what was recorded; \<open>None\<close> while it is still being watched. An opening deadline is lost with
  the connection that set it, as the caller only learns it from a connection that returns.
\<close>

fun monitor :: "activation_update \<Rightarrow> rat \<Rightarrow> rat \<Rightarrow> socket_attempt list \<Rightarrow> probe \<Rightarrow> ((exn + unit) \<times> probe) option" where
  "monitor update window book_deadline [] pb = None"
| "monitor update window book_deadline (a # rest) pb =
     (case connect update window book_deadline a pb of
        None \<Rightarrow> None
      | Some (Finished, pb) \<Rightarrow> Some (Return (), pb)
      | Some (Failed e, pb) \<Rightarrow> Some (Raise e, pb)
      | Some (Dropped reason, pb) \<Rightarrow>
          if to_double (book_deadline - at_after a) \<le> 0 then Some (Return (), pb)
          else monitor update window book_deadline rest (pb\<lparr>pb_opening_deadline := None\<rparr>))"

definition reconnect_delay :: "rat \<Rightarrow> rat" where
  "reconnect_delay remaining = min RECONNECT_DELAY_SECONDS (max 0 remaining)"

definition fresh_probe :: probe where
  "fresh_probe =
     \<lparr>pb_queues = [], pb_opening_deadline = None, pb_last_message_at = 0, pb_rows = []\<rparr>"

definition monitor_market ::
  "activation_update \<Rightarrow> rat \<Rightarrow> rat \<Rightarrow> socket_attempt list \<Rightarrow> ((exn + unit) \<times> probe) option" where
  "monitor_market update window started attempts =
     monitor update window (to_double (started + BOOK_WAIT_SECONDS)) attempts fresh_probe"

text \<open>The markets whose tasks one pass of \<open>_run\<close> starts, from what the worker's queue held.\<close>

definition probe_tasks :: "act_update list \<Rightarrow> activation_update list" where
  "probe_tasks us = concat (map (\<lambda>u. case u of Activated a \<Rightarrow> [a] | ActState _ \<Rightarrow> []) us)"

subsection \<open>The queues follow the assignments of the events\<close>

text \<open>
  The specification: the sizes an event assigns to the outcomes, in order, an error of the
  reader included; the queues then are what the assignments leave, and an event counts as a
  change when one of them differs from what stood there.
\<close>

definition assigned :: "(string, string) dict \<Rightarrow> payload \<Rightarrow> exn + (string \<times> rat) list" where
  "assigned token_outcomes event =
     (let event_type = py_str (por (pget ''event_type'' event) (JStr [])) in
      if event_type = ''book'' then
        (case event_outcome token_outcomes event of
           None \<Rightarrow> Return []
         | Some outcome \<Rightarrow>
             rbind (py_iter (por (pget ''bids'' event) (JArr []))) (\<lambda>levels.
             rbind (rtraverse target_size levels) (\<lambda>sizes. Return [(outcome, dsum (concat sizes))])))
      else if event_type = ''price_change'' then
        rbind (py_iter (por (pget ''price_changes'' event) (JArr []))) (\<lambda>changes.
        rbind (rtraverse (change_of token_outcomes) changes) (\<lambda>rs.
          Return (concat (map (\<lambda>r. case r of None \<Rightarrow> [] | Some a \<Rightarrow> [a]) rs))))
      else Return [])"

fun changes :: "(string \<times> rat) list \<Rightarrow> queues \<Rightarrow> bool" where
  "changes [] queues = False"
| "changes ((outcome, sz) # rest) queues =
     (dict_get queues outcome \<noteq> Some sz \<or> changes rest (dict_set outcome sz queues))"

definition assign :: "(string \<times> rat) list \<Rightarrow> queues \<Rightarrow> queues" where
  "assign rest = fold (\<lambda>(outcome, sz). dict_set outcome sz) rest"

lemma assign_simps [simp]:
  "assign [] queues = queues"
  "assign ((outcome, sz) # rest) queues = assign rest (dict_set outcome sz queues)"
  by (simp_all add: assign_def)

lemma dict_set_same: "dict_get d k = Some v \<Longrightarrow> dict_set k v d = d"
  by (induction d) (auto simp: dict_get_def dict_set_def split: if_splits)

lemma put_queue_assign:
  "put_queue outcome sz (c, queues) =
     (c \<or> dict_get queues outcome \<noteq> Some sz, dict_set outcome sz queues)"
  by (simp add: put_queue_def dict_set_same)

lemma put_changes_assigned:
  "put_changes toks cs (c, queues) =
     rbind (rtraverse (change_of toks) cs) (\<lambda>rs.
       let as = concat (map (\<lambda>r. case r of None \<Rightarrow> [] | Some a \<Rightarrow> [a]) rs)
       in Return (c \<or> changes as queues, assign as queues))"
proof (induction cs arbitrary: c queues)
  case (Cons j js)
  show ?case
  proof (cases "change_of toks j")
    case (Inr r)
    then show ?thesis
      by (cases r; cases "rtraverse (change_of toks) js")
        (auto simp: Cons.IH put_queue_assign Let_def split: prod.splits)
  qed simp
qed simp

text \<open>A message of the book stream does to the queues what its assignments do, in order; it
  is a change exactly when one of them differs from the queue that stood there, and it fails
  exactly when one of its numbers cannot be read.\<close>

lemma update_queues_assigned:
  "update_queues token_outcomes event queues =
     rbind (assigned token_outcomes event) (\<lambda>as. Return (changes as queues, assign as queues))"
proof -
  have assoc: "rbind (rbind r f) g = rbind r (\<lambda>x. rbind (f x) g)"
    for r :: "exn + 'x" and f :: "'x \<Rightarrow> exn + 'y" and g :: "'y \<Rightarrow> exn + 'z"
    by (cases r) simp_all
  show ?thesis
    by (simp add: update_queues_def assigned_def put_changes_assigned assoc Let_def
        cong: option.case_cong split: option.split)
qed

subsection \<open>What a probe has recorded\<close>

lemma to_double_pos [simp]: "0 < to_double x \<longleftrightarrow> 0 < x"
  using round_sig_pos [of 2 53 x] round_sig_mono [of 2 53 x 0] by (force simp: to_double_def)

lemma to_double_nonpos [simp]: "to_double x \<le> 0 \<longleftrightarrow> x \<le> 0"
  using to_double_pos [of x] by linarith

text \<open>
  What every step of a probe keeps: rows are only appended, the opening deadline stands once
  set, and it is set exactly with the first row.
\<close>

definition recorded :: "probe \<Rightarrow> probe \<Rightarrow> bool" where
  "recorded pb pb' \<longleftrightarrow>
     (\<exists>new. pb_rows pb' = pb_rows pb @ new \<and>
        (case pb_opening_deadline pb of
           None \<Rightarrow> pb_opening_deadline pb' = None \<longleftrightarrow> new = []
         | Some t \<Rightarrow> pb_opening_deadline pb' = Some t))"

lemma recorded_refl [simp]: "recorded pb pb"
  by (simp add: recorded_def split: option.split)

lemma recorded_trans: "recorded a b \<Longrightarrow> recorded b c \<Longrightarrow> recorded a c"
  by (auto simp: recorded_def split: option.splits)

lemma recorded_heard [simp]: "recorded pb (pb\<lparr>pb_last_message_at := t\<rparr>)"
  by (simp add: recorded_def split: option.split)

lemma probe_event_recorded:
  "probe_event update toks window now wall j pb = Return pb' \<Longrightarrow> recorded pb pb'"
  by (auto simp: probe_event_def recorded_def rbind_Inr_iff Let_def split: if_splits option.splits)

lemma probe_events_recorded: "recorded pb (snd (probe_events update toks window now wall js pb))"
proof (induction js arbitrary: pb)
  case (Cons j js)
  show ?case
  proof (cases "probe_event update toks window now wall j pb")
    case (Inr pb')
    then show ?thesis using Cons.IH [of pb'] probe_event_recorded recorded_trans by simp blast
  qed simp
qed simp

lemma probe_message_recorded: "recorded pb (snd (probe_message update toks window now wall raw pb))"
  by (auto simp: probe_message_def Let_def split: option.split
      intro: recorded_trans [OF recorded_heard probe_events_recorded])

lemma watch_book_recorded:
  "watch_book update toks window bd c ps pb = Some (w, pb') \<Longrightarrow> recorded pb pb'"
proof (induction ps arbitrary: pb)
  case (Cons p ps)
  show ?case
  proof (cases "head_of bd c (qp_head p) pb")
    case (Wait t)
    show ?thesis
    proof (cases "qp_received p")
      case (Message raw)
      obtain e pb1 where m: "probe_message update toks window (qp_after p) (qp_wall p) raw pb = (e, pb1)"
        by fastforce
      then have "recorded pb pb1" using probe_message_recorded [of pb] by (metis snd_conv)
      then show ?thesis
        using Cons Wait Message m recorded_trans by (cases e) auto
    qed (use Cons Wait in auto)
  qed (use Cons.prems in auto)
qed simp

text \<open>A connection that returns has recorded its window or has waited for the book to the end.\<close>

lemma watch_book_finished:
  assumes "watch_book update toks window bd c ps pb = Some (Finished, pb')"
  shows "pb_opening_deadline pb' \<noteq> None \<or> (\<exists>p\<in>set ps. bd \<le> qp_head p)"
  using assms
proof (induction ps arbitrary: pb)
  case (Cons p ps)
  show ?case
  proof (cases "head_of bd c (qp_head p) pb")
    case Done
    then have "pb_opening_deadline pb \<noteq> None \<or> bd \<le> qp_head p"
      by (auto simp: head_of_def Let_def split: if_splits option.splits)
    then show ?thesis using Cons.prems Done by auto
  next
    case (Wait t)
    then show ?thesis
      using Cons by (fastforce split: received.splits prod.splits option.splits)
  qed (use Cons.prems in simp)
qed simp

text \<open>The readings of the clock on which a market is given up.\<close>

definition clock_readings :: "socket_attempt \<Rightarrow> rat set" where
  "clock_readings a = insert (at_after a) (qp_head ` set (at_passes a))"

lemma connect_recorded:
  assumes "connect update window bd a pb = Some (w, pb')"
  shows "\<exists>new. pb_rows pb' = pb_rows pb @ new"
    and "w = Finished \<Longrightarrow> pb_opening_deadline pb = None \<Longrightarrow>
           pb_rows pb' \<noteq> [] \<or> (\<exists>t\<in>clock_readings a. bd \<le> t)"
proof -
  have "recorded pb pb'"
    using assms
    by (auto simp: connect_def split: opened.splits
        dest!: watch_book_recorded intro: recorded_trans [OF recorded_heard])
  moreover have "w = Finished \<Longrightarrow> pb_opening_deadline pb' \<noteq> None \<or> (\<exists>t\<in>clock_readings a. bd \<le> t)"
    using assms watch_book_finished
    by (fastforce simp: connect_def clock_readings_def split: opened.splits)
  ultimately show "\<exists>new. pb_rows pb' = pb_rows pb @ new"
    and "w = Finished \<Longrightarrow> pb_opening_deadline pb = None \<Longrightarrow>
           pb_rows pb' \<noteq> [] \<or> (\<exists>t\<in>clock_readings a. bd \<le> t)"
    by (auto simp: recorded_def)
qed

lemma monitor_gives_up:
  assumes "monitor update window bd attempts pb = Some (Return (), pb')"
    and "pb_opening_deadline pb = None"
  shows "pb_rows pb' \<noteq> [] \<or> (\<exists>a\<in>set attempts. \<exists>t\<in>clock_readings a. bd \<le> t)"
  using assms
proof (induction attempts arbitrary: pb)
  case (Cons a rest)
  obtain w pb1 where c: "connect update window bd a pb = Some (w, pb1)"
    using Cons.prems by (auto split: option.splits)
  show ?case
  proof (cases w)
    case Finished
    then show ?thesis using connect_recorded(2) [OF c] Cons.prems c by auto
  next
    case (Dropped reason)
    show ?thesis
    proof (cases "bd \<le> at_after a")
      case True
      then show ?thesis by (auto simp: clock_readings_def)
    next
      case False
      then show ?thesis using Cons.IH [of "pb1\<lparr>pb_opening_deadline := None\<rparr>"] Cons.prems c Dropped by auto
    qed
  qed (use Cons.prems c in simp)
qed simp

text \<open>C23. A market that is no longer watched, other than by an error, has at least one row in the
  file, or the clock was read past the book deadline, twelve hours after the watch began: no
  lost socket, silence or refused connection makes the probe give a market up.\<close>

theorem market_given_up_late:
  assumes "monitor_market update window started attempts = Some (Return (), pb)"
  shows "pb_rows pb \<noteq> [] \<or>
    (\<exists>a\<in>set attempts. \<exists>t\<in>clock_readings a. to_double (started + BOOK_WAIT_SECONDS) \<le> t)"
  using assms by (auto simp: monitor_market_def fresh_probe_def dest: monitor_gives_up)

subsection \<open>A connection lost within the opening window\<close>

lemma watch_book_quiet:
  assumes "list_all (\<lambda>p. qp_received p = Quiet \<and> qp_head p < bd \<and>
      qp_head p < to_double (pb_last_message_at pb + SILENCE_SECONDS) \<and>
      qp_head p < to_double (c + RESUBSCRIBE_SECONDS)) ps"
    and "pb_opening_deadline pb = None"
  shows "watch_book update toks window bd c ps pb = None"
  using assms by (induction ps) (auto simp: head_of_def Let_def not_le)

text \<open>C39. The opening window is forgotten with the connection that opened it. Where that
  connection drops before the window's end \<open>t\<close> has been seen, the next one goes on watching past
  \<open>t\<close>, on the book deadline of hours, although the same state with its deadline kept would be
  done at its first pass.\<close>

theorem opening_window_forgotten:
  assumes "connect update window bd a pb = Some (Dropped reason, pb1)"
    and "pb_opening_deadline pb1 = Some t" "t \<noteq> 0" "at_after a < bd"
    and "at_opened b = Opened c" "at_passes b = p # ps"
    and "list_all (\<lambda>q. qp_received q = Quiet \<and> t \<le> qp_head q \<and> qp_head q < bd \<and>
      qp_head q < to_double (c + SILENCE_SECONDS) \<and>
      qp_head q < to_double (c + RESUBSCRIBE_SECONDS)) (p # ps)"
  shows "monitor update window bd [a, b] pb = None \<and>
    connect update window bd b pb1 = Some (Finished, pb1\<lparr>pb_last_message_at := c\<rparr>)"
proof
  let ?pb = "pb1\<lparr>pb_opening_deadline := None, pb_last_message_at := c\<rparr>"
  have "watch_book update (token_outcomes_of (au_market update)) window bd c (p # ps) ?pb = None"
    by (rule watch_book_quiet) (use assms(7) in \<open>simp_all add: list_all_iff\<close>)
  then show "monitor update window bd [a, b] pb = None"
    using assms by (simp add: connect_def)
  show "connect update window bd b pb1 = Some (Finished, pb1\<lparr>pb_last_message_at := c\<rparr>)"
    using assms by (simp add: connect_def head_of_def Let_def)
qed

subsection \<open>A run\<close>

definition probe_update :: activation_update where
  "probe_update =
     \<lparr>au_market = example_mkt, au_discovered_ts_ms = 0, au_detected_ts_ms = 5000\<rparr>"

text \<open>Both books arrive in one message eleven seconds in; two seconds later nothing is left to do.\<close>

definition books_message :: string where
  "books_message =
     ''[{\"event_type\":\"book\",\"asset_id\":\"111\"},{\"event_type\":\"book\",\"asset_id\":\"222\"}]''"

definition books_pass :: probe_pass where
  "books_pass = \<lparr>qp_head = 10, qp_received = Message books_message, qp_after = 11, qp_wall = 1000\<rparr>"

definition quiet_pass :: probe_pass where
  "quiet_pass = \<lparr>qp_head = 20, qp_received = Quiet, qp_after = 20, qp_wall = 1009\<rparr>"

definition dropped_attempt :: socket_attempt where
  "dropped_attempt =
     \<lparr>at_opened = Opened 9,
      at_passes = [books_pass, quiet_pass\<lparr>qp_head := 12, qp_received := Lost ''closed''\<rparr>],
      at_after = 12\<rparr>"

definition second_attempt :: socket_attempt where
  "second_attempt = \<lparr>at_opened = Opened 18, at_passes = [quiet_pass], at_after = 21\<rparr>"

definition books_row :: queue_row where
  "books_row =
     \<lparr>qr_observed_ts_ms = 1000000, qr_source_ts_ms = 1000000, qr_slug = m_slug example_mkt,
      qr_discovered_ts_ms = 0, qr_detected_ts_ms = 5000, qr_up = 0, qr_down = 0\<rparr>"

lemma books_not_pong: "books_message \<noteq> ''PONG''"
  by (simp add: books_message_def)

lemma books_loaded:
  "loads books_message =
     Some (JArr [JObj [(''event_type'', JStr ''book''), (''asset_id'', JStr ''111'')],
                 JObj [(''event_type'', JStr ''book''), (''asset_id'', JStr ''222'')]])"
  by code_simp

definition books_probe :: "rat \<Rightarrow> rat option \<Rightarrow> queues \<Rightarrow> queue_row list \<Rightarrow> probe" where
  "books_probe heard deadline queues rows =
     \<lparr>pb_queues = queues, pb_opening_deadline = deadline, pb_last_message_at = heard, pb_rows = rows\<rparr>"

lemma probe_doubles:
  "to_double 13 = 13" "to_double 28 = 28" "to_double 39 = 39" "to_double 48 = 48"
  "to_double 1809 = 1809" "to_double 1818 = 1818" "to_double 43200 = 43200"
  "dtrunc (to_double 1000000) = 1000000"
  by code_simp+

lemma up_book:
  "probe_event probe_update [(''111'', ''up''), (''222'', ''down'')] 2 11 1000
     (JObj [(''event_type'', JStr ''book''), (''asset_id'', JStr ''111'')]) (books_probe h None [] []) =
   Return (books_probe h None [(''up'', 0)] [])"
  by (simp add: probe_event_def update_queues_def event_outcome_def pget_def por_def py_str_def
      books_probe_def py_iter_def dsum_def dict_get_def dict_set_def)

lemma down_book:
  "probe_event probe_update [(''111'', ''up''), (''222'', ''down'')] 2 11 1000
     (JObj [(''event_type'', JStr ''book''), (''asset_id'', JStr ''222'')]) (books_probe h None [(''up'', 0)] []) =
   Return (books_probe h (Some 13) [(''up'', 0), (''down'', 0)] [books_row])"
  by (simp add: probe_event_def update_queues_def event_outcome_def pget_def por_def py_str_def
      books_probe_def py_iter_def dsum_def dict_get_def dict_set_def probe_doubles record_queue_def
      timestamp_ms_def queue_of_def books_row_def probe_update_def now_millis_def)

lemma books_message_seen:
  "probe_message probe_update [(''111'', ''up''), (''222'', ''down'')] 2 11 1000 books_message
     (books_probe h None [] []) =
   (None, books_probe 11 (Some 13) [(''up'', 0), (''down'', 0)] [books_row])"
  using up_book [of 11] down_book [of 11]
  by (simp add: probe_message_def books_not_pong books_loaded books_probe_def Let_def)

lemma dropped_within_window:
  "connect probe_update 2 43200 dropped_attempt (books_probe 0 None [] []) =
   Some (Dropped ''closed'', books_probe 11 (Some 13) [(''up'', 0), (''down'', 0)] [books_row])"
proof -
  have "token_outcomes_of (au_market probe_update) = [(''111'', ''up''), (''222'', ''down'')]"
    by code_simp
  moreover have "head_of 43200 9 10 (books_probe 9 None [] []) = Wait 29"
    by code_simp
  moreover have "head_of 43200 9 12 (books_probe 11 (Some 13) q r) = Wait 1" for q r
  proof -
    have "to_double 1 = 1" by code_simp
    then show ?thesis by (simp add: head_of_def books_probe_def Let_def)
  qed
  ultimately show ?thesis
    using books_message_seen [of 9]
    by (simp add: connect_def dropped_attempt_def books_pass_def quiet_pass_def books_probe_def)
qed

theorem opening_window_forgotten_witness:
  "monitor probe_update 2 43200 [dropped_attempt, second_attempt] (books_probe 0 None [] []) = None \<and>
   connect probe_update 2 43200 second_attempt
     (books_probe 11 (Some 13) [(''up'', 0), (''down'', 0)] [books_row]) =
   Some (Finished, books_probe 18 (Some 13) [(''up'', 0), (''down'', 0)] [books_row])"
  using opening_window_forgotten [OF dropped_within_window, of 13 second_attempt 18 quiet_pass "[]"]
  by (simp add: books_probe_def dropped_attempt_def second_attempt_def quiet_pass_def
      SILENCE_SECONDS_def RESUBSCRIBE_SECONDS_def probe_doubles)

text \<open>A venue that refuses every connection for twelve hours.\<close>

definition refused_attempt :: socket_attempt where
  "refused_attempt = \<lparr>at_opened = Refused ''refused'', at_passes = [], at_after = 43201\<rparr>"

theorem market_given_up_late_witness:
  "\<exists>a\<in>set [refused_attempt]. \<exists>t\<in>clock_readings a. to_double (0 + BOOK_WAIT_SECONDS) \<le> t"
proof -
  have "monitor_market probe_update 2 0 [refused_attempt] = Some (Return (), fresh_probe)"
    by (simp add: monitor_market_def connect_def refused_attempt_def BOOK_WAIT_SECONDS_def probe_doubles)
  from market_given_up_late [OF this] show ?thesis by (simp add: fresh_probe_def)
qed

end
