(* ===== verification/Transport.thy ===== *)
theory Transport
  imports Py_Values
begin

text \<open>
  \<open>polymarket_bot/transport.py\<close>: the swap of the official client's shared HTTP client for a
  pool of HTTP/1.1 connections, and the warm-up of that pool. The module's globals, the
  client's module attribute and the process's limit on file descriptors are one record. What
  the operating system allows is a parameter; a dial is counted, its request is left out.
\<close>

definition WORST_REPLY_SECONDS :: rat where "WORST_REPLY_SECONDS = 1"
definition SYNC_POOL_CONNECTIONS :: int where "SYNC_POOL_CONNECTIONS = 64"
definition WARM_CONNECTIONS :: nat where "WARM_CONNECTIONS = 3"
definition WARM_INTERVAL_SECONDS :: rat where "WARM_INTERVAL_SECONDS = 60"

record http_client =
  hc_http2 :: bool
  hc_max_connections :: int
  hc_max_keepalive :: int
  hc_keepalive_expiry :: rat
  hc_timeout :: rat

text \<open>\<open>tr_client\<close>: \<open>None\<close> where the attribute is missing or not an \<open>httpx.Client\<close>.\<close>

record transport =
  tr_installed :: bool
  tr_last_warm :: "rat option"
  tr_client :: "http_client option"
  tr_closed :: "http_client list"
  tr_soft :: int
  tr_hard :: int

text \<open>The module \<open>resource\<close>: the value it has for no limit, and whether the limit may be set.\<close>

record resource =
  rs_infinity :: int
  rs_may_set :: bool

definition raise_file_descriptor_limit :: "resource option \<Rightarrow> int \<Rightarrow> transport \<Rightarrow> transport" where
  "raise_file_descriptor_limit os target tr =
     (case os of
        None \<Rightarrow> tr
      | Some r \<Rightarrow>
          let wanted = (if tr_hard tr = rs_infinity r then target else min target (tr_hard tr))
          in if tr_soft tr \<ge> wanted then tr
             else if rs_may_set r then tr\<lparr>tr_soft := wanted\<rparr> else tr)"

definition pool_client :: http_client where
  "pool_client =
     \<lparr>hc_http2 = False, hc_max_connections = SYNC_POOL_CONNECTIONS,
      hc_max_keepalive = SYNC_POOL_CONNECTIONS, hc_keepalive_expiry = 300,
      hc_timeout = WORST_REPLY_SECONDS\<rparr>"

definition install_parallel_transport :: "resource option \<Rightarrow> transport \<Rightarrow> (exn + unit) \<times> transport" where
  "install_parallel_transport os tr =
     (if tr_installed tr then (Return (), tr)
      else let tr = raise_file_descriptor_limit os 8192 tr in
        case tr_client tr of
          None \<Rightarrow> (Raise (RuntimeError ''py_clob_client_v2 no longer exposes _http_client as an httpx.Client; the parallel-transport swap would silently not take effect''), tr)
        | Some previous \<Rightarrow>
            (Return (), tr\<lparr>tr_client := Some pool_client, tr_closed := tr_closed tr @ [previous],
                         tr_installed := True\<rparr>))"

text \<open>
  \<open>may_start k\<close>: whether the \<open>k\<close>-th thread of the warm-up can be started. The value is the
  number of dials, \<open>None\<close> where the call leaves without trying.
\<close>

definition warm_connections :: "rat \<Rightarrow> (nat \<Rightarrow> bool) \<Rightarrow> nat \<Rightarrow> transport \<Rightarrow> nat option \<times> transport" where
  "warm_connections now may_start n tr =
     (if \<not> tr_installed tr then (None, tr)
      else if (case tr_last_warm tr of None \<Rightarrow> False
               | Some before \<Rightarrow> to_double (now - before) < WARM_INTERVAL_SECONDS) then (None, tr)
      else (Some (length (takeWhile may_start [0..<n])), tr\<lparr>tr_last_warm := Some now\<rparr>))"

subsection \<open>The swap happens once\<close>

lemma limit_only_raised: "tr_soft tr \<le> tr_soft (raise_file_descriptor_limit os target tr)"
  by (auto simp: raise_file_descriptor_limit_def Let_def split: option.split)

lemma limit_keeps [simp]:
  "tr_client (raise_file_descriptor_limit os target tr) = tr_client tr"
  "tr_closed (raise_file_descriptor_limit os target tr) = tr_closed tr"
  "tr_installed (raise_file_descriptor_limit os target tr) = tr_installed tr"
  by (simp_all add: raise_file_descriptor_limit_def Let_def split: option.split)

text \<open>However often the exchange is constructed, one client is replaced and closed.\<close>

lemma install_idempotent:
  assumes "install_parallel_transport os tr = (Return (), tr')"
  shows "install_parallel_transport os' tr' = (Return (), tr')"
    and "\<not> tr_installed tr \<Longrightarrow> tr_client tr' = Some pool_client \<and>
           (\<exists>previous. tr_client tr = Some previous \<and> tr_closed tr' = tr_closed tr @ [previous])"
  using assms by (auto simp: install_parallel_transport_def Let_def split: option.splits if_splits)

subsection \<open>Warm-ups keep their distance\<close>

text \<open>The times, of a sequence of calls, at which the pool was warmed.\<close>

fun warm_ups :: "(rat \<times> (nat \<Rightarrow> bool)) list \<Rightarrow> nat \<Rightarrow> transport \<Rightarrow> rat list" where
  "warm_ups [] n tr = []"
| "warm_ups ((now, may_start) # cs) n tr =
     (let (dials, tr') = warm_connections now may_start n tr
      in (if dials = None then [] else [now]) @ warm_ups cs n tr')"

lemma warm_ups_after:
  assumes "tr_installed tr" "tr_last_warm tr = Some before" "sorted (map fst cs)"
    and "\<forall>c\<in>set cs. before \<le> fst c"
  shows "sorted_wrt (\<lambda>a b. WARM_INTERVAL_SECONDS \<le> to_double (b - a)) (before # warm_ups cs n tr)"
  using assms
proof (induction cs arbitrary: tr before)
  case (Cons c cs)
  obtain now may_start where c: "c = (now, may_start)" by (cases c)
  show ?case
  proof (cases "to_double (now - before) < WARM_INTERVAL_SECONDS")
    case True
    then show ?thesis using Cons c by (simp add: warm_connections_def)
  next
    case False
    have later: "sorted_wrt (\<lambda>a b. WARM_INTERVAL_SECONDS \<le> to_double (b - a))
        (now # warm_ups cs n (tr\<lparr>tr_last_warm := Some now\<rparr>))"
      using Cons.prems c by (intro Cons.IH) auto
    have "WARM_INTERVAL_SECONDS \<le> to_double (t - before)"
      if "WARM_INTERVAL_SECONDS \<le> to_double (t - now)" for t
    proof -
      have "before \<le> now" using Cons.prems c by simp
      then have "to_double (t - now) \<le> to_double (t - before)"
        unfolding to_double_def by (intro round_sig_mono) simp_all
      with that show ?thesis by linarith
    qed
    then show ?thesis using False later Cons.prems c
      by (simp add: warm_connections_def not_less)
  qed
qed simp

text \<open>
  As the clock goes forward, any two warm-ups of a run are a minute apart, and every call
  finds the pool warmed within the last minute, or warms it.
\<close>

lemma warm_ups_apart:
  assumes "sorted (map fst cs)" "tr_last_warm tr = None"
  shows "sorted_wrt (\<lambda>a b. WARM_INTERVAL_SECONDS \<le> to_double (b - a)) (warm_ups cs n tr)"
proof (cases cs)
  case (Cons c rest)
  obtain now may_start where c: "c = (now, may_start)" by (cases c)
  show ?thesis
  proof (cases "tr_installed tr")
    case True
    then show ?thesis
      using warm_ups_after [of "tr\<lparr>tr_last_warm := Some now\<rparr>" now rest n] assms Cons c
      by (auto simp: warm_connections_def)
  next
    case False
    then have "warm_ups xs n tr = []" for xs
      by (induction xs) (auto simp: warm_connections_def)
    then show ?thesis by simp
  qed
qed simp

lemma warm_ups_enough:
  assumes "tr_installed tr" "c \<in> set cs" "sorted (map fst cs)"
    and "\<And>before. tr_last_warm tr = Some before \<Longrightarrow> before \<in> warmed \<and> (\<forall>d\<in>set cs. before \<le> fst d)"
  shows "\<exists>w\<in>warmed \<union> set (warm_ups cs n tr).
           w \<le> fst c \<and> to_double (fst c - w) < WARM_INTERVAL_SECONDS"
  using assms
proof (induction cs arbitrary: tr warmed)
  case (Cons d ds)
  obtain now may_start where d: "d = (now, may_start)" by (cases d)
  obtain dials tr' where w: "warm_connections now may_start n tr = (dials, tr')"
    by fastforce
  have here: "\<exists>w\<in>warmed \<union> set (warm_ups (d # ds) n tr).
      w \<le> now \<and> to_double (now - w) < WARM_INTERVAL_SECONDS"
    using Cons.prems d w
    by (auto simp: warm_connections_def WARM_INTERVAL_SECONDS_def to_double_def
        split: option.splits if_splits)
  show ?case
  proof (cases "c = d")
    case True
    then show ?thesis using here d by simp
  next
    case False
    let ?more = "if dials = None then warmed else insert now warmed"
    have "\<exists>w\<in>?more \<union> set (warm_ups ds n tr').
        w \<le> fst c \<and> to_double (fst c - w) < WARM_INTERVAL_SECONDS"
      using Cons.prems d w False
      by (intro Cons.IH) (auto simp: warm_connections_def split: option.splits if_splits)
    then show ?thesis using d w by (auto split: if_splits)
  qed
qed simp

end
