(* ===== verification/Knock_Library.thy ===== *)
theory Knock_Library
  imports Knocker "HOL-Library.List_Lexorder" "HOL-Library.Char_ord"
begin

text \<open>
  How \<open>polymarket_bot/knocker.py\<close> reaches the knock library: the hash of its sources, loading it
  once, one call with its answer, the judgement of a reply, and the thread that hands replies
  to their account's hooks. A parameter stands for what ctypes, the file system, SHA-256 and
  the library give; a file is a path relative to the sources and its bytes.
\<close>

subsection \<open>The hash of the sources\<close>

definition CR :: char where "CR = char_of (13::int)"
definition LF :: char where "LF = char_of (10::int)"

text \<open>\<open>bytes.replace(b"\r\n", b"\n")\<close>, in one pass from the left.\<close>

fun unix_lines :: "string \<Rightarrow> string" where
  "unix_lines (c # d # cs) =
     (if c = CR \<and> d = LF then LF # unix_lines cs else c # unix_lines (d # cs))"
| "unix_lines cs = cs"

definition source_text :: "(string \<times> string) list \<Rightarrow> string" where
  "source_text files =
     concat (map (\<lambda>(relative, bytes). relative @ [LF] @ unix_lines bytes @ [LF])
       (sort_key fst (filter (\<lambda>(relative, bytes). library_source relative) files)))"

definition source_hash :: "(string \<Rightarrow> string) \<Rightarrow> (string \<times> string) list \<Rightarrow> string" where
  "source_hash sha256 files = sha256 (source_text files)"

subsection \<open>Calls\<close>

definition LINUX_LIBRARY :: string where "LINUX_LIBRARY = ''polymarket_bot/libknocker.so''"
definition WINDOWS_LIBRARY :: string where "WINDOWS_LIBRARY = ''knocker/build/knocker.dll''"

definition library_path :: "string \<Rightarrow> string" where
  "library_path platform = (if platform = ''win32'' then WINDOWS_LIBRARY else LINUX_LIBRARY)"

definition KnockerError :: "string \<Rightarrow> exn" where
  "KnockerError message = Raised ''KnockerError'' message"

text \<open>\<open>_lib\<close>: whether the library is loaded, kept where \<open>open_library\<close> raises.\<close>

definition load_library :: "string \<Rightarrow> (string \<Rightarrow> bool) \<Rightarrow> (string \<Rightarrow> exn + unit) \<Rightarrow> bool \<Rightarrow> exn + bool" where
  "load_library platform file_exists open_library loaded =
     (if loaded then Return True
      else let path = library_path platform in
        if \<not> file_exists path then
          Raise (KnockerError (''knock library not found at '' @ path @ ''; build it with knocker/build.ps1''))
        else rbind (open_library path) (\<lambda>_. Return True))"

text \<open>\<open>_call\<close>, after the library has answered with a text; the text is freed in every case.\<close>

definition answer_of :: "string \<Rightarrow> exn + json" where
  "answer_of text_of_answer =
     (case loads text_of_answer of
        None \<Rightarrow> Raise (Raised ''JSONDecodeError'' ''Expecting value'')
      | Some (JObj answer) \<Rightarrow>
          (case map_of answer ''error'' of
             Some e \<Rightarrow> Raise (KnockerError (py_str e))
           | None \<Rightarrow> (case map_of answer ''ok'' of
                        None \<Rightarrow> Raise (KeyError (repr_str ''ok''))
                      | Some v \<Rightarrow> Return v))
      | Some _ \<Rightarrow> Raise (TypeError ''not an object''))"

text \<open>\<open>got[key]\<close> of the library's judgement, and \<open>got[key] or None\<close> as a text.\<close>

definition got_field :: "string \<Rightarrow> json \<Rightarrow> exn + json" where
  "got_field key got =
     (case got of
        JObj d \<Rightarrow> (case map_of d key of None \<Rightarrow> Raise (KeyError (repr_str key)) | Some v \<Rightarrow> Return v)
      | _ \<Rightarrow> Raise (TypeError ''not an object''))"

definition text_or_none :: "json \<Rightarrow> string option" where
  "text_or_none v = (if truthy v then Some (py_str v) else None)"

definition classify :: "exn + json \<Rightarrow> exn + verdict" where
  "classify answer =
     rbind answer (\<lambda>got.
     rbind (got_field ''trace'' got) (\<lambda>tr.
     rbind (got_field ''accepted'' got) (\<lambda>acc.
     rbind (got_field ''order_id'' got) (\<lambda>oid.
     rbind (got_field ''duplicate_id'' got) (\<lambda>dup.
     rbind (got_field ''not_ready'' got) (\<lambda>nr.
       Return \<lparr>vd_trace = py_str tr, vd_accepted = truthy acc, vd_order_id = text_or_none oid,
               vd_duplicate_id = text_or_none dup, vd_not_ready = truthy nr\<rparr>))))))"

subsection \<open>The trace thread\<close>

text \<open>
  The registered hooks and the passes of \<open>_collect_replies\<close>: what each call for a batch gives.
  A call that raises is logged and the next pass follows. A hook that raises (\<open>raises\<close>) ends
  the recording of its attempt, and the next attempt of the batch follows.
\<close>

definition register_hooks ::
  "(string, knock_hooks) dict \<Rightarrow> (string, knock_hooks) dict \<Rightarrow> (string, knock_hooks) dict" where
  "register_hooks hooks new = fold (\<lambda>(account, h). dict_set account h) new hooks"

fun called :: "(hook_call \<Rightarrow> bool) \<Rightarrow> hook_call list \<Rightarrow> hook_call list" where
  "called raises [] = []"
| "called raises (c # cs) = c # (if raises c then [] else called raises cs)"

definition collect_pass ::
  "(hook_call \<Rightarrow> bool) \<Rightarrow> (string, knock_hooks) dict \<Rightarrow> exn + attempt list \<Rightarrow> hook_call list" where
  "collect_pass raises hooks batch =
     (case batch of
        Inl e \<Rightarrow> []
      | Inr attempts \<Rightarrow> concat (map (\<lambda>a. called raises (record_attempt hooks a)) attempts))"

fun collect_replies ::
  "(hook_call \<Rightarrow> bool) \<Rightarrow> ((string, knock_hooks) dict \<times> (exn + attempt list)) list \<Rightarrow> hook_call list" where
  "collect_replies raises [] = []"
| "collect_replies raises ((hooks, batch) # passes) =
     collect_pass raises hooks batch @ collect_replies raises passes"

text \<open>
  Every reply handed over reaches the trace of its account, whatever became of the batches,
  the attempts and the hooks before it.
\<close>

lemma every_reply_traced:
  assumes "(hooks, Inr attempts) \<in> set passes" "a \<in> set attempts"
    and "dict_get hooks (at_account a) = Some h" "kh_trace h"
  shows "TraceCall (at_account a) (at_attempt a) \<in> set (collect_replies raises passes)"
  using assms(1)
proof (induction passes)
  case (Cons p ps)
  obtain hs b where p: "p = (hs, b)" by (cases p)
  have "TraceCall (at_account a) (at_attempt a) \<in> set (collect_pass raises hooks (Inr attempts))"
    using assms(2-4) by (auto simp: collect_pass_def record_attempt_def intro!: bexI [of _ a])
  then show ?case using Cons p by auto
qed simp

subsection \<open>What the hash depends on\<close>

text \<open>A checkout with Windows line endings.\<close>

definition dos_lines :: "string \<Rightarrow> string" where
  "dos_lines bytes = concat (map (\<lambda>c. if c = LF then [CR, LF] else [c]) bytes)"

lemma dos_lines_simps [simp]:
  "dos_lines [] = []" "dos_lines (c # cs) = (if c = LF then CR # LF # dos_lines cs else c # dos_lines cs)"
  by (simp_all add: dos_lines_def)

lemma unix_lines_Cons: "c \<noteq> CR \<Longrightarrow> unix_lines (c # cs) = c # unix_lines cs"
  by (cases cs) auto

lemma unix_dos_lines: "CR \<notin> set bytes \<Longrightarrow> unix_lines (dos_lines bytes) = bytes"
  by (induction bytes) (auto simp: unix_lines_Cons)

lemma unix_lines_id: "CR \<notin> set bytes \<Longrightarrow> unix_lines bytes = bytes"
  by (induction bytes) (auto simp: unix_lines_Cons)

lemma source_text_map:
  assumes "\<And>r b. (r, b) \<in> set files \<Longrightarrow> unix_lines (g b) = unix_lines b"
  shows "source_text (map (\<lambda>(r, b). (r, g b)) files) = source_text files"
proof -
  let ?m = "\<lambda>(r, b). (r, g b) :: string \<times> string"
  have "filter (\<lambda>(r, b). library_source r) (map ?m files) =
      map ?m (filter (\<lambda>(r, b). library_source r) files)"
    by (induction files) auto
  moreover have "sort_key fst (map ?m xs) = map ?m (sort_key fst xs)" for xs
  proof (induction xs)
    case (Cons x xs)
    have "insort_key fst (?m x) (map ?m ys) = map ?m (insort_key fst x ys)" for ys
      by (induction ys) (auto split: prod.splits)
    then show ?case using Cons by simp
  qed simp
  ultimately have "source_text (map ?m files) =
      concat (map ((\<lambda>(r, b). r @ [LF] @ unix_lines b @ [LF]) \<circ> ?m)
        (sort_key fst (filter (\<lambda>(r, b). library_source r) files)))"
    by (simp add: source_text_def)
  also have "\<dots> = source_text files"
    unfolding source_text_def using assms
    by (intro arg_cong [of _ _ concat] map_cong) auto
  finally show ?thesis .
qed

text \<open>
  The hash is that of the library's sources alone: it does not depend on the order in which the
  directory is read, on files that are not among the sources, or on the line endings of the
  checkout.
\<close>

lemma source_hash_checkout:
  assumes "distinct (map fst files)" "mset found = mset (map (\<lambda>(r, b). (r, dos_lines b)) files @ others)"
    and "\<And>r b. (r, b) \<in> set files \<Longrightarrow> CR \<notin> set b"
    and "\<And>r b. (r, b) \<in> set others \<Longrightarrow> \<not> library_source r"
  shows "source_hash sha256 found = source_hash sha256 files"
proof -
  let ?dos = "map (\<lambda>(r, b). (r, dos_lines b)) files"
  let ?lib = "\<lambda>(r, b). library_source r"
  have others: "filter ?lib others = []" using assms(4) by (auto simp: filter_empty_conv)
  have "mset (filter ?lib found) = filter_mset ?lib (mset (?dos @ others))"
    by (simp only: mset_filter assms(2))
  also have "\<dots> = mset (filter ?lib ?dos) + mset (filter ?lib others)"
    by (simp only: mset_filter mset_append filter_union_mset)
  also have "\<dots> = mset (filter ?lib ?dos)" using others by simp
  finally have "mset (filter ?lib found) = mset (filter ?lib ?dos)" .
  moreover have inj: "inj_on fst (set (filter ?lib ?dos))"
  proof -
    have "map fst ?dos = map fst files" by (induction files) auto
    then have "inj_on fst (set ?dos)" using assms(1) by (metis distinct_map)
    then show ?thesis by (rule inj_on_subset) simp
  qed
  ultimately have "sort_key fst (filter ?lib found) = sort_key fst (filter ?lib ?dos)"
    by (metis sort_key_eq_sort_key mset_eq_setD)
  then have "source_text found = source_text ?dos" by (simp add: source_text_def)
  also have "\<dots> = source_text files"
    by (rule source_text_map) (use assms(3) in \<open>simp add: unix_dos_lines unix_lines_id\<close>)
  finally show ?thesis by (simp add: source_hash_def)
qed

end
