(* ===== verification/Accounts.thy ===== *)
theory Accounts
  imports Config Service Transport
begin

text \<open>
  How an account comes up: the credentials of its exchange (\<open>Exchange.__init__\<close>), the client's
  protocol version asked for ahead of a signature, the credentials and the stream of its
  orders (\<open>UserStreamWorker.__init__\<close>), and the streams a live \<open>BotService\<close> opens for its
  accounts. The venue's client and the key it derives are parameters.
\<close>

record api_creds =
  cr_key :: string
  cr_secret :: string
  cr_passphrase :: string

definition text_of_option :: "string option \<Rightarrow> string" where
  "text_of_option v = (case v of None \<Rightarrow> [] | Some s \<Rightarrow> s)"

text \<open>
  \<open>client creds\<close>: constructing the official client with these credentials; \<open>derive\<close>: the venue's
  answer to \<open>create_or_derive_api_key\<close>.
\<close>

definition exchange_credentials ::
  "(api_creds option \<Rightarrow> exn + unit) \<Rightarrow> exn + api_creds \<Rightarrow> bot_config \<Rightarrow> exn + api_creds" where
  "exchange_credentials client derive c =
     (let creds = (if unset (bc_api_key c) then None
                   else Some \<lparr>cr_key = text_of_option (bc_api_key c),
                              cr_secret = text_of_option (bc_api_secret c),
                              cr_passphrase = text_of_option (bc_api_passphrase c)\<rparr>)
      in rbind (client creds) (\<lambda>_.
         rbind (case creds of Some cr \<Rightarrow> Return cr | None \<Rightarrow> derive) (\<lambda>cr.
         rbind (client (Some cr)) (\<lambda>_. Return cr))))"

definition open_exchange ::
  "(api_creds option \<Rightarrow> exn + unit) \<Rightarrow> exn + api_creds \<Rightarrow> resource option \<Rightarrow> bot_config \<Rightarrow> transport \<Rightarrow>
     (exn + api_creds) \<times> transport" where
  "open_exchange client derive os c tr =
     (case install_parallel_transport os tr of
        (Inl e, tr) \<Rightarrow> (Inl e, tr)
      | (Inr _, tr) \<Rightarrow> (exchange_credentials client derive c, tr))"

text \<open>
  \<open>_warm_protocol_version\<close>: the version the client has cached; \<open>getter\<close> is \<open>None\<close> where the client
  has no \<open>get_version\<close>.
\<close>

definition warm_protocol_version :: "(exn + int) option \<Rightarrow> int option \<Rightarrow> int option" where
  "warm_protocol_version getter cached =
     (case cached of
        Some v \<Rightarrow> Some v
      | None \<Rightarrow> (case getter of Some (Inr v) \<Rightarrow> Some v | _ \<Rightarrow> None))"

subsection \<open>Streams\<close>

definition stream_credentials :: "bot_config \<Rightarrow> api_creds option \<Rightarrow> exn + api_creds" where
  "stream_credentials c given =
     (case given of
        Some cr \<Rightarrow> Return cr
      | None \<Rightarrow>
          if unset (bc_api_key c) \<or> unset (bc_api_secret c) \<or> unset (bc_api_passphrase c) then
            Raise (ValueError ''CLOB API credentials are required for the user stream'')
          else Return \<lparr>cr_key = text_of_option (bc_api_key c),
                       cr_secret = text_of_option (bc_api_secret c),
                       cr_passphrase = text_of_option (bc_api_passphrase c)\<rparr>)"

record account_stream =
  as_account :: string
  as_credentials :: api_creds
  as_worker :: user_stream

definition open_stream :: "string \<Rightarrow> bot_config \<Rightarrow> api_creds option \<Rightarrow> exn + account_stream" where
  "open_stream account c given =
     rbind (stream_credentials c given) (\<lambda>cr.
       Return \<lparr>as_account = account, as_credentials = cr, as_worker = user_stream_init 2\<rparr>)"

text \<open>
  The streams of the members after the first; one whose credentials cannot be read is logged
  and left out. A member is its name, its configuration and its exchange's credentials.
\<close>

type_synonym stream_member = "string \<times> bot_config \<times> (exn + api_creds)"

fun member_streams :: "stream_member list \<Rightarrow> account_stream list" where
  "member_streams [] = []"
| "member_streams ((name, c, creds) # ms) =
     (case rbind creds (\<lambda>cr. open_stream name c (Some cr)) of
        Inl e \<Rightarrow> member_streams ms
      | Inr s \<Rightarrow> s # member_streams ms)"

text \<open>
  The streams of a service in the order in which its registration clock asks them: none in a
  dry run, the primary's first otherwise, those of the members only with a fleet.
\<close>

definition service_streams ::
  "bool \<Rightarrow> bot_config \<Rightarrow> stream_member list option \<Rightarrow> exn + account_stream list" where
  "service_streams live c members =
     (if \<not> live then Return []
      else rbind (open_stream ''primary'' c None) (\<lambda>main.
        Return (main # (case members of None \<Rightarrow> [] | Some ms \<Rightarrow> member_streams (tl ms)))))"

subsection \<open>Facts\<close>

lemma member_streams_accounts:
  "map as_account (member_streams ms) = map fst (filter (\<lambda>(name, c, creds). \<exists>cr. creds = Inr cr) ms)"
  by (induction ms rule: member_streams.induct)
    (auto simp: open_stream_def stream_credentials_def rbind_Inr_iff split: sum.splits)

text \<open>
  Only the primary's credentials can keep a live service from coming up: whatever is wrong with
  the other accounts costs their streams, and the primary's stream is asked first.
\<close>

lemma service_streams_primary:
  "(\<exists>ss. service_streams True c members = Return ss) \<longleftrightarrow>
     \<not> unset (bc_api_key c) \<and> \<not> unset (bc_api_secret c) \<and> \<not> unset (bc_api_passphrase c)"
  by (auto simp: service_streams_def open_stream_def stream_credentials_def)

lemma service_streams_order:
  assumes "service_streams True c (Some ms) = Return ss"
  shows "map as_account ss =
    ''primary'' # map fst (filter (\<lambda>(name, c, creds). \<exists>cr. creds = Inr cr) (tl ms))"
  using assms
  by (auto simp: service_streams_def open_stream_def rbind_Inr_iff member_streams_accounts)

text \<open>A configuration that loads for a live run brings its primary stream up.\<close>

lemma live_config_streams:
  assumes "load_config env True authenticated = Return c"
  shows "\<exists>ss. service_streams True c members = Return ss"
proof -
  have "validate_config env True authenticated c = Return ()"
    using assms by (auto simp: load_config_def rbind_Inr_iff Let_def)
  then show ?thesis by (simp add: service_streams_primary validate_config_def split: if_splits)
qed

text \<open>
  The registration clock over these streams: the first that knows the order, so a time the
  primary's stream has is never overruled by another account's.
\<close>

lemma registration_clock_first:
  "registration_clock us oid =
     (case dropWhile (\<lambda>u. registered_ts_ms u oid = None) us of
        [] \<Rightarrow> None | u # _ \<Rightarrow> registered_ts_ms u oid)"
  by (induction us) (auto split: option.split)

end
