(* ===== verification/Schema.thy ===== *)
theory Schema
  imports Py_Values
begin

text \<open>
  How \<open>BotDatabase\<close> opens a file (\<open>polymarket_bot/database.py\<close>): the script that creates what
  is not there, and the migration of tables that an earlier version of the bot created. A file
  is its tables under their names, which SQLite compares without case, in lower case; a table
  is its columns as they were declared and its rows, each a dictionary of cells.
\<close>

subsection \<open>Files\<close>

datatype sql_cell = SqlNull | SqlInt int | SqlText string

record sql_column =
  cl_name :: string
  cl_type :: string
  cl_not_null :: bool
  cl_default :: "sql_cell option"

record sql_table =
  st_columns :: "sql_column list"
  st_rows :: "(string, sql_cell) dict list"

type_synonym sql_file = "(string, sql_table) dict"

abbreviation column_names :: "sql_table \<Rightarrow> string list" where
  "column_names tb \<equiv> map cl_name (st_columns tb)"

definition integer_column :: "string \<Rightarrow> bool \<Rightarrow> sql_column" where
  "integer_column name required =
     \<lparr>cl_name = name, cl_type = ''INTEGER'', cl_not_null = required, cl_default = None\<rparr>"

definition text_column :: "string \<Rightarrow> bool \<Rightarrow> sql_column" where
  "text_column name required =
     \<lparr>cl_name = name, cl_type = ''TEXT'', cl_not_null = required, cl_default = None\<rparr>"

definition text_default :: "string \<Rightarrow> string \<Rightarrow> sql_column" where
  "text_default name value =
     \<lparr>cl_name = name, cl_type = ''TEXT'', cl_not_null = True, cl_default = Some (SqlText value)\<rparr>"

subsection \<open>The script\<close>

definition runs_columns :: "sql_column list" where
  "runs_columns =
     [integer_column ''id'' False, integer_column ''started_ts'' True, integer_column ''stopped_ts'' False,
      text_column ''mode'' True, text_column ''status'' True, text_default ''plan_json'' ''{}'',
      integer_column ''heartbeat_ts'' False, text_column ''last_error'' False]"

definition markets_columns :: "sql_column list" where
  "markets_columns =
     [text_column ''slug'' False, integer_column ''run_id'' True, text_column ''condition_id'' True,
      integer_column ''start_ts'' True, integer_column ''end_ts'' True, text_column ''up_token_id'' True,
      text_column ''down_token_id'' True, text_default ''min_size'' ''5'', text_default ''tick_size'' ''0.01'',
      text_column ''state'' True, text_column ''error'' False, integer_column ''updated_ts'' True]"

definition orders_columns :: "sql_column list" where
  "orders_columns =
     [text_column ''order_id'' False, integer_column ''run_id'' True, text_column ''slug'' True,
      text_column ''outcome'' True, text_column ''token_id'' True, text_default ''side'' ''buy'',
      text_default ''role'' ''entry'', text_default ''account'' [], text_column ''price'' True,
      text_column ''size'' True, text_default ''matched_size'' ''0'', text_column ''status'' True,
      text_column ''raw_json'' True, integer_column ''created_ts'' True, integer_column ''updated_ts'' True]"

definition events_columns :: "sql_column list" where
  "events_columns =
     [integer_column ''id'' False, integer_column ''run_id'' False, integer_column ''ts'' True,
      text_column ''level'' True, text_column ''event_type'' True, text_column ''slug'' False,
      text_column ''details_json'' True]"

text \<open>\<open>CREATE TABLE IF NOT EXISTS\<close> and \<open>CREATE INDEX IF NOT EXISTS\<close>, which reads the column's name.\<close>

datatype sql_statement = CreateTable string "sql_column list" | CreateIndex string string

definition schema_script :: "sql_statement list" where
  "schema_script =
     [CreateTable ''runs'' runs_columns, CreateTable ''markets'' markets_columns,
      CreateIndex ''markets'' ''condition_id'', CreateTable ''orders'' orders_columns,
      CreateIndex ''orders'' ''slug'', CreateIndex ''orders'' ''status'', CreateIndex ''markets'' ''end_ts'',
      CreateTable ''events'' events_columns]"

definition operational_error :: "string \<Rightarrow> exn" where
  "operational_error = Raised ''OperationalError''"

definition has_column :: "string \<Rightarrow> sql_table \<Rightarrow> bool" where
  "has_column name tb \<longleftrightarrow> list_ex (\<lambda>c. lower (cl_name c) = lower name) (st_columns tb)"

fun exec_statement :: "sql_file \<Rightarrow> sql_statement \<Rightarrow> exn + sql_file" where
  "exec_statement f (CreateTable t columns) =
     Return (dict_setdefault t \<lparr>st_columns = columns, st_rows = []\<rparr> f)"
| "exec_statement f (CreateIndex t name) =
     (case dict_get f t of
        None \<Rightarrow> Raise (operational_error (''no such table: main.'' @ t))
      | Some tb \<Rightarrow> if has_column name tb then Return f
          else Raise (operational_error (''no such column: '' @ name)))"

fun rfold :: "('s \<Rightarrow> 'a \<Rightarrow> exn + 's) \<Rightarrow> 's \<Rightarrow> 'a list \<Rightarrow> exn + 's" where
  "rfold g s [] = Return s"
| "rfold g s (x # xs) = rbind (g s x) (\<lambda>s. rfold g s xs)"

subsection \<open>The migration\<close>

definition required_columns :: "(string \<times> sql_column list) list" where
  "required_columns =
     [(''runs'', [text_default ''plan_json'' ''{}'']),
      (''markets'', [text_default ''min_size'' ''5'', text_default ''tick_size'' ''0.01'']),
      (''orders'', [text_default ''side'' ''buy'', text_default ''role'' ''entry'', text_default ''account'' []])]"

definition default_cell :: "sql_column \<Rightarrow> sql_cell" where
  "default_cell c = (case cl_default c of None \<Rightarrow> SqlNull | Some v \<Rightarrow> v)"

text \<open>\<open>ALTER TABLE ... ADD COLUMN\<close>: every row gets the default.\<close>

definition add_column :: "string \<Rightarrow> sql_column \<Rightarrow> sql_file \<Rightarrow> exn + sql_file" where
  "add_column t c f =
     (case dict_get f t of
        None \<Rightarrow> Raise (operational_error (''no such table: '' @ t))
      | Some tb \<Rightarrow>
          if has_column (cl_name c) tb then
            Raise (operational_error (''duplicate column name: '' @ cl_name c))
          else Return (dict_set t
            \<lparr>st_columns = st_columns tb @ [c],
             st_rows = map (\<lambda>r. r @ [(cl_name c, default_cell c)]) (st_rows tb)\<rparr> f))"

definition existing_columns :: "string \<Rightarrow> sql_file \<Rightarrow> string list" where
  "existing_columns t f = (case dict_get f t of None \<Rightarrow> [] | Some tb \<Rightarrow> column_names tb)"

definition migrate_table :: "sql_file \<Rightarrow> string \<times> sql_column list \<Rightarrow> exn + sql_file" where
  "migrate_table f tc =
     (case tc of (t, columns) \<Rightarrow>
        let existing = existing_columns t f in
        rfold (\<lambda>f c. if cl_name c \<notin> set existing then add_column t c f else Return f) f columns)"

definition migrate_schema :: "sql_file \<Rightarrow> exn + sql_file" where
  "migrate_schema f = rfold migrate_table f required_columns"

definition open_database :: "sql_file \<Rightarrow> exn + sql_file" where
  "open_database f = rbind (rfold exec_statement f schema_script) migrate_schema"

subsection \<open>Files of an earlier version\<close>

definition lowered :: "sql_column list \<Rightarrow> bool" where
  "lowered cs \<longleftrightarrow> list_all (\<lambda>c. lower (cl_name c) = cl_name c) cs"

definition indexed_columns :: "string \<Rightarrow> string list" where
  "indexed_columns t = concat (map (\<lambda>st. case st of CreateIndex t' c \<Rightarrow> (if t' = t then [c] else []) | _ \<Rightarrow> []) schema_script)"

text \<open>Columns in lower case, the indexed ones among them, and rows that have exactly these cells.\<close>

definition sql_table_ok :: "string \<Rightarrow> sql_table \<Rightarrow> bool" where
  "sql_table_ok t tb \<longleftrightarrow>
     lowered (st_columns tb) \<and> distinct (column_names tb) \<and>
     list_all (\<lambda>r. map fst r = column_names tb) (st_rows tb) \<and>
     list_all (\<lambda>c. has_column c tb) (indexed_columns t)"

definition sql_file_ok :: "sql_file \<Rightarrow> bool" where
  "sql_file_ok f \<longleftrightarrow> distinct (map fst f) \<and> list_all (\<lambda>(t, tb). sql_table_ok t tb) f"

definition columns_for :: "(string \<times> sql_column list) list \<Rightarrow> string \<Rightarrow> sql_column list" where
  "columns_for ts t = (case map_of ts t of None \<Rightarrow> [] | Some cs \<Rightarrow> cs)"

definition required_of :: "string \<Rightarrow> sql_column list" where
  "required_of = columns_for required_columns"

definition missing_columns :: "sql_table \<Rightarrow> sql_column list \<Rightarrow> sql_column list" where
  "missing_columns tb cs = filter (\<lambda>c. cl_name c \<notin> set (column_names tb)) cs"

definition extend_table :: "sql_table \<Rightarrow> sql_column list \<Rightarrow> sql_table" where
  "extend_table tb cs =
     \<lparr>st_columns = st_columns tb @ cs,
      st_rows = map (\<lambda>r. r @ map (\<lambda>c. (cl_name c, default_cell c)) cs) (st_rows tb)\<rparr>"

lemma extend_Nil [simp]: "extend_table tb [] = tb"
  by (simp add: extend_table_def)

lemma extend_extend: "extend_table (extend_table tb cs) ds = extend_table tb (cs @ ds)"
  by (simp add: extend_table_def)

lemma dict_set_set [simp]: "dict_set k v (dict_set k w d) = dict_set k v d"
  by (simp add: dict_set_def update_last)

lemma dict_set_triv [simp]: "dict_get d k = Some v \<Longrightarrow> dict_set k v d = d"
  by (simp add: dict_set_def dict_get_def update_triv)

lemma has_column_lowered:
  "lowered (st_columns tb) \<Longrightarrow> lower name = name \<Longrightarrow> has_column name tb \<longleftrightarrow> name \<in> set (column_names tb)"
  by (auto simp: has_column_def lowered_def list_ex_iff list_all_iff)

lemma lowered_simps [simp]:
  "lowered []" "lowered (c # cs) \<longleftrightarrow> lower (cl_name c) = cl_name c \<and> lowered cs"
  "lowered (cs @ ds) \<longleftrightarrow> lowered cs \<and> lowered ds"
  by (simp_all add: lowered_def)

lemma lowered_filter: "lowered cs \<Longrightarrow> lowered (filter P cs)"
  by (simp add: lowered_def list_all_iff)

text \<open>The columns of one table are added one after the other.\<close>

lemma add_columns:
  assumes "dict_get f t = Some tb" "lowered (st_columns tb)" "lowered cs" "distinct (map cl_name cs)"
    and "set (column_names tb) \<inter> cl_name ` {c \<in> set cs. cl_name c \<notin> set ex} = {}"
  shows "rfold (\<lambda>f c. if cl_name c \<notin> set ex then add_column t c f else Return f) f cs =
    Return (dict_set t (extend_table tb (filter (\<lambda>c. cl_name c \<notin> set ex) cs)) f)"
  using assms
proof (induction cs arbitrary: f tb)
  case (Cons c cs)
  show ?case
  proof (cases "cl_name c \<in> set ex")
    case False
    then have "\<not> has_column (cl_name c) tb"
      using Cons.prems by (auto simp: has_column_lowered)
    then have a: "add_column t c f = Return (dict_set t (extend_table tb [c]) f)"
      using Cons.prems(1) by (simp add: add_column_def extend_table_def)
    have "rfold (\<lambda>f c. if cl_name c \<notin> set ex then add_column t c f else Return f)
        (dict_set t (extend_table tb [c]) f) cs =
      Return (dict_set t (extend_table (extend_table tb [c]) (filter (\<lambda>c. cl_name c \<notin> set ex) cs))
        (dict_set t (extend_table tb [c]) f))"
      using Cons.prems by (intro Cons.IH) (auto simp: extend_table_def)
    then show ?thesis using False a by (simp add: extend_extend)
  next
    case True
    with Cons.prems show ?thesis by (auto intro!: Cons.IH)
  qed
qed simp

lemma migrate_one:
  assumes "dict_get f t = Some tb" "lowered (st_columns tb)" "lowered cs" "distinct (map cl_name cs)"
  shows "migrate_table f (t, cs) = Return (dict_set t (extend_table tb (missing_columns tb cs)) f)"
proof -
  have "set (column_names tb) \<inter> cl_name ` {c \<in> set cs. cl_name c \<notin> set (column_names tb)} = {}" by blast
  from add_columns [OF assms this] assms(1) show ?thesis
    by (simp add: migrate_table_def existing_columns_def missing_columns_def)
qed

abbreviation upgraded :: "sql_table \<Rightarrow> sql_column list \<Rightarrow> sql_table" where
  "upgraded tb cs \<equiv> extend_table tb (missing_columns tb cs)"

text \<open>What the migration makes of a file, table by table; where nothing is missing, nothing.\<close>

definition migrated :: "(string \<times> sql_column list) list \<Rightarrow> sql_file \<Rightarrow> sql_file \<Rightarrow> bool" where
  "migrated ts f f' \<longleftrightarrow>
     (\<forall>t. dict_get f' t = map_option (\<lambda>tb. upgraded tb (columns_for ts t)) (dict_get f t)) \<and>
     (distinct (map fst f) \<longrightarrow> distinct (map fst f')) \<and>
     ((\<forall>t cs tb. (t, cs) \<in> set ts \<and> dict_get f t = Some tb \<longrightarrow> missing_columns tb cs = []) \<longrightarrow> f' = f)"

lemma migrated_Nil: "migrated [] f f"
proof -
  have "upgraded tb (columns_for [] t) = tb" for tb t by (simp add: missing_columns_def columns_for_def)
  then show ?thesis by (simp add: migrated_def option.map_ident)
qed

lemma migrated_Cons:
  assumes "dict_get f t = Some tb" "t \<notin> fst ` set ts" "migrated ts (dict_set t (upgraded tb cs) f) f'"
  shows "migrated ((t, cs) # ts) f f'"
proof -
  let ?f = "dict_set t (upgraded tb cs) f"
  have "map_of ts t = None" using assms(2) by (rule map_of_eq_None_iff [THEN iffD2])
  then have nil: "columns_for ts t = []" by (simp add: columns_for_def)
  note d = assms(3) [unfolded migrated_def]
  note m = d [THEN conjunct1, THEN spec] d [THEN conjunct2, THEN conjunct1, THEN mp]
    d [THEN conjunct2, THEN conjunct2, THEN mp]
  have "dict_get f' u = map_option (\<lambda>tb. upgraded tb (columns_for ((t, cs) # ts) u)) (dict_get f u)" for u
  proof (cases "u = t")
    case True
    have "upgraded tb' [] = tb'" for tb' by (simp add: missing_columns_def)
    with True show ?thesis using m(1) [of t] assms(1) nil by (simp add: columns_for_def)
  next
    case False
    then show ?thesis using m(1) [of u] by (simp add: columns_for_def)
  qed
  moreover have "distinct (map fst f) \<Longrightarrow> distinct (map fst f')" by (intro m(2) distinct_dict_set)
  moreover have "f' = f"
    if q: "\<And>u ds tb. (u, ds) \<in> set ((t, cs) # ts) \<Longrightarrow> dict_get f u = Some tb \<Longrightarrow> missing_columns tb ds = []"
  proof -
    have "missing_columns tb cs = []" by (rule q [of t]) (simp_all add: assms(1))
    then have f: "?f = f" by (simp add: assms(1))
    have "f' = ?f"
    proof (intro m(3) allI impI, elim conjE)
      fix u ds tb' assume "(u, ds) \<in> set ts" "dict_get ?f u = Some tb'"
      then show "missing_columns tb' ds = []" unfolding f by (intro q [of u]) simp_all
    qed
    then show ?thesis unfolding f .
  qed
  ultimately show ?thesis unfolding migrated_def by (intro conjI allI impI) blast+
qed

lemma migrate_tables:
  assumes "distinct (map fst ts)"
    and "\<And>t cs. (t, cs) \<in> set ts \<Longrightarrow> lowered cs \<and> distinct (map cl_name cs) \<and>
      (\<exists>tb. dict_get f t = Some tb \<and> lowered (st_columns tb))"
  shows "\<exists>f'. rfold migrate_table f ts = Return f' \<and> migrated ts f f'"
  using assms
proof (induction ts arbitrary: f)
  case Nil
  then show ?case by (simp add: migrated_Nil)
next
  case (Cons x ts)
  obtain t cs where x: "x = (t, cs)" by force
  obtain tb where tb: "dict_get f t = Some tb" "lowered (st_columns tb)"
    and cs: "lowered cs" "distinct (map cl_name cs)"
    using Cons.prems(2) [of t cs] x by auto
  let ?f = "dict_set t (upgraded tb cs) f"
  have one: "migrate_table f x = Return ?f" using migrate_one [OF tb cs] x by simp
  have new: "t \<notin> fst ` set ts" using Cons.prems(1) x by simp
  have "\<exists>f'. rfold migrate_table ?f ts = Return f' \<and> migrated ts ?f f'"
  proof (rule Cons.IH)
    fix t' cs' assume "(t', cs') \<in> set ts"
    with Cons.prems(2) [of t' cs'] new
    show "lowered cs' \<and> distinct (map cl_name cs') \<and> (\<exists>tb. dict_get ?f t' = Some tb \<and> lowered (st_columns tb))"
      by (auto simp: image_iff)
  qed (use Cons.prems in simp)
  with one migrated_Cons [OF tb(1) new] x show ?case by auto
qed

subsection \<open>Opening\<close>

definition created :: "sql_file \<Rightarrow> sql_file" where
  "created f =
     dict_setdefault ''events'' \<lparr>st_columns = events_columns, st_rows = []\<rparr>
     (dict_setdefault ''orders'' \<lparr>st_columns = orders_columns, st_rows = []\<rparr>
     (dict_setdefault ''markets'' \<lparr>st_columns = markets_columns, st_rows = []\<rparr>
     (dict_setdefault ''runs'' \<lparr>st_columns = runs_columns, st_rows = []\<rparr> f)))"

lemmas schema_defs = runs_columns_def markets_columns_def orders_columns_def events_columns_def
  integer_column_def text_column_def text_default_def

lemma sql_file_ok_get: "sql_file_ok f \<Longrightarrow> dict_get f t = Some tb \<Longrightarrow> sql_table_ok t tb"
  by (auto simp: sql_file_ok_def list_all_iff dest: dict_get_SomeD)

lemma file_ok_setdefault:
  assumes "sql_file_ok f" "sql_table_ok t tb"
  shows "sql_file_ok (dict_setdefault t tb f)"
  using assms by (auto simp: sql_file_ok_def) (auto simp: dict_setdefault_def split: option.split)

lemma fresh_tables_ok:
  "sql_table_ok ''runs'' \<lparr>st_columns = runs_columns, st_rows = []\<rparr>"
  "sql_table_ok ''markets'' \<lparr>st_columns = markets_columns, st_rows = []\<rparr>"
  "sql_table_ok ''orders'' \<lparr>st_columns = orders_columns, st_rows = []\<rparr>"
  "sql_table_ok ''events'' \<lparr>st_columns = events_columns, st_rows = []\<rparr>"
  by code_simp+

lemma indexed: "indexed_columns ''markets'' = [''condition_id'', ''end_ts'']"
  "indexed_columns ''orders'' = [''slug'', ''status'']"
  by code_simp+

lemma created_ok: "sql_file_ok f \<Longrightarrow> sql_file_ok (created f)"
  unfolding created_def by (intro file_ok_setdefault fresh_tables_ok)

lemma dict_setdefault_known: "dict_get d k = Some v \<Longrightarrow> dict_setdefault k w d = d"
  by (simp add: dict_setdefault_def dict_get_def)

lemma create_index:
  assumes "sql_file_ok f" "dict_get f t = Some tb" "c \<in> set (indexed_columns t)"
  shows "exec_statement f (CreateIndex t c) = Return f"
  using sql_file_ok_get [OF assms(1,2)] assms by (auto simp: sql_table_ok_def list_all_iff)

lemma script_creates:
  assumes "sql_file_ok f"
  shows "rfold exec_statement f schema_script = Return (created f)"
proof -
  let ?t = "\<lambda>cs. \<lparr>st_columns = cs, st_rows = []\<rparr>"
  let ?r = "dict_setdefault ''runs'' (?t runs_columns) f"
  let ?m = "dict_setdefault ''markets'' (?t markets_columns) ?r"
  let ?o = "dict_setdefault ''orders'' (?t orders_columns) ?m"
  have m: "sql_file_ok ?m" and o: "sql_file_ok ?o" by (intro file_ok_setdefault fresh_tables_ok assms)+
  obtain mt where mt: "dict_get ?m ''markets'' = Some mt" by simp
  then have mo: "dict_get ?o ''markets'' = Some mt" by simp
  obtain ot where ot: "dict_get ?o ''orders'' = Some ot" by simp
  have "exec_statement ?m (CreateIndex ''markets'' ''condition_id'') = Return ?m"
    "exec_statement ?o (CreateIndex ''orders'' ''slug'') = Return ?o"
    "exec_statement ?o (CreateIndex ''orders'' ''status'') = Return ?o"
    "exec_statement ?o (CreateIndex ''markets'' ''end_ts'') = Return ?o"
    using create_index [OF m mt] create_index [OF o ot] create_index [OF o mo] by (simp_all add: indexed del: exec_statement.simps)
  then show ?thesis
    by (simp add: schema_script_def created_def exec_statement.simps(1) del: exec_statement.simps(2))
qed

lemma required_ok:
  "(t, cs) \<in> set required_columns \<Longrightarrow> lowered cs \<and> distinct (map cl_name cs)"
  "distinct (map fst required_columns)" "set (map fst required_columns) = {''runs'', ''markets'', ''orders''}"
  by (auto simp: required_columns_def text_default_def lower_def lower_char_def)

lemma created_has: "t \<in> {''runs'', ''markets'', ''orders'', ''events''} \<Longrightarrow> dict_get (created f) t \<noteq> None"
  by (auto simp: created_def)

lemma open_result:
  assumes "sql_file_ok f"
  shows "\<exists>f'. open_database f = Return f' \<and> migrated required_columns (created f) f'"
proof -
  have ok: "sql_file_ok (created f)" by (rule created_ok [OF assms])
  have "lowered cs \<and> distinct (map cl_name cs) \<and>
      (\<exists>tb. dict_get (created f) t = Some tb \<and> lowered (st_columns tb))"
    if "(t, cs) \<in> set required_columns" for t cs
  proof -
    have "t \<in> set (map fst required_columns)" using that by force
    then obtain tb where "dict_get (created f) t = Some tb" using created_has [of t f] required_ok(3) by auto
    then show ?thesis using required_ok(1) [OF that] sql_file_ok_get [OF ok] by (auto simp: sql_table_ok_def)
  qed
  from migrate_tables [OF required_ok(2) this] show ?thesis
    by (simp add: open_database_def script_creates [OF assms] migrate_schema_def)
qed

lemma table_ok_extend:
  assumes "sql_table_ok t tb" "lowered cs" "distinct (map cl_name cs)"
  shows "sql_table_ok t (extend_table tb (missing_columns tb cs))"
proof -
  have "lowered (missing_columns tb cs)" using assms(2) by (simp add: missing_columns_def lowered_filter)
  moreover have "distinct (map cl_name (missing_columns tb cs))"
    using assms(3) by (simp add: missing_columns_def distinct_map_filter)
  moreover have "n \<notin> set (column_names tb)" if "n \<in> set (map cl_name (missing_columns tb cs))" for n
    using that by (auto simp: missing_columns_def)
  then have "distinct (column_names tb @ map cl_name (missing_columns tb cs)) \<longleftrightarrow>
      distinct (column_names tb) \<and> distinct (map cl_name (missing_columns tb cs))"
    unfolding distinct_append by blast
  ultimately show ?thesis using assms(1)
    by (auto simp: sql_table_ok_def extend_table_def has_column_def list_all_iff comp_def)
qed

lemma extended_row:
  assumes "map fst r = column_names tb"
  shows "dict_get (r @ map (\<lambda>c. (cl_name c, default_cell c)) (missing_columns tb cs)) name =
    (case dict_get r name of Some v \<Rightarrow> Some v | None \<Rightarrow> map_option default_cell (find (\<lambda>c. cl_name c = name) cs))"
proof (cases "dict_get r name")
  case None
  then have "name \<notin> set (column_names tb)" using assms by (metis dict_get_None_iff list.set_map)
  then have "map_of (map (\<lambda>c. (cl_name c, default_cell c)) (missing_columns tb cs)) name =
      map_option default_cell (find (\<lambda>c. cl_name c = name) cs)"
    by (induction cs) (auto simp: missing_columns_def)
  then show ?thesis using None by (simp add: dict_get_def map_add_def)
next
  case (Some v)
  then show ?thesis by (simp add: dict_get_def map_add_def)
qed

lemma required_of_ok: "lowered (required_of t)" "distinct (map cl_name (required_of t))"
  using required_ok(1) by (auto simp: required_of_def columns_for_def dest: map_of_SomeD split: option.split)

lemma opened_ok:
  assumes "sql_file_ok g" "distinct (map fst f')"
    and "\<And>t. dict_get f' t = map_option (\<lambda>tb. upgraded tb (required_of t)) (dict_get g t)"
  shows "sql_file_ok f'"
proof -
  have "sql_table_ok t tb" if "(t, tb) \<in> set f'" for t tb
  proof -
    have "dict_get f' t = Some tb" using assms(2) that by (rule dict_get_in)
    then obtain tb0 where "dict_get g t = Some tb0" "tb = extend_table tb0 (missing_columns tb0 (required_of t))"
      using assms(3) [of t] by auto
    then show ?thesis using table_ok_extend required_of_ok sql_file_ok_get [OF assms(1)] by blast
  qed
  then show ?thesis using assms(2) by (auto simp: sql_file_ok_def list_all_iff)
qed

lemma required_of_in: "(t, cs) \<in> set required_columns \<Longrightarrow> required_of t = cs"
proof -
  assume "(t, cs) \<in> set required_columns"
  then have "map_of required_columns t = Some cs" by (rule map_of_is_SomeI [OF required_ok(2)])
  then show ?thesis by (simp only: required_of_def columns_for_def option.case)
qed

lemma missing_extend: "missing_columns (extend_table tb (missing_columns tb cs)) cs = []"
proof -
  have "c \<in> set cs \<Longrightarrow> cl_name c \<in> set (column_names tb) \<or> c \<in> set (missing_columns tb cs)" for c
    by (simp add: missing_columns_def)
  then have "c \<in> set cs \<Longrightarrow> cl_name c \<in> set (column_names (extend_table tb (missing_columns tb cs)))" for c
    by (fastforce simp: extend_table_def)
  then show ?thesis by (simp only: missing_columns_def [of "extend_table tb (missing_columns tb cs)"] filter_empty_conv) blast
qed

lemma created_known:
  assumes "\<And>t. t \<in> {''runs'', ''markets'', ''orders'', ''events''} \<Longrightarrow> dict_get f t \<noteq> None"
  shows "created f = f"
proof -
  have "dict_setdefault t tb f = f" if "t \<in> {''runs'', ''markets'', ''orders'', ''events''}" for t tb
    using assms [OF that] dict_setdefault_known by fastforce
  then show ?thesis by (simp add: created_def)
qed

lemma setdefault_keeps: "dict_get f k = Some v \<Longrightarrow> dict_get (dict_setdefault k' w f) k = Some v"
  by (cases "k = k'") simp_all

lemma created_keeps: "dict_get f t = Some tb \<Longrightarrow> dict_get (created f) t = Some tb"
  unfolding created_def by (intro setdefault_keeps)

text \<open>
  The tables and columns of the script, and those of its columns that earlier versions of the
  bot did not create: a file of an earlier version may lack these columns, and any of the tables.
\<close>

definition script_tables :: "(string \<times> sql_column list) list" where
  "script_tables =
     List.map_filter (\<lambda>st. case st of CreateTable t cs \<Rightarrow> Some (t, cs) | _ \<Rightarrow> None) schema_script"

definition later_columns :: "(string \<times> string) list" where
  "later_columns =
     [(''runs'', ''plan_json''), (''markets'', ''min_size''), (''markets'', ''tick_size''),
      (''orders'', ''side''), (''orders'', ''role''), (''orders'', ''account'')]"

definition earlier_version :: "sql_file \<Rightarrow> bool" where
  "earlier_version f \<longleftrightarrow> sql_file_ok f \<and>
     list_all (\<lambda>(t, cs). case dict_get f t of None \<Rightarrow> True
       | Some tb \<Rightarrow> list_all (\<lambda>c. cl_name c \<in> set (column_names tb) \<or> (t, cl_name c) \<in> set later_columns) cs)
       script_tables"

lemma script_tables_eq:
  "script_tables = [(''runs'', runs_columns), (''markets'', markets_columns),
     (''orders'', orders_columns), (''events'', events_columns)]"
  by (simp add: script_tables_def schema_script_def List.map_filter_def)

lemma created_get:
  "dict_get (created f) t =
     (case dict_get f t of Some tb \<Rightarrow> Some tb
      | None \<Rightarrow> map_option (\<lambda>cs. \<lparr>st_columns = cs, st_rows = []\<rparr>) (map_of script_tables t))"
  by (auto simp: created_def script_tables_eq split: option.split)

text \<open>The migration knows every later column, as the script has it, and no other.\<close>

lemma required_later:
  "find (\<lambda>c. cl_name c = name) (required_of t) =
     (if (t, name) \<in> set later_columns then find (\<lambda>c. cl_name c = name) (columns_for script_tables t) else None)"
proof -
  have "t \<in> {''runs'', ''markets'', ''orders''} \<or> required_of t = [] \<and> (t, name) \<notin> set later_columns"
    by (auto simp: required_of_def columns_for_def required_columns_def later_columns_def)
  moreover have ?thesis if "t \<in> {''runs'', ''markets'', ''orders''}"
    using that
    by (auto simp: required_of_def columns_for_def required_columns_def later_columns_def script_tables_eq
        runs_columns_def markets_columns_def orders_columns_def text_default_def text_column_def
        integer_column_def)
  ultimately show ?thesis by auto
qed

lemma script_column_there:
  assumes "earlier_version f" "(t, cs) \<in> set script_tables" "c \<in> set cs" "dict_get (created f) t = Some tb"
  shows "cl_name c \<in> set (column_names (upgraded tb (required_of t)))"
proof -
  have dist: "distinct (map fst script_tables)" by (simp add: script_tables_eq)
  have cs: "map_of script_tables t = Some cs" by (rule map_of_is_SomeI [OF dist assms(2)])
  have "cl_name c \<in> set (column_names tb) \<or> (t, cl_name c) \<in> set later_columns"
  proof (cases "dict_get f t")
    case None
    then show ?thesis using assms(3,4) cs by (auto simp: created_get)
  next
    case (Some tb')
    have "case dict_get f t of None \<Rightarrow> True | Some tb \<Rightarrow>
        list_all (\<lambda>c. cl_name c \<in> set (column_names tb) \<or> (t, cl_name c) \<in> set later_columns) cs"
      using assms(1,2) by (auto simp: earlier_version_def list_all_iff simp del: set_map list.set_map)
    then show ?thesis using assms(3,4) Some by (simp add: list_all_iff created_get)
  qed
  moreover have "cl_name c \<in> cl_name ` set (required_of t)" if "(t, cl_name c) \<in> set later_columns"
  proof -
    have "find (\<lambda>d. cl_name d = cl_name c) cs \<noteq> None" using assms(3) by (auto simp: find_None_iff)
    then have "find (\<lambda>d. cl_name d = cl_name c) (required_of t) \<noteq> None"
      using that by (simp add: required_later columns_for_def cs)
    then obtain d where d: "d \<in> set (required_of t)" "cl_name d = cl_name c" by (auto simp: find_None_iff)
    show ?thesis unfolding d(2) [symmetric] using d(1) by (rule imageI)
  qed
  ultimately have "cl_name c \<in> set (column_names tb) \<or> cl_name c \<in> cl_name ` set (required_of t)" by blast
  then show ?thesis by (auto simp: extend_table_def missing_columns_def)
qed

text \<open>
  C28. A database file of an earlier version opens: whichever of the later columns and of the
  tables it lacks, every column of the script is there afterwards. Every cell that was there reads as
  before, a cell of a new column reads as the default the script declares for it, and opening the
  file again changes nothing.
\<close>

theorem old_file_opens:
  assumes "earlier_version f"
  shows "\<exists>f'. open_database f = Return f' \<and> open_database f' = Return f' \<and> sql_file_ok f' \<and>
    list_all (\<lambda>(t, cs). case dict_get f' t of None \<Rightarrow> False
      | Some tb \<Rightarrow> list_all (\<lambda>c. cl_name c \<in> set (column_names tb)) cs) script_tables \<and>
    (\<forall>t tb. dict_get f t = Some tb \<longrightarrow> (\<exists>tb'. dict_get f' t = Some tb' \<and>
      list_all2 (\<lambda>r r'. \<forall>name. dict_get r' name = (case dict_get r name of Some v \<Rightarrow> Some v
          | None \<Rightarrow> map_option default_cell (find (\<lambda>c. cl_name c = name) (columns_for script_tables t))))
        (st_rows tb) (st_rows tb')))"
proof -
  have ok0: "sql_file_ok f" using assms by (simp add: earlier_version_def)
  obtain f' where o: "open_database f = Return f'" and m: "migrated required_columns (created f) f'"
    using open_result [OF ok0] by blast
  have f': "distinct (map fst f')"
    "\<And>t. dict_get f' t = map_option (\<lambda>tb. upgraded tb (required_of t)) (dict_get (created f) t)"
    using m created_ok [OF ok0] by (auto simp: migrated_def required_of_def sql_file_ok_def)
  have ok: "sql_file_ok f'" by (rule opened_ok [OF created_ok [OF ok0] f'])
  have there: "\<exists>tb. dict_get f' t = Some tb" if "t \<in> {''runs'', ''markets'', ''orders'', ''events''}" for t
    using f'(2) [of t] created_has [OF that, of f] by auto
  then have known: "created f' = f'" by (intro created_known) auto
  have none: "missing_columns tb cs = []" if "(t, cs) \<in> set required_columns" "dict_get f' t = Some tb" for t cs tb
    using f'(2) [of t, symmetric] that(2) missing_extend unfolding required_of_in [OF that(1), symmetric]
    by auto
  obtain f'' where f'': "open_database f' = Return f''" "migrated required_columns f' f''"
    using open_result [OF ok] unfolding known by blast
  have "f'' = f'" using f''(2) none unfolding migrated_def by blast
  then have again: "open_database f' = Return f'" using f''(1) by simp
  have columns: "case dict_get f' t of None \<Rightarrow> False | Some tb \<Rightarrow> list_all (\<lambda>c. cl_name c \<in> set (column_names tb)) cs"
    if ts: "(t, cs) \<in> set script_tables" for t cs
  proof -
    obtain tb where "dict_get (created f) t = Some tb"
      using ts created_has [of t f] by (auto simp: script_tables_eq)
    then show ?thesis using script_column_there [OF assms ts] f'(2) [of t] by (simp add: list_all_iff)
  qed
  have cells: "\<exists>tb'. dict_get f' t = Some tb' \<and> list_all2 (\<lambda>r r'. \<forall>name. dict_get r' name =
        (case dict_get r name of Some v \<Rightarrow> Some v
          | None \<Rightarrow> map_option default_cell (find (\<lambda>c. cl_name c = name) (columns_for script_tables t))))
        (st_rows tb) (st_rows tb')" if tb: "dict_get f t = Some tb" for t tb
  proof -
    have row: "map fst r = column_names tb" if "r \<in> set (st_rows tb)" for r
      using sql_file_ok_get [OF ok0 tb] that by (auto simp: sql_table_ok_def list_all_iff)
    have later: "find (\<lambda>c. cl_name c = name) (required_of t) = find (\<lambda>c. cl_name c = name) (columns_for script_tables t)"
      if "name \<notin> set (column_names tb)" for name
    proof (cases "(t, name) \<in> set later_columns")
      case False
      have "find (\<lambda>c. cl_name c = name) (columns_for script_tables t) = None"
      proof (cases "map_of script_tables t")
        case (Some cs)
        then have "\<forall>c \<in> set cs. cl_name c \<in> set (column_names tb) \<or> (t, cl_name c) \<in> set later_columns"
          using assms tb by (fastforce simp: earlier_version_def list_all_iff dest: map_of_SomeD)
        then show ?thesis using that False Some by (auto simp: find_None_iff columns_for_def)
      qed (simp add: columns_for_def)
      then show ?thesis by (simp add: required_later)
    qed (simp add: required_later)
    have "dict_get r name = None \<Longrightarrow> name \<notin> set (column_names tb)" if "r \<in> set (st_rows tb)" for r name
      using row [OF that] by (metis dict_get_None_iff list.set_map)
    then have "dict_get (r @ map (\<lambda>c. (cl_name c, default_cell c)) (missing_columns tb (required_of t))) name =
        (case dict_get r name of Some v \<Rightarrow> Some v
          | None \<Rightarrow> map_option default_cell (find (\<lambda>c. cl_name c = name) (columns_for script_tables t)))"
      if "r \<in> set (st_rows tb)" for r name
      using that by (simp add: extended_row [OF row [OF that]] later split: option.split)
    then show ?thesis using f'(2) [of t] created_keeps [OF tb]
      by (simp add: extend_table_def list_all2_map2 list.rel_refl_strong)
  qed
  show ?thesis
  proof (intro exI [of _ f'] conjI allI impI)
    show "list_all (\<lambda>(t, cs). case dict_get f' t of None \<Rightarrow> False
      | Some tb \<Rightarrow> list_all (\<lambda>c. cl_name c \<in> set (column_names tb)) cs) script_tables"
      unfolding list_all_iff [of _ script_tables] using columns by blast
  qed (use o again ok cells in blast)+
qed

definition old_order :: "(string, sql_cell) dict" where
  "old_order =
     [(''order_id'', SqlText ''0x1''), (''run_id'', SqlInt 1), (''slug'', SqlText ''m''),
      (''outcome'', SqlText ''up''), (''token_id'', SqlText ''111''), (''price'', SqlText ''0.01''),
      (''size'', SqlText ''100''), (''matched_size'', SqlText ''0''), (''status'', SqlText ''live''),
      (''raw_json'', SqlText ''{}''), (''created_ts'', SqlInt 1), (''updated_ts'', SqlInt 1)]"

definition old_file :: sql_file where
  "old_file = [(''orders'',
     \<lparr>st_columns = filter (\<lambda>c. cl_name c \<notin> {''side'', ''role'', ''account''}) orders_columns,
      st_rows = [old_order]\<rparr>)]"

theorem old_file_opens_witness:
  "\<exists>f' tb r. open_database old_file = Return f' \<and> dict_get f' ''orders'' = Some tb \<and> st_rows tb = [r] \<and>
     map (dict_get r) [''side'', ''role'', ''account'', ''status''] =
       [Some (SqlText ''buy''), Some (SqlText ''entry''), Some (SqlText []), Some (SqlText ''live'')]"
proof -
  have ok: "earlier_version old_file" by code_simp
  obtain tb where tb: "dict_get old_file ''orders'' = Some tb" "st_rows tb = [old_order]"
    by (simp add: old_file_def dict_get_def)
  from old_file_opens [OF ok] obtain f' where f': "open_database old_file = Return f'" and
    all: "\<forall>t tb. dict_get old_file t = Some tb \<longrightarrow> (\<exists>tb'. dict_get f' t = Some tb' \<and>
      list_all2 (\<lambda>r r'. \<forall>name. dict_get r' name = (case dict_get r name of Some v \<Rightarrow> Some v
          | None \<Rightarrow> map_option default_cell (find (\<lambda>c. cl_name c = name) (columns_for script_tables t))))
        (st_rows tb) (st_rows tb'))" by (elim exE conjE) rule
  from all [rule_format, OF tb(1)] obtain tb' where tb': "dict_get f' ''orders'' = Some tb'" and
    rows: "list_all2 (\<lambda>r r'. \<forall>name. dict_get r' name = (case dict_get r name of Some v \<Rightarrow> Some v
          | None \<Rightarrow> map_option default_cell (find (\<lambda>c. cl_name c = name) (columns_for script_tables ''orders''))))
        [old_order] (st_rows tb')" unfolding tb(2) by (elim exE conjE) rule
  obtain r where r: "st_rows tb' = [r]" and
    cells: "\<And>name. dict_get r name = (case dict_get old_order name of Some v \<Rightarrow> Some v
          | None \<Rightarrow> map_option default_cell (find (\<lambda>c. cl_name c = name) (columns_for script_tables ''orders'')))"
    using rows unfolding list_all2_Cons1 list_all2_Nil by (elim exE conjE) (simp only:)
  have "map (dict_get r) [''side'', ''role'', ''account'', ''status''] =
       [Some (SqlText ''buy''), Some (SqlText ''entry''), Some (SqlText []), Some (SqlText ''live'')]"
    unfolding list.map cells
    by (simp add: old_order_def dict_get_def columns_for_def script_tables_eq orders_columns_def
        text_default_def text_column_def integer_column_def default_cell_def)
  with f' tb' r show ?thesis by - (intro exI conjI; assumption)
qed

end
