(* ===== verification/Dry_Run.thy ===== *)
theory Dry_Run
  imports Service
begin

text \<open>
  What a dry run does, from the loop of \<open>BotService\<close> down to the rows: it places simulated
  orders under the guards of a live run and closes what is tracked when a market or the session
  ends. The interface \<open>dry_law\<close> says what a property must ask of the writes a dry run makes for
  every tick and the shutdown to keep it. It is interpreted twice: for the cap on the reserve,
  and for a real order of an earlier live run that is still on record.
\<close>

subsection \<open>Properties a dry run keeps\<close>

definition dry_service :: "service \<Rightarrow> bool" where
  "dry_service s \<longleftrightarrow> \<not> sc_live (sv_config s) \<and> sv_backend s = DryRun"

definition close_expired :: "world \<Rightarrow> unit svc" where
  "close_expired w =
     sbind sget (\<lambda>s. sfor (close_simulated w)
       (filter (\<lambda>t. o_status (fst t) = ''simulated'') (tracked_open_orders (sv_db s))))"

lemma snd_then_return [simp]: "snd (sthen m (sreturn x) s) = snd (m s)"
  by (simp add: sthen_def sbind_def split: prod.split sum.split)

lemma then_when_False [simp]: "sthen (swhen False m) n = n"
  by (simp add: swhen_def)

locale dry_law =
  fixes L :: "service \<Rightarrow> bool"
  assumes dry: "L s \<Longrightarrow> dry_service s"
    and logged: "L s \<Longrightarrow> L (s\<lparr>sv_db := log_event who level type slg now (sv_db s)\<rparr>)"
    and market_state: "L s \<Longrightarrow> L (s\<lparr>sv_db := set_market_state slug state error now (sv_db s)\<rparr>)"
    and stopped: "L s \<Longrightarrow> L (s\<lparr>sv_db := stop_run rid status error now (sv_db s)\<rparr>)"
    and prepared: "L s \<Longrightarrow> prepare_market rid m state now (sv_db s) = Return db \<Longrightarrow> L (s\<lparr>sv_db := db\<rparr>)"
    and closed: "L s \<Longrightarrow> L (s\<lparr>sv_db := mark_orders ids ''simulated_closed'' now (sv_db s)\<rparr>)"
    and expired: "L s \<Longrightarrow> L (snd (close_expired w s))"
    and placed: "L s \<Longrightarrow> \<not> over_caps w s \<Longrightarrow> L (snd (enter_market w m details retry until s))"
    and retries: "L s \<Longrightarrow> L (s\<lparr>sv_placement_retries := r\<rparr>)"
    and queue: "L s \<Longrightarrow> L (s\<lparr>sv_activation_updates := us\<rparr>)"
    and wake: "L s \<Longrightarrow> L (s\<lparr>sv_wake := b\<rparr>)"
    and reconciled: "L s \<Longrightarrow> L (s\<lparr>sv_last_reconcile := t\<rparr>)"
    and discovery: "L s \<Longrightarrow> L (s\<lparr>sv_last_discovery := t\<rparr>)"
begin

lemma no_exchange: "L s \<Longrightarrow> \<not> has_exchange s" and not_live: "L s \<Longrightarrow> \<not> sc_live (sv_config s)"
  using dry by (auto simp: dry_service_def has_exchange_def)

lemma keeps_event: "keeps L (event w level type slug)"
  by (rule keepsI) (simp add: event_run logged)

lemma keeps_state: "keeps L (db_do (set_market_state slug state error now))"
  by (rule keeps_db_do) (rule market_state)

lemma keeps_pop: "keeps L (pop_retry slug)"
  by (simp add: pop_retry_def keeps_modify retries)

lemma keeps_prepare: "keeps L (db_try (prepare_market rid m state now))"
  by (rule keeps_db_try) (rule prepared)

lemmas dry_intros = keeps_event keeps_state keeps_pop keeps_prepare keeps_intros

lemma keeps_skip: "keeps L (skip_market w m reason)"
  by (auto simp: skip_market_def prepare_row_def intro!: dry_intros)

lemma keeps_expired: "keeps L (drop_expired_retry w m)"
  by (auto simp: drop_expired_retry_def intro!: dry_intros split: option.splits)

text \<open>A market is entered in the state in which the caps were checked.\<close>

lemma keeps_consider: "keeps L (consider_market w m now_ts trigger ready details)"
proof (rule keepsI)
  fix s assume s: "L s"
  have books: "check_books w m ready s = (Return True, s)"
    using no_exchange [OF s] by (simp add: check_books_def)
  have place: "L (snd (sthen (place w m trigger details) (sreturn True) s))" if "\<not> over_caps w s"
    using placed [OF s that] not_live [OF s]
    by (simp add: place_def Let_def)
  show "L (snd (consider_market w m now_ts trigger ready details s))"
    using s place keepsD [OF keeps_then [OF keeps_expired keeps_return], of s w m True]
      keepsD [OF keeps_then [OF keeps_skip keeps_return], of s w m _ True]
    by (simp add: consider_market_def sbind_def [of "check_books w m ready"] books split: sum.split)
qed

lemma keeps_placing:
  "keeps L (place_activated_markets now_ts ws)" "keeps L (discover_and_place w ws)"
  by (auto simp: place_activated_markets_def discover_and_place_def
      intro!: dry_intros keeps_consider keeps_modify queue split: sum.splits)

lemma keeps_cancel_due: "keeps L (cancel_due_orders w)"
  unfolding cancel_due_orders_def Let_def
  by (rule keeps_get_bind) (simp add: no_exchange closed db_do_def smodify_def)

lemma keeps_cancel_tracked: "keeps L (cancel_tracked_orders w)"
  unfolding cancel_tracked_orders_def Let_def
  by (rule keeps_get_bind) (simp add: no_exchange closed db_do_def smodify_def)

lemma keeps_exits: "keeps L (exits_if w changed)"
  unfolding exits_if_def by (rule keeps_get_bind) (simp add: no_exchange)

lemma keeps_reconcile: "keeps L (reconcile w)"
proof (rule keepsI)
  fix s assume s: "L s"
  have "keeps L (close_expired w)" by (rule keepsI) (rule expired)
  from keepsD [OF keeps_then [OF this keeps_exits] s]
  have "L (snd (sthen (close_expired w) (exits_if w True) s))" .
  moreover have "reconcile w s = sthen (close_expired w) (exits_if w True) s"
    using no_exchange [OF s] by (simp add: reconcile_def close_expired_def)
  ultimately show "L (snd (reconcile w s))" by simp
qed

lemma keeps_poll: "keeps L (poll_orders t recovered)"
  unfolding poll_orders_def set_last_reconcile_def
proof (rule keeps_get_bind)
  fix s assume s: "L s"
  let ?m = "sthen (reconcile (tk_follow t)) (sthen (smodify (\<lambda>s. s\<lparr>sv_last_reconcile := tk_now t\<rparr>))
    (sreturn (tk_recon_worker t)))"
  have "keeps L ?m" by (intro keeps_then keeps_reconcile keeps_modify keeps_return reconciled)
  from keepsD [OF this s] show "L (snd ((if \<not> (recovered \<or> sc_order_poll_seconds (sv_config s) \<le> tk_now t - sv_last_reconcile s)
      then sreturn (tk_recon_worker t)
      else if has_exchange s then
        (case submit (batch (tracked_open_orders (sv_db s))) (tk_recon_worker t) of (taken, worker) \<Rightarrow>
          sthen (swhen taken (smodify (\<lambda>s. s\<lparr>sv_last_reconcile := tk_now t\<rparr>))) (sreturn worker))
      else ?m) s))"
    using s no_exchange [OF s] by simp
qed

lemma keeps_follow: "keeps L (follow_orders t)"
proof (rule keepsI)
  fix s assume s: "L s"
  have "keeps L (sthen (drain_geoblock_updates w us) (sthen (cancel_due_orders w) (poll_orders t b)))" for w us b
    by (intro keeps_then keeps_cancel_due keeps_poll)
      (simp add: drain_geoblock_updates_def keeps_get_bind no_exchange)
  from keepsD [OF this s] show "L (snd (follow_orders t s))"
    using no_exchange [OF s] not_live [OF s] by (simp add: follow_orders_def)
qed

lemma keeps_drain_activation: "keeps L (drain_market_activation_updates w us)"
  unfolding drain_market_activation_updates_def
  by (rule keeps_get_bind) (simp add: activation_probe_def not_live)

lemma keeps_entries: "keeps L (place_entries t)"
  by (auto simp: place_entries_def intro!: dry_intros keeps_placing keeps_modify discovery)

lemma keeps_tick: "keeps L (tick t)"
  by (auto simp: tick_def intro!: keeps_drain_activation keeps_follow keeps_entries keeps_intros)

lemma keeps_failure: "keeps L (record_failure w e)"
  by (auto simp: record_failure_def intro!: dry_intros keeps_db_do stopped)

lemma keeps_loop: "run_loop ts s = Some (r, s') \<Longrightarrow> L s \<Longrightarrow> L s'"
proof (induction ts arbitrary: s)
  case (Cons t ts)
  have "L (snd (tick t (s\<lparr>sv_wake := False\<rparr>)))" by (rule keepsD [OF keeps_tick wake [OF Cons.prems(2)]])
  with Cons show ?case by (auto split: prod.splits sum.splits if_splits)
qed simp

lemma keeps_ticks: "L s \<Longrightarrow> L (fold (\<lambda>t s. snd (tick t (s\<lparr>sv_wake := False\<rparr>))) ts s)"
  by (induction ts arbitrary: s) (simp_all add: keepsD [OF keeps_tick wake])

end

subsection \<open>The reserve and its cap\<close>

definition reserving :: "bot_db \<Rightarrow> order_row list" where
  "reserving db = filter reserves (db_orders db)"

text \<open>The reserve is at most \<open>b\<close>, and its amounts stand on a grid on which sums are exact.\<close>

definition reserve_fits :: "rat \<Rightarrow> bot_db \<Rightarrow> bool" where
  "reserve_fits b db \<longleftrightarrow>
     list_all (\<lambda>r. on_grid 12 (reserve_of r) \<and> 0 \<le> reserve_of r) (reserving db) \<and>
     sum_list (map reserve_of (reserving db)) \<le> b"

lemma reserve_fits_active:
  assumes "reserve_fits b db" "b < 10 ^ 15"
  shows "active_reserved_usd db = sum_list (map reserve_of (reserving db))" "active_reserved_usd db \<le> b"
proof -
  have "(10 :: rat) ^ 15 \<le> 10 ^ 16" by simp
  with assms have "sum_list (map reserve_of (reserving db)) < 10 ^ (28 - 12)"
    by (simp add: reserve_fits_def)
  then show e: "active_reserved_usd db = sum_list (map reserve_of (reserving db))"
    using assms(1) unfolding active_reserved_alt reserving_def [symmetric]
    by (intro dsum_grid [where k = 12]) (auto simp: reserve_fits_def list_all_iff)
  then show "active_reserved_usd db \<le> b" using assms(1) by (simp add: reserve_fits_def)
qed

lemma reserve_fits_start:
  assumes "active_reserved_usd db \<le> b" "b < 10 ^ 15"
    and "list_all (\<lambda>r. on_grid 12 (reserve_of r) \<and> 0 \<le> reserve_of r) (reserving db)"
  shows "reserve_fits b db"
proof -
  have "dsum (map reserve_of (reserving db)) < 10 ^ (27 - 12)"
    using assms(1,2) by (simp add: active_reserved_alt reserving_def)
  then have "dsum (map reserve_of (reserving db)) = sum_list (map reserve_of (reserving db))"
    using assms(3) by (intro dsum_grid_le [where k = 12]) (auto simp: list_all_iff)
  then show ?thesis using assms by (simp add: reserve_fits_def active_reserved_alt reserving_def)
qed

lemma reserve_fits_frame: "db_orders db' = db_orders db \<Longrightarrow> reserve_fits b db' = reserve_fits b db"
  by (simp add: reserve_fits_def reserving_def)

lemma reserve_fits_mono: "reserve_fits a db \<Longrightarrow> a \<le> b \<Longrightarrow> reserve_fits b db"
  by (auto simp: reserve_fits_def)

lemma reserve_fits_sub:
  assumes "reserve_fits b db"
    and "db_orders db' = map f (filter P (db_orders db))" "\<And>r. f r = r \<or> \<not> reserves (f r)"
  shows "reserve_fits b db'"
proof -
  have "list_all G (filter reserves (map f (filter P rs))) \<and>
      sum_list (map reserve_of (filter reserves (map f (filter P rs)))) \<le> sum_list (map reserve_of (filter reserves rs))"
    if "list_all G (filter reserves rs)" "\<And>r. G r \<Longrightarrow> 0 \<le> reserve_of r" for rs G
    using that
  proof (induction rs)
    case (Cons r rs)
    then show ?case using assms(3) [of r] by (cases "f r = r") (auto intro: add_increasing)
  qed simp
  from this [of "\<lambda>r. on_grid 12 (reserve_of r) \<and> 0 \<le> reserve_of r" "db_orders db"]
  show ?thesis using assms(1) by (auto simp: reserve_fits_def reserving_def assms(2))
qed

lemma reserve_fits_mark:
  assumes "reserve_fits b db" "status \<notin> set tracked_states"
  shows "reserve_fits b (mark_orders ids status now db)"
proof (cases "ids = []")
  case False
  show ?thesis
    by (rule reserve_fits_sub [OF assms(1), where P = "\<lambda>_. True" and
          f = "\<lambda>r. if o_order_id r \<in> set ids then r\<lparr>o_status := status, o_updated_ts := now\<rparr> else r"])
      (use False assms(2) in \<open>auto simp: mark_orders_def reserves_def\<close>)
qed (simp add: mark_orders_def assms)

lemma reserve_fits_update:
  assumes "reserve_fits b db" "status \<notin> set tracked_states"
  shows "reserve_fits b (update_order oid status matched raw now db)"
  by (rule reserve_fits_sub [OF assms(1), where P = "\<lambda>_. True" and f = "\<lambda>r. if o_order_id r = oid
        then r\<lparr>o_status := status, o_matched_size := matched, o_raw := raw, o_updated_ts := now\<rparr> else r"])
    (use assms(2) in \<open>auto simp: update_order_def table_update_def reserves_def\<close>)

lemma reserve_fits_add:
  assumes "reserve_fits b db" "add_order rid slug p now db = Return db'"
    and "on_grid 12 x" "0 \<le> x" "reserve_of (order_row_of rid slug p now) = x"
  shows "reserve_fits (b + x) db'"
proof -
  let ?r = "order_row_of rid slug p now" and ?db = "db\<lparr>db_orders := filter (\<lambda>r. o_order_id r \<noteq> po_order_id p) (db_orders db)\<rparr>"
  have "reserve_fits b ?db"
    by (rule reserve_fits_sub [OF assms(1), where f = id and P = "\<lambda>r. o_order_id r \<noteq> po_order_id p"]) simp_all
  moreover have "db_orders db' = db_orders ?db @ [?r]"
    using assms(2) by (auto simp: add_order_def table_replace_def split: if_splits)
  ultimately show ?thesis using assms(3-5)
    by (cases "reserves ?r") (auto simp: reserve_fits_def reserving_def)
qed

text \<open>A configuration with a cap that covers a market, and a plan that spends its stake exactly.\<close>

definition exact_cap :: "rat \<Rightarrow> service_config \<Rightarrow> bool" where
  "exact_cap cap c \<longleftrightarrow>
     (let p = sc_plan c; u = usd_per_side p in
      sc_max_reserved_usd c = Some cap \<and> cap < 10 ^ 15 \<and> 0 \<le> u \<and> 2 * u \<le> cap \<and> on_grid 12 u \<and>
      0 \<le> order_size p \<and> dmul (buy_price p) (order_size p) = u)"

definition within_cap :: "rat \<Rightarrow> service \<Rightarrow> bool" where
  "within_cap cap s \<longleftrightarrow> dry_service s \<and> exact_cap cap (sv_config s) \<and> reserve_fits cap (sv_db s)"

lemma dry_reserve:
  assumes "0 \<le> order_size p"
  shows "reserve_of (order_row_of rid slug (dry_order p m leg) now) = dmul (buy_price p) (order_size p)"
proof -
  have "dround (order_size p) = order_size p" by (simp add: order_size_def ddiv_def)
  then show ?thesis using assms
    by (simp add: reserve_of_def open_remainder_def order_row_of_def dry_order_def dsub_def)
qed

lemma record_dry:
  assumes "exact_cap cap (sv_config s)" "reserve_fits b (sv_db s)"
  shows "reserve_fits (b + of_nat (length legs) * usd_per_side (plan_of s))
      (sv_db (snd (record_orders w m (map (dry_order (plan_of s) mk) legs) s)))"
  using assms
proof (induction legs arbitrary: s b)
  case Nil
  then show ?case by (simp add: record_orders_def)
next
  case (Cons leg legs)
  let ?u = "usd_per_side (plan_of s)"
  have u: "0 \<le> ?u" "on_grid 12 ?u" "reserve_of (order_row_of rid slug (dry_order (plan_of s) mk leg) now) = ?u"
    for rid slug now using Cons.prems(1) by (auto simp: exact_cap_def Let_def dry_reserve)
  show ?case
  proof (cases "add_order (sv_run_id s) (m_slug m) (dry_order (plan_of s) mk leg) (wall_ts w) (sv_db s)")
    case (Inl e)
    have "0 \<le> of_nat (length (leg # legs)) * ?u" using u(1) by simp
    then have "reserve_fits (b + of_nat (length (leg # legs)) * ?u) (sv_db s)"
      by (intro reserve_fits_mono [OF Cons.prems(2)]) simp
    then show ?thesis using Inl by (simp add: record_orders_def)
  next
    case (Inr db)
    have "reserve_fits (b + ?u) db" by (rule reserve_fits_add [OF Cons.prems(2) Inr u(2,1,3)])
    then show ?thesis using Cons.IH [of "s\<lparr>sv_db := db\<rparr>" "b + ?u"] Cons.prems(1) Inr
      by (simp add: record_orders_def algebra_simps)
  qed
qed

text \<open>The room that the guard leaves is what the orders of a market take.\<close>

lemma cap_room:
  assumes "within_cap cap s" "\<not> over_caps w s"
  shows "reserve_fits (cap - 2 * usd_per_side (plan_of s)) (sv_db s)"
proof -
  let ?u = "usd_per_side (plan_of s)" and ?r = "sum_list (map reserve_of (reserving (sv_db s)))"
  have c: "sc_max_reserved_usd (sv_config s) = Some cap" "cap < 10 ^ 15" "0 \<le> ?u" "2 * ?u \<le> cap" "on_grid 12 ?u"
    and f: "reserve_fits cap (sv_db s)"
    using assms(1) by (auto simp: within_cap_def exact_cap_def Let_def)
  have r: "active_reserved_usd (sv_db s) = ?r" "?r \<le> cap" "0 \<le> ?r" "on_grid 12 ?r"
    using reserve_fits_active(1) [OF f c(2)] f
    by (auto simp: reserve_fits_def list_all_iff intro!: sum_list_nonneg on_grid_sum_list)
  have big: "(10 :: rat) ^ 15 * 2 \<le> 10 ^ 16" by simp
  have u2: "on_grid 12 (?u * 2)" using on_grid_add [OF c(5) c(5)] by (simp only: mult_2_right)
  have "?u * 2 < 10 ^ 16" "?r + ?u * 2 < 10 ^ 16" using c r big by linarith+
  then have "dround (?u * 2) = ?u * 2" "dround (?r + ?u * 2) = ?r + ?u * 2"
    using dround_grid [OF u2] dround_grid [OF on_grid_add [OF r(4) u2]] c(3) r(3) by simp_all
  moreover have "dadd ?r (dmul ?u 2) \<le> cap"
    using assms(2) c(1) r(1) by (simp add: over_caps_def market_reserve_def not_less)
  ultimately have "?r + 2 * ?u \<le> cap" by (simp add: dadd_def dmul_def)
  then show ?thesis using f by (simp add: reserve_fits_def)
qed

lemma dry_legs_length: "length (dry_legs submission m) \<le> 2"
  by (simp add: dry_legs_def)

lemma within_capI:
  "within_cap cap s \<Longrightarrow> reserve_fits cap db \<Longrightarrow> within_cap cap (s\<lparr>sv_db := db\<rparr>)"
  by (simp add: within_cap_def dry_service_def)

lemma within_cap_frame:
  "within_cap cap s \<Longrightarrow> db_orders db = db_orders (sv_db s) \<Longrightarrow> within_cap cap (s\<lparr>sv_db := db\<rparr>)"
  by (rule within_capI) (simp_all add: within_cap_def reserve_fits_frame [THEN iffD2])

lemma prepared_orders: "prepare_market rid m state now db = Return db' \<Longrightarrow> db_orders db' = db_orders db"
  by (auto simp: prepare_market_def add_market_def split: if_splits)

lemma place_dry_config:
  "keeps (\<lambda>s'. dry_service s' \<and> sv_config s' = c) (place_dry w m)"
  by (auto simp: place_dry_def record_orders_def dry_service_def
      intro!: keeps_intros keeps_db_do keeps_db_try)

lemma then_db_do: "snd (sthen m (db_do f) s) = snd (m s) \<or>
    snd (sthen m (db_do f) s) = snd (m s)\<lparr>sv_db := f (sv_db (snd (m s)))\<rparr>"
  by (cases "m s"; cases "fst (m s)") (auto simp: sthen_def sbind_def db_do_def smodify_def)

lemma place_dry_orders:
  "db_orders (sv_db (snd (place_dry w m s))) = db_orders (sv_db (snd (record_orders w m
      (map (dry_order (plan_of s) m) (dry_legs (sc_entry_submission (sv_config s)) m)) s)))"
proof -
  have f: "db_orders (set_market_state slug state error now db) = db_orders db" for slug state error now db
    by (simp add: set_market_state_def)
  have "db_orders (sv_db (snd (sthen r (db_do (set_market_state slug state error now)) s))) = db_orders (sv_db (snd (r s)))"
    for r slug state error now
    using then_db_do [of r "set_market_state slug state error now" s] f
    by (elim disjE) simp_all
  then show ?thesis by (simp only: place_dry_def sbind_get)
qed

lemma placed_within_cap:
  assumes "within_cap cap s" "\<not> over_caps w s"
  shows "within_cap cap (snd (place_dry w m s))"
proof -
  let ?u = "usd_per_side (plan_of s)" and ?legs = "dry_legs (sc_entry_submission (sv_config s)) m"
  have d: "dry_service s" and e: "exact_cap cap (sv_config s)" and u: "0 \<le> ?u"
    using assms(1) by (auto simp: within_cap_def exact_cap_def Let_def)
  have "of_nat (length ?legs) * ?u \<le> of_nat 2 * ?u"
    using u dry_legs_length by (intro mult_right_mono) simp_all
  then have fits: "reserve_fits cap (sv_db (snd (place_dry w m s)))"
    unfolding reserve_fits_frame [OF place_dry_orders]
    by (intro reserve_fits_mono [OF record_dry [OF e cap_room [OF assms]]]) simp
  moreover have "dry_service (snd (place_dry w m s)) \<and> sv_config (snd (place_dry w m s)) = sv_config s"
    by (rule keepsD [OF place_dry_config]) (simp add: d)
  ultimately show ?thesis using e by (simp add: within_cap_def)
qed

lemma expired_within_cap: "keeps (within_cap cap) (close_simulated w t)"
  unfolding close_simulated_def
  by (intro keeps_when keeps_db_do within_capI reserve_fits_update)
    (simp_all add: within_cap_def tracked_states_def open_states_def)

lemma marked_within_cap:
  "within_cap cap s \<Longrightarrow> within_cap cap (s\<lparr>sv_db := mark_orders ids ''simulated_closed'' now (sv_db s)\<rparr>)"
  by (rule within_capI)
    (simp_all add: within_cap_def reserve_fits_mark tracked_states_def open_states_def)

lemma entered_within_cap:
  assumes s: "within_cap cap s" and room: "\<not> over_caps w s"
  shows "within_cap cap (snd (enter_market w m details retry until s))"
proof (cases retry)
  case None
  show ?thesis
  proof (cases "prepare_market (sv_run_id s) m ''placing'' (wall_ts w) (sv_db s)")
    case (Inl e)
    then show ?thesis using s None by (simp add: enter_market_def prepare_row_def)
  next
    case (Inr db)
    have orders: "db_orders db = db_orders (sv_db s)" by (rule prepared_orders [OF Inr])
    have w: "within_cap cap (s\<lparr>sv_db := db\<rparr>)"
      by (rule within_cap_frame [OF s orders])
    have "\<not> over_caps w (s\<lparr>sv_db := db\<rparr>)"
      using room orders
      by (simp add: over_caps_def active_reserved_alt daily_filled_cost_def split: option.splits)
    from placed_within_cap [OF w this] show ?thesis using s None Inr
      by (simp add: enter_market_def prepare_row_def within_cap_def dry_service_def)
  qed
next
  case (Some r)
  then show ?thesis using s placed_within_cap [OF s room]
    by (simp add: enter_market_def within_cap_def dry_service_def)
qed

interpretation cap: dry_law "within_cap cap" for cap
proof
  fix s w m details retry until
  assume "within_cap cap s" "\<not> over_caps w s"
  then show "within_cap cap (snd (enter_market w m details retry until s))" by (rule entered_within_cap)
next
  fix s w
  assume "within_cap cap s"
  then show "within_cap cap (snd (close_expired w s))"
    unfolding close_expired_def
    by (rule keepsD [rotated]) (intro keeps_bind keeps_get keeps_for expired_within_cap)
next
  fix s rid m state now db
  assume "within_cap cap s" "prepare_market rid m state now (sv_db s) = Return db"
  then show "within_cap cap (s\<lparr>sv_db := db\<rparr>)" by (intro within_cap_frame prepared_orders)
next
  fix s ids now
  assume "within_cap cap s"
  then show "within_cap cap (s\<lparr>sv_db := mark_orders ids ''simulated_closed'' now (sv_db s)\<rparr>)"
    by (rule marked_within_cap)
next
  fix s who level type slg now slug state error rid status
  assume s: "within_cap cap s"
  show "within_cap cap (s\<lparr>sv_db := log_event who level type slg now (sv_db s)\<rparr>)"
    "within_cap cap (s\<lparr>sv_db := set_market_state slug state error now (sv_db s)\<rparr>)"
    "within_cap cap (s\<lparr>sv_db := stop_run rid status error now (sv_db s)\<rparr>)"
    using s by (simp_all add: within_cap_frame log_event_def set_market_state_def stop_run_def)
qed (simp_all add: within_cap_def dry_service_def)

lemma begin_run_frame:
  "sv_config (begin_run w s) = sv_config s" "sv_backend (begin_run w s) = sv_backend s"
  "sv_sent (begin_run w s) = sv_sent s" "db_orders (sv_db (begin_run w s)) = db_orders (sv_db s)"
  "has_run (sv_run_id (begin_run w s)) (sv_db (begin_run w s))"
  by (simp_all add: begin_run_def event_run start_run_def Let_def log_event_def has_run_iff)

definition dry_config :: service_config where
  "dry_config = example_config\<lparr>sc_live := False\<rparr>"

definition dry_example :: service where
  "dry_example = example_service\<lparr>sv_config := dry_config, sv_backend := DryRun\<rparr>"

text \<open>
  C10. A dry run respects the cap on the reserve: with a stake that is spent exactly and a cap
  that covers one market, what the open orders reserve is at most the cap before and after
  every tick of the run, whatever each tick is given, if it was when the run began.
\<close>

theorem dry_run_within_cap:
  assumes "\<not> sc_live (sv_config s)" "sv_backend s = DryRun" "exact_cap cap (sv_config s)"
    and "active_reserved_usd (sv_db s) \<le> cap"
    and "list_all (\<lambda>r. on_grid 12 (reserve_of r) \<and> 0 \<le> reserve_of r) (reserving (sv_db s))"
  shows "active_reserved_usd (sv_db
    (fold (\<lambda>t s. snd (tick t (s\<lparr>sv_wake := False\<rparr>))) ticks (begin_run w s))) \<le> cap"
proof -
  have c: "cap < 10 ^ 15" using assms(3) by (simp add: exact_cap_def Let_def)
  have "within_cap cap (begin_run w s)"
    using assms(1-3) reserve_fits_start [OF assms(4) c assms(5)]
    by (simp add: within_cap_def dry_service_def begin_run_frame reserve_fits_frame [OF begin_run_frame(4)])
  from cap.keeps_ticks [OF this] show ?thesis
    using reserve_fits_active(2) [OF _ c] by (simp add: within_cap_def)
qed

theorem dry_run_within_cap_witness:
  "active_reserved_usd (sv_db (fold (\<lambda>t s. snd (tick t (s\<lparr>sv_wake := False\<rparr>)))
     [example_tick, example_tick] (begin_run example_answers dry_example))) \<le> 100"
proof (rule dry_run_within_cap)
  have g: "on_grid 12 1" using on_grid_of_int [of 12 1] by simp
  show "exact_cap 100 (sv_config dry_example)"
    by (simp add: exact_cap_def dry_example_def dry_config_def example_config_def example_plan_def
        order_size_def dec_eval g)
qed (simp_all add: dry_example_def dry_config_def example_config_def example_service_def
    example_db_rows active_reserved_usd_def reserving_def dec_eval)

subsection \<open>A real order of an earlier run\<close>

definition real_kept :: "string \<Rightarrow> sent list \<Rightarrow> service \<Rightarrow> bool" where
  "real_kept k xs s \<longleftrightarrow> dry_service s \<and> db_ok (sv_db s) \<and> sv_sent s = xs \<and> take 4 k \<noteq> ''dry:'' \<and>
     (\<exists>r. db_order k (sv_db s) = Some r \<and> o_status r \<in> {''live'', ''simulated_closed''})"

lemma real_kept_db:
  assumes "real_kept k xs s" "db_ok db"
    and "\<And>r. db_order k (sv_db s) = Some r \<Longrightarrow> o_status r \<in> {''live'', ''simulated_closed''} \<Longrightarrow>
      \<exists>r'. db_order k db = Some r' \<and> o_status r' \<in> {''live'', ''simulated_closed''}"
  shows "real_kept k xs (s\<lparr>sv_db := db\<rparr>)"
  using assms by (auto simp: real_kept_def dry_service_def)

lemma real_kept_exec:
  assumes "real_kept k xs s"
    and "\<And>r. db_order k (sv_db s) = Some r \<Longrightarrow> o_status r \<in> {''live'', ''simulated_closed''} \<Longrightarrow>
      \<exists>r'. db_order k (db_exec op (sv_db s)) = Some r' \<and> o_status r' \<in> {''live'', ''simulated_closed''}"
  shows "real_kept k xs (s\<lparr>sv_db := db_exec op (sv_db s)\<rparr>)"
  using assms by (intro real_kept_db db_exec_ok) (auto simp: real_kept_def)

lemma real_kept_prepare:
  assumes "real_kept k xs s" "prepare_market rid m state now (sv_db s) = Return db"
  shows "real_kept k xs (s\<lparr>sv_db := db\<rparr>)"
  using real_kept_exec [OF assms(1), of "(PrepareMarket rid m state, now)"] prepared_orders [OF assms(2)] assms(2)
  by (simp add: or_unchanged_def db_order_def)

lemma real_kept_add:
  assumes "real_kept k xs s" "add_order rid slug p now (sv_db s) = Return db" "po_order_id p \<noteq> k"
  shows "real_kept k xs (s\<lparr>sv_db := db\<rparr>)"
proof -
  have "db_exec (AddOrder rid slug p, now) (sv_db s) = db" using assms(2) by (simp add: or_unchanged_def)
  moreover have "db_order k db = db_order k (sv_db s)"
    using assms(2,3) by (auto simp: add_order_put order_store.get_put order_row_of_def split: if_splits)
  ultimately show ?thesis using real_kept_exec [OF assms(1), of "(AddOrder rid slug p, now)"] by simp
qed

lemma enter_dry:
  assumes "\<And>s. L s \<Longrightarrow> dry_service s" "keeps L (prepare_row w m ''placing'')" "keeps L (place_dry w m)"
  shows "keeps L (enter_market w m details retry until)"
  unfolding enter_market_def
proof (intro keeps_then keeps_when assms(2) keeps_get_bind)
  fix s assume s: "L s"
  then show "L (snd ((if \<not> sc_live (sv_config s) then place_dry w m
          else case sv_backend s of
            DryRun \<Rightarrow> placement_failed w m (Some (exn_text (Raised ''AttributeError'' ''place_dual'')))
          | Solo ex \<Rightarrow> place_solo w m details retry until ex
          | Many fl \<Rightarrow> place_with_fleet w m details retry until fl) s))"
    using assms(1) keepsD [OF assms(3) s] by (simp add: dry_service_def)
qed

lemma sfor_map: "sfor f (map g xs) = sfor (\<lambda>x. f (g x)) xs"
  by (induction xs) simp_all

lemma real_kept_place: "keeps (real_kept k xs) (place_dry w m)"
proof -
  have rec: "keeps (real_kept k xs) (sbind sget (\<lambda>s. db_try (add_order (sv_run_id s) (m_slug m) (dry_order plan m leg) now)))"
    for plan leg now
  proof (intro keeps_get_bind)
    fix s assume s: "real_kept k xs s"
    then have "po_order_id (dry_order plan m leg) \<noteq> k" by (auto simp: dry_order_def real_kept_def)
    with s show "real_kept k xs (snd (db_try (add_order (sv_run_id s) (m_slug m) (dry_order plan m leg) now) s))"
      by (auto simp: db_try_def intro: real_kept_add split: sum.split)
  qed
  have state: "keeps (real_kept k xs) (db_do (set_market_state slug state error now))" for slug state error now
    using real_kept_exec [of k xs _ "(SetMarketState slug state error, now)"]
    by (intro keeps_db_do) (simp add: set_market_state_def db_order_def)
  show ?thesis unfolding place_dry_def record_orders_def
    by (intro keeps_bind keeps_get keeps_then state) (unfold sfor_map, intro keeps_for rec)
qed

lemma real_kept_expired:
  assumes "real_kept k xs s"
  shows "real_kept k xs (snd (close_expired w s))"
proof -
  let ?rows = "filter (\<lambda>t. o_status (fst t) = ''simulated'') (tracked_open_orders (sv_db s))"
  have other: "o_order_id (fst t) \<noteq> k" if t: "t \<in> set ?rows" for t
  proof
    assume k: "o_order_id (fst t) = k"
    from t have r: "fst t \<in> set (db_orders (sv_db s))" "o_status (fst t) = ''simulated''"
      by (auto simp: tracked_open_orders_def in_map_filter join_market_def split: option.splits)
    have "distinct (map o_order_id (db_orders (sv_db s)))" using assms by (simp add: real_kept_def db_ok_def)
    then have "db_order k (sv_db s) = Some (fst t)"
      using k r(1) by (auto simp: db_order_def table_find_unique)
    then show False using assms r(2) by (auto simp: real_kept_def)
  qed
  have "real_kept k xs (snd (sfor (close_simulated w) ts s))"
    if "\<And>t. t \<in> set ts \<Longrightarrow> o_order_id (fst t) \<noteq> k" "real_kept k xs s" for ts s
    using that
  proof (induction ts arbitrary: s)
    case (Cons t ts)
    have "o_order_id (fst t) \<noteq> k" using Cons.prems(1) [of t] by simp
    then have "real_kept k xs (s\<lparr>sv_db := update_order (o_order_id (fst t)) ''expired'' 0
        (JObj [(''dry_run'', JBool True)]) (wall_ts w) (sv_db s)\<rparr>)"
      using real_kept_exec [OF Cons.prems(2), of "(UpdateOrder (o_order_id (fst t)) ''expired'' 0
          (JObj [(''dry_run'', JBool True)]), wall_ts w)"] by (simp add: db_order_update)
    with Cons show ?case by (cases "m_end_ts (snd t) \<le> wall_ts w") (simp_all add: close_simulated_def)
  qed simp
  from this [OF other assms] show ?thesis by (simp only: close_expired_def sbind_get)
qed

interpretation real_order: dry_law "real_kept k xs" for k xs
proof
  fix s w m details retry until
  assume s: "real_kept k xs s"
  have "keeps (real_kept k xs) (prepare_row w m ''placing'')"
    unfolding prepare_row_def by (intro keeps_bind keeps_get keeps_db_try real_kept_prepare)
  then have "keeps (real_kept k xs) (enter_market w m details retry until)"
    by (intro enter_dry real_kept_place) (simp add: real_kept_def)
  then show "real_kept k xs (snd (enter_market w m details retry until s))" using s by (rule keepsD)
next
  fix s w
  assume "real_kept k xs s"
  then show "real_kept k xs (snd (close_expired w s))" by (rule real_kept_expired)
next
  fix s rid m state now db
  assume "real_kept k xs s" "prepare_market rid m state now (sv_db s) = Return db"
  then show "real_kept k xs (s\<lparr>sv_db := db\<rparr>)" by (rule real_kept_prepare)
next
  fix s ids now
  assume "real_kept k xs s"
  then show "real_kept k xs (s\<lparr>sv_db := mark_orders ids ''simulated_closed'' now (sv_db s)\<rparr>)"
    using real_kept_exec [of k xs s "(MarkOrders ids ''simulated_closed'', now)"] by (simp add: db_order_mark)
next
  fix s who level type slg now slug state error rid status
  assume s: "real_kept k xs s"
  show "real_kept k xs (s\<lparr>sv_db := log_event who level type slg now (sv_db s)\<rparr>)"
    using real_kept_exec [OF s, of "(LogEvent who level type slg, now)"] by simp
  show "real_kept k xs (s\<lparr>sv_db := set_market_state slug state error now (sv_db s)\<rparr>)"
    using real_kept_exec [OF s, of "(SetMarketState slug state error, now)"]
    by (simp add: set_market_state_def db_order_def)
  show "real_kept k xs (s\<lparr>sv_db := stop_run rid status error now (sv_db s)\<rparr>)"
    using real_kept_exec [OF s, of "(StopRun rid status error, now)"] by (simp add: stop_run_def db_order_def)
qed (simp_all add: real_kept_def dry_service_def)

lemma finish_dry:
  assumes "dry_service s"
  shows "finish_run t b s =
    sthen (swhen b (cancel_tracked_orders (tk_follow t))) (close_run_row (tk_follow t)) s"
proof -
  have "drain_market_activation_updates w us s = (Return (), s)" for w us
    using assms by (simp add: drain_market_activation_updates_def activation_probe_def dry_service_def)
  then show ?thesis using assms
    by (simp add: finish_run_def sthen_cases has_exchange_def dry_service_def)
qed

lemma finish_dry_returns:
  assumes "dry_service s"
  shows "\<exists>s'. finish_run t b s = (Return (), s')"
proof -
  have "\<exists>s'. cancel_tracked_orders w s = (Return (), s')" for w
    using assms by (simp add: cancel_tracked_orders_def Let_def has_exchange_def dry_service_def
        db_do_def smodify_def)
  moreover have "\<exists>s''. close_run_row w s' = (Return (), s'')" for w s'
    by (simp add: close_run_row_def db_do_def smodify_def swhen_def split: option.split)
  moreover obtain s1 where "cancel_tracked_orders (tk_follow t) s = (Return (), s1)"
    using calculation(1) by blast
  ultimately show ?thesis by (cases b) (simp_all add: finish_dry [OF assms] sthen_cases)
qed

lemma real_kept_close_row: "keeps (real_kept k xs) (close_run_row w)"
  unfolding close_run_row_def
  by (auto intro!: keeps_get_bind keeps_intros split: option.split)
    (auto simp: swhen_def db_do_def smodify_def intro: real_order.stopped)

text \<open>
  C40. A dry run keeps its rows in the database of the live runs and follows what is open there
  whoever placed it: a real order of an earlier live run, still resting on the venue, is
  marked closed by a dry run that is stopped, with no request sent, and is tracked no more.
\<close>

theorem dry_run_closes_real_orders:
  assumes "run w ticks last_drain s = Some (Return (), s')"
    and "\<not> sc_live (sv_config s)" "sv_backend s = DryRun" "db_ok (sv_db s)"
    and "db_order k (sv_db s) = Some r" "o_status r = ''live''" "take 4 k \<noteq> ''dry:''"
  shows "\<exists>r'. db_order k (sv_db s') = Some r' \<and> o_status r' = ''simulated_closed'' \<and>
    r' \<notin> fst ` set (tracked_open_orders (sv_db s')) \<and> sv_sent s' = sv_sent s"
proof -
  obtain s1 where l: "run_loop ticks (begin_run w s) = Some (Return (), s1)"
    and f: "finish_run last_drain True s1 = (Return (), s')"
    using assms(1) by (auto simp: run_def split: option.splits prod.splits sum.splits)
  have "db_ok (sv_db (begin_run w s))" unfolding begin_run_db by (intro db_exec_ok assms(4))
  then have "real_kept k (sv_sent s) (begin_run w s)" using assms(2-7)
    by (simp add: real_kept_def dry_service_def begin_run_frame db_order_def)
  from real_order.keeps_loop [OF l this] have k1: "real_kept k (sv_sent s) s1" .
  then have "keeps (real_kept k (sv_sent s)) (sthen (swhen True (cancel_tracked_orders (tk_follow last_drain)))
      (close_run_row (tk_follow last_drain)))"
    by (intro keeps_then keeps_when real_order.keeps_cancel_tracked real_kept_close_row)
  from keepsD [OF this k1] k1 f have k': "real_kept k (sv_sent s) s'"
    by (simp add: finish_dry real_kept_def)
  have here: "has_run (sv_run_id s1) (sv_db s1)"
    using same_run.keeps_run_loop [OF l, of "sv_run_id (begin_run w s)"] begin_run_frame(5) [of w s] by simp
  obtain r' where r': "db_order k (sv_db s') = Some r'" "o_status r' \<in> {''live'', ''simulated_closed''}"
    using k' by (auto simp: real_kept_def)
  then have row: "r' \<in> set (db_orders (sv_db s'))" by (auto simp: db_order_def dest: table_find_Some)
  have "has_market (o_slug r') (sv_db s')"
    using k' row db_ok_simps(3) by (auto simp: real_kept_def has_market_iff)
  then have "o_status r' \<notin> set open_states"
    using finish_run_closes [OF f here] row by (auto simp: none_open_def list_all_iff)
  with r' have st: "o_status r' = ''simulated_closed''" by (auto simp: open_states_def)
  then have "r' \<notin> fst ` set (tracked_open_orders (sv_db s'))"
    by (auto simp: tracked_open_orders_def in_map_filter join_market_def tracked_states_def open_states_def)
  with r' st k' show ?thesis by (auto simp: real_kept_def)
qed

definition dry_example_order :: service where
  "dry_example_order = dry_example\<lparr>sv_db := example_db\<lparr>db_orders := [example_row\<lparr>o_status := ''live''\<rparr>]\<rparr>\<rparr>"

lemma dry_example_run:
  "\<exists>s'. run example_answers [idle_tick_input] idle_tick_input dry_example_order = Some (Return (), s')"
proof -
  let ?t = idle_tick_input
  obtain b where b: "b = begin_run example_answers dry_example_order" by simp
  let ?s0 = "b\<lparr>sv_wake := False\<rparr>"
  have s: "sv_config b = dry_config" "sv_backend b = DryRun" "sv_last_reconcile b = 0"
    "sv_last_discovery b = 0" "sv_activation_updates b = []"
    by (simp_all add: b begin_run_def event_run start_run_def Let_def dry_example_order_def dry_example_def
        example_service_def)
  have idle: "idle_input ?t" by (simp add: idle_input_def idle_tick_input_def example_tick_def)
  have due: "due_open_orders 1700000070 (sv_db ?s0) = []"
    by (simp add: b begin_run_def event_run start_run_def Let_def dry_example_order_def log_event_def
        due_open_orders_def List.map_filter_def join_market_def table_find_def example_db_rows
        example_mkt_def example_row_def order_row_of_def example_order_def open_states_def)
  have "cancel_due_orders (tk_follow ?t) ?s0 = (Return (), ?s0)"
    using due by (simp add: cancel_due_orders_def s dry_config_def example_config_def Let_def
        idle_tick_input_def example_tick_def example_answers_def)
  moreover have "poll_orders ?t False ?s0 = (Return (tk_recon_worker ?t), ?s0)"
    by (simp add: poll_orders_def s dry_config_def example_config_def idle_tick_input_def example_tick_def)
  ultimately have follow: "follow_orders ?t ?s0 = (Return (tk_recon_worker ?t), ?s0)"
    by (simp add: follow_orders_def sthen_cases has_exchange_def s dry_config_def idle_drains [OF idle])
  have queue: "b\<lparr>sv_activation_updates := [], sv_wake := False\<rparr> = ?s0" using s(5) by (cases b) simp
  have place: "place_entries ?t ?s0 = (Return (), ?s0)"
    by (simp add: place_entries_def sthen_cases s tick_healthy_def dry_config_def example_config_def
        idle_tick_input_def example_tick_def place_activated_markets_def smodify_def queue)
  have "tick ?t ?s0 = (Return (tk_recon_worker ?t), ?s0)"
    by (simp add: tick_def sthen_cases sbind_def idle_drains [OF idle] follow place)
  then have "run_loop [?t] b = Some (Return (), ?s0)" by (simp add: idle_tick_input_def example_tick_def)
  moreover obtain s' where "finish_run ?t True ?s0 = (Return (), s')"
    using finish_dry_returns [of ?s0] s by (auto simp: dry_service_def dry_config_def)
  ultimately show ?thesis by (simp add: run_def b)
qed

theorem dry_run_closes_real_orders_witness:
  "\<exists>s'. run example_answers [idle_tick_input] idle_tick_input dry_example_order = Some (Return (), s') \<and>
     (\<exists>r'. db_order ''0x1'' (sv_db s') = Some r' \<and> o_status r' = ''simulated_closed'') \<and> sv_sent s' = []"
proof -
  obtain s' where r: "run example_answers [idle_tick_input] idle_tick_input dry_example_order = Some (Return (), s')"
    using dry_example_run by blast
  have ok: "db_ok (sv_db dry_example_order)"
    by (simp add: dry_example_order_def example_db_rows db_ok_def example_row_def order_row_of_def mr_slug_def)
  have "db_order ''0x1'' (sv_db dry_example_order) = Some (example_row\<lparr>o_status := ''live''\<rparr>)"
    by (simp add: dry_example_order_def db_order_def table_find_def example_row_def order_row_of_def example_order_def)
  from dry_run_closes_real_orders [OF r _ _ ok this] r show ?thesis
    by (simp add: dry_example_order_def dry_example_def dry_config_def example_service_def) blast
qed

end
