(* ===== verification/Spec2Isabelle.thy ===== *)
theory Spec2Isabelle
  imports Prelude Decimals Py_Values Json_Text Models Discovery Health Geoblock User_Stream
    Activation Conditional_Tokens Database Knocker Exchange Fleet Reconciliation Service_State
    Service_Orders Order_Following Service_Place Placement_Facts Service
    Decimal_Text Paper_Fill Paper_Store Paper_Report Paper Paper_Facts Config Cli Setup Queue_Probe
    Transport Knock_Library Accounts Schema Dry_Run
begin

text \<open>
  A trading bot for five-minute up/down markets (\<open>src/polymarket_bot\<close>): it finds markets before
  they open, knocks on the venue until an entry order for each side is accepted, follows the
  orders through reconciliation and the user stream, places exits, and cancels what is left
  before a market ends. A second program, the paper simulator, replays public books and trades
  against the same plan. The development models this code definition by definition.

  The parts and how they interact.

  \<^item> \<open>Models\<close> (models.py): \<open>trade_plan\<close> with \<open>validate_plan\<close>, \<open>market\<close>, \<open>placed_order\<close>,
    \<open>placement_result\<close>. Everything below speaks in these records.
  \<^item> \<open>Discovery\<close> (discovery.py): Gamma's listings are read into markets (\<open>parse_market\<close>), paged
    (\<open>fetch_events\<close>), and looked up by slot (\<open>find_by_slug\<close>).
  \<^item> \<open>Activation\<close> (market_activation.py): the two threads that follow the listings and the CLOB
    and announce a market once; \<open>act_step\<close> interleaves their locked sections.
    \<open>Conditional_Tokens\<close> (conditional_tokens.py) derives the asset ids they look for.
  \<^item> \<open>Geoblock\<close>, \<open>User_Stream\<close> (geoblock.py, user_stream.py): the two other background workers.
    \<open>Health\<close> holds the contract the three share.
  \<^item> \<open>Knocker\<close> (knocker.py), \<open>Exchange\<close> (exchange.py), \<open>Fleet\<close> (fleet.py): signing, knocking,
    settling and withdrawing an entry, for one account and for several.
  \<^item> \<open>Reconciliation\<close> (reconciliation.py): the worker that reads the state of tracked orders.
  \<^item> \<open>Database\<close> (database.py): every table and statement of the bot's SQLite file. \<open>Schema\<close> opens
    the file: \<open>exec_statement\<close> runs the script of \<open>SCHEMA\<close>, \<open>migrate_schema\<close> adds what an older
    file lacks.
  \<^item> \<open>Service_State\<close>, \<open>Service_Orders\<close>, \<open>Service_Place\<close>, \<open>Service\<close> (service.py): \<open>BotService\<close>,
    which owns all of the above. Its methods are written in a state-and-exception monad
    (\<open>'a svc\<close>), in the order of the code; \<open>tick\<close> is one turn of the loop and \<open>run\<close> the whole
    session with its shutdown. \<open>Order_Following\<close>, \<open>Placement_Facts\<close> and \<open>Dry_Run\<close> hold what is
    proved of them.
  \<^item> \<open>Paper_Fill\<close>, \<open>Paper_Store\<close>, \<open>Paper_Report\<close>, \<open>Paper\<close> (paper.py): the arithmetic of fills and
    results, the paper database, its report, and the simulator with its loop; \<open>Paper_Facts\<close>
    holds what is proved of it.
  \<^item> \<open>Queue_Probe\<close> (queue_probe.py): the recorder of the public queue around an opening, one
    connection (\<open>watch_book\<close>) and the loop that reconnects (\<open>monitor_market\<close>).
  \<^item> \<open>Config\<close>, \<open>Cli\<close>, \<open>Setup\<close> (config.py, cli.py, lock.py, setup.py): the environment, the
    commands \<open>run\<close> and \<open>paper\<close> with their checks up to the service or simulator they start, and the
    wallet setup as a sequence of effects.
  \<^item> \<open>Transport\<close>, \<open>Knock_Library\<close>, \<open>Accounts\<close> (transport.py, knocker.py, and the constructors of
    \<open>Exchange\<close>, \<open>UserStreamWorker\<close> and \<open>BotService\<close>): the shared connection pool, the bridge to the
    knock library, and the credentials and streams of the accounts.
  \<^item> \<open>Prelude\<close>, \<open>Decimals\<close>, \<open>Decimal_Text\<close>, \<open>Py_Values\<close>, \<open>Json_Text\<close>: insertion-ordered
    dictionaries, Python's texts, integers and decimals, JSON values, and exceptions.

  How the code is rendered.

  \<^item> An object is a record, its method a function that returns the record updated. A method
    that may raise has a result \<open>exn + 'a\<close>; every \<open>raise\<close>, \<open>except\<close> and early return is a branch.
  \<^item> A \<open>Decimal\<close> is the rational it denotes and every arithmetic result is rounded to 28 digits,
    half to even (\<open>dround\<close>); a float is a rational rounded to 53 binary digits (\<open>to_double\<close>).
    Texts that read as NaN or an infinity count as unreadable. Strings are lists of 8-bit
    characters.
  \<^item> What is not under src/ is a parameter: the venue's client (\<open>venue\<close>), Gamma, the CLOB, the
    websocket, the knock library, keccak, SHA-256, the environment and the files, whether the
    instance lock's port is free, and the clock, given as one reading per method but
    where the code's result depends on the time that passes within one. A tick takes what each
    worker's queue holds when it is drained.
  \<^item> A loop without a bound is a function of the list of its passes (the events, clock readings
    or replies of each), so the theorems speak of every finite run. The loops that have a bound
    in the code (signing, paging, slots, curve points) are total functions; the JSON reader
    spends fuel, and \<open>jval_mono\<close> says that more fuel changes nothing.
  \<^item> Logging and the detail fields of logged events are left out, as is the exact wording of
    exceptions that Python's runtime raises.

  What the groups of lemmas show.

  \<^item> Interfaces. \<open>health_edges\<close> (\<open>Health\<close>) is interpreted for the geoblock, user-stream and
    activation workers: they announce exactly the edges of their health. \<open>keyed_store\<close>
    (\<open>Database\<close>) is interpreted for tables and the order table, \<open>ignoring_store\<close>
    (\<open>Paper_Store\<close>) for the paper rows. \<open>follow_law\<close>, \<open>service_law\<close>, \<open>run_law\<close> and \<open>db_law\<close>
    (\<open>Service_State\<close>) say what a property of the service needs for every method to keep it;
    they are interpreted for the keys of the database, for orders and events that are never lost,
    for the rows of the runs, which only the run itself writes, and for the log of requests. \<open>dry_law\<close> (\<open>Dry_Run\<close>) asks less, only of what a dry
    run writes and of entries placed with room under the caps; it is interpreted for the cap on
    the reserve and for a real order that is on record. \<open>row_law\<close> (\<open>Paper_Facts\<close>) does the same for a paper
    row and what becomes of it.
  \<^item> Placing: an entry leaves the process only for a market that passes every guard, under the
    caps, while every gate is healthy; a market is entered once; a tick that finds the
    location blocked ends the run; a fleet keeps one order and cancels the others; a knock loses neither its result nor a Ctrl+C.
  \<^item> Following: reconciliation never turns an order back and never retires one on a single
    read; exits never sell more than is held; the deadline sweep sends every due order to the
    account that owns it for cancellation, and the shutdown leaves no order open; how a run ended is
    on record; a dry run stays under its cap.
  \<^item> Storing: a file of an older schema opens with its cells as they were and its new columns at
    the defaults of the schema.
  \<^item> Paper: the closed fill formula is the fill of a FIFO queue; the loops over statements are a
    step on each row; rows follow their life cycle; a due market is settled by the next poll
    that can read it; the reported peak of the reserve is exact.
  \<^item> Starting: \<open>run\<close> starts a service only with a valid plan, caps that cover a market and, live, an
    acknowledged and complete environment, a free lock and the knock library; the accounts of a
    fleet hand out sizes for signing that differ by a hundredth of a share; the setup changes nothing before every guard has passed, and
    then does a prefix of one fixed sequence.
  \<^item> Recording: the queues of the probe follow the assignments of the events; a market is given
    up only after twelve hours or with a row in the file. The pool is swapped once, and warmed
    at most and at least once a minute. The hash of the library's sources does not depend on the
    checkout.
  \<^item> Six theorems state behaviour the code does not mean to have: a single-leg entry found by
    reconciliation is marked failed, a full cap drops queued activations, an unreadable payload
    ends the shutdown before the cancels, a listing with an unreadable minimum size fails the
    discovery round, the probe's opening window is lost with its connection, and a dry run that
    is stopped marks a real order of an earlier run closed.

  Not modelled: the Go library behind the knock and its fake venue (another language), threads
  and sockets beyond their passes and queues, the tables of argparse, the printing of \<open>doctor\<close>
  and \<open>status\<close> and of the fleet's details, log and trace files, the texts of the JSON columns, and a Ctrl+C between two statements of a
  method.
\<close>

end
